(* ===== verification/Prelude.thy ===== *)
theory Prelude
  imports Main "HOL-Library.Word"
begin

unbundle bit_operations_syntax

text \<open>
  What every component of the development shares: the result type of C++ code that may
  throw or run into undefined behaviour, the parser type of functions that consume a
  \<^verbatim>\<open>std::string&\<close>, the fragments of the C and C++ standard libraries the sources
  use (\<^verbatim>\<open>substr\<close>, \<^verbatim>\<open>stoul\<close> in base 16, \<^verbatim>\<open>strcpy\<close> into a fixed buffer,
  \<^verbatim>\<open>sprintf "%02X"\<close>), integer conversions, and the lemmas about them.

  A \<^verbatim>\<open>std::string\<close> is a \<^typ>\<open>string\<close>: a list of 8-bit characters. A byte is an
  \<^typ>\<open>8 word\<close>.
\<close>

named_theorems parser_simps \<open>one-step unfolding of the parser combinators\<close>
named_theorems codec_simps \<open>decoder applied to the image of its encoder\<close>
named_theorems byte_simps \<open>value of a byte expression as a natural number\<close>

section \<open>Results: exceptions and undefined behaviour\<close>

type_synonym byte = "8 word"

text \<open>
  Undefined behaviour is a value of its own, apart from the exceptions: a
  \<^verbatim>\<open>catch (...)\<close> stops an exception, never undefined behaviour.
\<close>

datatype ub =
    BufferOverflow    \<comment> \<open>a C string longer than the array it is copied to\<close>
  | OutOfBounds       \<comment> \<open>an array index past the end\<close>
  | NullDeref         \<comment> \<open>a null pointer is followed\<close>
  | Uninitialised     \<comment> \<open>an object is read before it was written\<close>
  | SignedOverflow    \<comment> \<open>arithmetic on a signed type leaves its range\<close>
  | DivisionByZero
  | BadShift          \<comment> \<open>a shift by the width of the type or more\<close>
  | MissingReturn     \<comment> \<open>a function with a result ends without one\<close>
  | UseAfterFree

datatype exn =
    OutOfRange                        \<comment> \<open>\<^verbatim>\<open>std::out_of_range\<close>\<close>
  | InvalidArgument                   \<comment> \<open>\<^verbatim>\<open>std::invalid_argument\<close>\<close>
  | CompactIntegerException string
  | ApplicationException string
  | JsonRpcException string
  | BadFunctionCall                   \<comment> \<open>\<^verbatim>\<open>std::bad_function_call\<close>\<close>

datatype cxx_error = Throw exn | Undefined ub

type_synonym 'a result = "cxx_error + 'a"

fun rbind :: "'a result \<Rightarrow> ('a \<Rightarrow> 'b result) \<Rightarrow> 'b result" where
  "rbind (Inl e) f = Inl e"
| "rbind (Inr x) f = f x"

text \<open>\<^verbatim>\<open>try { r } catch (...) { h }\<close>.\<close>

fun try_catch_all :: "'a result \<Rightarrow> 'a result \<Rightarrow> 'a result" where
  "try_catch_all (Inl (Throw e)) h = h"
| "try_catch_all r h = r"

lemma rbind_Inr_iff [simp]: "rbind r f = Inr y \<longleftrightarrow> (\<exists>x. r = Inr x \<and> f x = Inr y)"
  by (cases r) auto

lemma rbind_Inl_iff: "rbind r f = Inl e \<longleftrightarrow> r = Inl e \<or> (\<exists>x. r = Inr x \<and> f x = Inl e)"
  by (cases r) auto

lemma rbind_assoc: "rbind (rbind r f) g = rbind r (\<lambda>x. rbind (f x) g)"
  by (cases r) auto

text \<open>Evaluates the first computation before it looks at the rest.\<close>

lemma rbind_weak_cong: "r = r' \<Longrightarrow> rbind r f = rbind r' f"
  by simp

section \<open>Functions that consume a string\<close>

type_synonym 'a parser = "string \<Rightarrow> ('a \<times> string) result"

definition preturn :: "'a \<Rightarrow> 'a parser" where
  "preturn x s = Inr (x, s)"

definition pfail :: "cxx_error \<Rightarrow> 'a parser" where
  "pfail e s = Inl e"

definition plift :: "'a result \<Rightarrow> 'a parser" where
  "plift r s = rbind r (\<lambda>x. Inr (x, s))"

definition pbind :: "'a parser \<Rightarrow> ('a \<Rightarrow> 'b parser) \<Rightarrow> 'b parser" where
  "pbind p f s = rbind (p s) (\<lambda>(x, s'). f x s')"

lemmas parser_defs = preturn_def pfail_def plift_def pbind_def

lemma pbind_Inr: "p s = Inr (x, s') \<Longrightarrow> pbind p f s = f x s'"
  by (simp add: pbind_def)

lemma pbind_Inl: "p s = Inl e \<Longrightarrow> pbind p f s = Inl e"
  by (simp add: pbind_def)

lemma pbind_eq_Inr:
  "pbind p f s = Inr (y, s'') \<longleftrightarrow> (\<exists>x s'. p s = Inr (x, s') \<and> f x s' = Inr (y, s''))"
  by (cases "p s") (auto simp: pbind_def)

lemma plift_eq_Inr: "plift r s = Inr (y, s') \<longleftrightarrow> r = Inr y \<and> s' = s"
  by (cases r) (auto simp: plift_def)

lemma preturn_eq_Inr: "preturn x s = Inr (y, s') \<longleftrightarrow> y = x \<and> s' = s"
  by (auto simp: preturn_def)

lemma preturn_then: "pbind (preturn x) f s = f x s"
  by (simp add: pbind_def preturn_def)

lemma pbind_assoc: "pbind (pbind p f) g s = pbind p (\<lambda>x. pbind (f x) g) s"
  by (cases "p s") (auto simp: pbind_def)

section \<open>Integers\<close>

text \<open>
  The program runs where \<^verbatim>\<open>int\<close> has 32 and \<^verbatim>\<open>long\<close>, \<^verbatim>\<open>long long\<close> and
  \<^verbatim>\<open>size_t\<close> have 64 bits. A signed value is an \<^typ>\<open>int\<close>; a conversion to a
  narrower signed type wraps, an arithmetic result outside the type's range is undefined.
\<close>

definition to_int32 :: "int \<Rightarrow> int" where
  "to_int32 x = sint (word_of_int x :: 32 word)"

definition to_int64 :: "int \<Rightarrow> int" where
  "to_int64 x = sint (word_of_int x :: 64 word)"

definition in_int32 :: "int \<Rightarrow> bool" where
  "in_int32 x \<longleftrightarrow> - (2 ^ 31) \<le> x \<and> x < 2 ^ 31"

definition in_int64 :: "int \<Rightarrow> bool" where
  "in_int64 x \<longleftrightarrow> - (2 ^ 63) \<le> x \<and> x < 2 ^ 63"

definition checked32 :: "int \<Rightarrow> int result" where
  "checked32 x = (if in_int32 x then Inr x else Inl (Undefined SignedOverflow))"

definition checked64 :: "int \<Rightarrow> int result" where
  "checked64 x = (if in_int64 x then Inr x else Inl (Undefined SignedOverflow))"

text \<open>Conversion of a signed value to \<^verbatim>\<open>size_t\<close>.\<close>

definition to_size_t :: "int \<Rightarrow> nat" where
  "to_size_t x = nat (x mod 2 ^ 64)"

lemma to_int32_id: "in_int32 x \<Longrightarrow> to_int32 x = x"
  by (simp add: to_int32_def in_int32_def signed_of_int signed_take_bit_int_eq_self)

lemma to_int64_id: "in_int64 x \<Longrightarrow> to_int64 x = x"
  by (simp add: to_int64_def in_int64_def signed_of_int signed_take_bit_int_eq_self)

lemma in_int32_to_int32 [simp]: "in_int32 (to_int32 x)"
  using sint_ge [of "word_of_int x :: 32 word"] sint_lt [of "word_of_int x :: 32 word"]
  by (simp add: to_int32_def in_int32_def)

lemma to_int32_of_nat [simp]: "n < 2 ^ 31 \<Longrightarrow> to_int32 (int n) = int n"
  by (rule to_int32_id) (simp add: in_int32_def)

lemma to_size_t_of_nat [simp]: "n < 2 ^ 64 \<Longrightarrow> to_size_t (int n) = n"
  by (simp add: to_size_t_def)

text \<open>Masks and shifts of words as remainders and quotients.\<close>

lemma uint_and_mask: "uint (w AND mask n) = uint w mod 2 ^ n"
  by (metis take_bit_eq_mask take_bit_eq_mod unsigned_take_bit_eq)

lemma uint_drop_bit: "uint (drop_bit n w) = uint (w :: 'a :: len word) div 2 ^ n"
  by (metis drop_bit_eq_div unsigned_drop_bit_eq take_bit_int_eq_self_iff uint_lt2p uint_ge_0)

lemma uint_take_bit: "uint (take_bit n w) = uint w mod 2 ^ n"
  unfolding unsigned_take_bit_eq by (rule take_bit_eq_mod)

section \<open>Strings\<close>

abbreviation NUL :: char where
  "NUL \<equiv> CHR 0x00"

text \<open>\<^verbatim>\<open>s.substr(pos)\<close> and \<^verbatim>\<open>s.substr(pos, n)\<close>.\<close>

definition substr_from :: "string \<Rightarrow> nat \<Rightarrow> string result" where
  "substr_from s pos = (if pos \<le> length s then Inr (drop pos s) else Inl (Throw OutOfRange))"

definition substr :: "string \<Rightarrow> nat \<Rightarrow> nat \<Rightarrow> string result" where
  "substr s pos n = (if pos \<le> length s then Inr (take n (drop pos s)) else Inl (Throw OutOfRange))"

text \<open>The C string in a \<^verbatim>\<open>std::string\<close>: what \<^verbatim>\<open>c_str()\<close> shows up to the first NUL.\<close>

definition c_str :: "string \<Rightarrow> string" where
  "c_str s = takeWhile (\<lambda>c. c \<noteq> NUL) s"

text \<open>\<^verbatim>\<open>strcpy(dst, s.c_str())\<close> for \<^verbatim>\<open>char dst[n]\<close>: the C string left in \<^verbatim>\<open>dst\<close>.\<close>

definition strcpy_to :: "nat \<Rightarrow> string \<Rightarrow> string result" where
  "strcpy_to n s =
     (if length (c_str s) < n then Inr (c_str s) else Inl (Undefined BufferOverflow))"

definition c_string :: "nat \<Rightarrow> string \<Rightarrow> bool" where
  "c_string n s \<longleftrightarrow> length s < n \<and> NUL \<notin> set s"

lemma c_str_id [simp]: "NUL \<notin> set s \<Longrightarrow> c_str s = s"
  by (auto simp: c_str_def takeWhile_eq_all_conv)

lemma NUL_notin_c_str [simp]: "NUL \<notin> set (c_str s)"
  by (auto simp: c_str_def dest: set_takeWhileD)

lemma strcpy_to_c_string: "c_string n s \<Longrightarrow> strcpy_to n s = Inr s"
  by (simp add: strcpy_to_def c_string_def)

lemma strcpy_to_Inr: "strcpy_to n s = Inr t \<Longrightarrow> c_string n t \<and> t = c_str s"
  by (auto simp: strcpy_to_def c_string_def split: if_splits)

subsection \<open>Hexadecimal digits and \<^verbatim>\<open>stoul\<close> in base 16\<close>

definition is_space :: "char \<Rightarrow> bool" where
  "is_space c \<longleftrightarrow> c \<in> {CHR '' '', CHR 0x09, CHR 0x0A, CHR 0x0B, CHR 0x0C, CHR 0x0D}"

definition hex_value :: "char \<Rightarrow> int option" where
  "hex_value c =
     (let n = of_char c in
      if 48 \<le> n \<and> n \<le> 57 then Some (n - 48)
      else if 97 \<le> n \<and> n \<le> 102 then Some (n - 97 + 10)
      else if 65 \<le> n \<and> n \<le> 70 then Some (n - 65 + 10)
      else None)"

definition is_hex :: "char \<Rightarrow> bool" where
  "is_hex c \<longleftrightarrow> hex_value c \<noteq> None"

definition hex_number :: "string \<Rightarrow> int" where
  "hex_number ds = foldl (\<lambda>a c. 16 * a + the (hex_value c)) 0 ds"

text \<open>
  \<^verbatim>\<open>std::stoul(s, nullptr, 16)\<close>: leading white space, a sign and a prefix \<^verbatim>\<open>0x\<close>
  are skipped, the longest run of digits is read and the rest ignored; no digit is
  \<^verbatim>\<open>invalid_argument\<close>, a value past \<^verbatim>\<open>ULONG_MAX\<close> is \<^verbatim>\<open>out_of_range\<close>, and a
  minus sign negates modulo $2^{64}$.
\<close>

definition skip_sign :: "string \<Rightarrow> bool \<times> string" where
  "skip_sign s = (case s of [] \<Rightarrow> (False, [])
     | c # cs \<Rightarrow> if c = CHR ''-'' then (True, cs) else if c = CHR ''+'' then (False, cs) else (False, s))"

definition skip_0x :: "string \<Rightarrow> string" where
  "skip_0x s = (case s of
       c0 # c1 # c2 # cs \<Rightarrow>
         if c0 = CHR ''0'' \<and> (c1 = CHR ''x'' \<or> c1 = CHR ''X'') \<and> is_hex c2 then c2 # cs else s
     | _ \<Rightarrow> s)"

definition stoul16 :: "string \<Rightarrow> int result" where
  "stoul16 s =
     (let (neg, s') = skip_sign (dropWhile is_space s);
          ds = takeWhile is_hex (skip_0x s');
          v = hex_number ds
      in if ds = [] then Inl (Throw InvalidArgument)
         else if 2 ^ 64 \<le> v then Inl (Throw OutOfRange)
         else Inr (if neg then (2 ^ 64 - v) mod 2 ^ 64 else v))"

text \<open>
  The digit of a nibble, and the two digits of a byte: \<^verbatim>\<open>sprintf("%02X")\<close> for the
  flag \<^term>\<open>True\<close>, the lower-case digits of the node's answers for \<^term>\<open>False\<close>.
\<close>

definition hex_digit :: "bool \<Rightarrow> int \<Rightarrow> char" where
  "hex_digit upper n =
     char_of (if n < 10 then 48 + n else if upper then 65 + (n - 10) else 97 + (n - 10))"

definition hex_byte :: "bool \<Rightarrow> byte \<Rightarrow> string" where
  "hex_byte upper b = [hex_digit upper (uint b div 16), hex_digit upper (uint b mod 16)]"

definition hex_bytes :: "bool \<Rightarrow> byte list \<Rightarrow> string" where
  "hex_bytes upper bs = concat (map (hex_byte upper) bs)"

definition nibble :: "int \<Rightarrow> bool" where
  "nibble n \<longleftrightarrow> 0 \<le> n \<and> n < 16"

lemma of_char_hex_digit:
  "nibble n \<Longrightarrow> (of_char (hex_digit u n) :: int) =
     (if n < 10 then 48 + n else if u then 55 + n else 87 + n)"
  by (auto simp: hex_digit_def nibble_def of_char_of)

lemma hex_value_hex_digit [simp]: "nibble n \<Longrightarrow> hex_value (hex_digit u n) = Some n"
  by (auto simp: hex_value_def of_char_hex_digit Let_def) (auto simp: nibble_def)

lemma is_hex_hex_digit [simp]: "nibble n \<Longrightarrow> is_hex (hex_digit u n)"
  by (simp add: is_hex_def)

lemma hex_byte_length [simp]: "length (hex_byte u b) = 2"
  by (simp add: hex_byte_def)

lemma hex_bytes_simps [simp]:
  "hex_bytes u [] = []"
  "hex_bytes u (b # bs) = hex_byte u b @ hex_bytes u bs"
  "hex_bytes u (as @ bs) = hex_bytes u as @ hex_bytes u bs"
  by (simp_all add: hex_bytes_def)

lemma length_hex_bytes [simp]: "length (hex_bytes u bs) = 2 * length bs"
  by (induction bs) simp_all

lemma uint_byte_less: "uint (b :: byte) < 256"
  using uint_lt2p [of b] by simp

lemma unat_byte_less: "unat (b :: byte) < 256"
  using unsigned_less [of b, where ?'a = nat] by simp

lemma byte_nibbles [simp]: "nibble (uint (b :: byte) div 16)" "nibble (uint (b :: byte) mod 16)"
  using uint_byte_less [of b] uint_ge_0 [of b] by (auto simp: nibble_def intro: pos_imp_zdiv_nonneg_iff [THEN iffD2])

lemma hex_digit_neq:
  "nibble n \<Longrightarrow> of_char c \<notin> {48 .. 57::int} \<union> {65 .. 70} \<union> {97 .. 102} \<Longrightarrow> hex_digit u n \<noteq> c"
  by (auto dest!: arg_cong [where f = "of_char :: char \<Rightarrow> int"] simp: of_char_hex_digit split: if_splits)
    (auto simp: nibble_def)

lemma hex_digit_sign [simp]:
  "nibble n \<Longrightarrow> hex_digit u n \<noteq> CHR ''-''" "nibble n \<Longrightarrow> hex_digit u n \<noteq> CHR ''+''"
  "nibble n \<Longrightarrow> hex_digit u n \<noteq> CHR ''x''" "nibble n \<Longrightarrow> hex_digit u n \<noteq> CHR ''X''"
  by (rule hex_digit_neq; simp)+

lemma is_space_hex_digit [simp]: "nibble n \<Longrightarrow> \<not> is_space (hex_digit u n)"
  by (auto simp: is_space_def hex_digit_neq)

lemma hex_number_hex_byte: "hex_number (hex_byte u b) = uint b"
  by (simp add: hex_number_def hex_byte_def)

lemma stoul16_hex_byte: "stoul16 (hex_byte u b) = Inr (uint b)"
proof -
  have sign: "skip_sign (dropWhile is_space (hex_byte u b)) = (False, hex_byte u b)"
    by (simp add: hex_byte_def skip_sign_def)
  have pre: "skip_0x (hex_byte u b) = hex_byte u b"
    by (simp add: hex_byte_def skip_0x_def)
  have digits: "takeWhile is_hex (hex_byte u b) = hex_byte u b"
    by (simp add: hex_byte_def)
  have "\<not> 2 ^ 64 \<le> uint b"
    using uint_byte_less [of b] by simp
  moreover have "hex_byte u b \<noteq> []"
    by (simp add: hex_byte_def)
  ultimately show ?thesis
    unfolding stoul16_def sign Let_def prod.case pre digits hex_number_hex_byte by simp
qed

section \<open>Ordered maps\<close>

text \<open>
  A \<^verbatim>\<open>std::map\<close> as the list of its entries in key order; \<^verbatim>\<open>m[k] = v\<close> keeps the order and replaces
  the value of a key that is there.
\<close>

fun map_put :: "'k :: linorder \<Rightarrow> 'a \<Rightarrow> ('k \<times> 'a) list \<Rightarrow> ('k \<times> 'a) list" where
  "map_put k v [] = [(k, v)]"
| "map_put k v ((k', v') # kvs) =
     (if k < k' then (k, v) # (k', v') # kvs
      else if k = k' then (k, v) # kvs
      else (k', v') # map_put k v kvs)"

lemma map_of_map_put [simp]: "map_of (map_put k v kvs) = (map_of kvs)(k \<mapsto> v)"
  by (induction k v kvs rule: map_put.induct) (auto simp: fun_eq_iff)

lemma map_put_last: "list_all (\<lambda>(k', v'). k' < k) kvs \<Longrightarrow> map_put k v kvs = kvs @ [(k, v)]"
proof (induction kvs)
  case (Cons kv kvs)
  obtain k' v' where kv: "kv = (k', v')" by (cases kv)
  then have "k' < k" using Cons.prems by simp
  then have "\<not> k < k'" "k \<noteq> k'" using order.asym by auto
  then show ?case using Cons kv by simp
qed simp

lemma map_put_keys: "set (map fst (map_put k v kvs)) = insert k (set (map fst kvs))"
  by (induction k v kvs rule: map_put.induct) auto

lemma map_put_sorted: "sorted_wrt (<) (map fst kvs) \<Longrightarrow> sorted_wrt (<) (map fst (map_put k v kvs))"
proof (induction k v kvs rule: map_put.induct)
  case (2 k v k' v' kvs)
  show ?case
  proof (cases "k < k'")
    case True
    then show ?thesis using 2 by (auto intro: order.strict_trans)
  next
    case False
    then show ?thesis using 2 map_put_keys [of k v kvs] by (cases "k = k'") auto
  qed
qed simp

lemma map_put_all: "list_all P kvs \<Longrightarrow> P (k, v) \<Longrightarrow> list_all P (map_put k v kvs)"
  by (induction k v kvs rule: map_put.induct) auto

end
