(* ===== verification/Scale.thy ===== *)
theory Scale
  imports Prelude
begin

unbundle bit_operations_syntax

text \<open>
  The SCALE codec of \<^verbatim>\<open>src/scale.cpp\<close>: reading bytes, words, strings and compact
  integers off a hexadecimal string, and writing compact integers to a buffer. The
  reference definitions \<open>le_bytes\<close> and \<open>compact_spec\<close> state the wire format; the lemmas
  show that the decoder inverts it, where the encoder produces it, and where it does not.
\<close>

section \<open>Reading\<close>

definition nextByte :: "byte parser" where
  "nextByte stream =
     (let nb = take 2 stream in
      rbind (substr_from stream 2) (\<lambda>stream'.
      rbind (stoul16 nb) (\<lambda>v. Inr (word_of_int v, stream'))))"

definition nextWord :: "byte parser" where
  "nextWord stream =
     (let minor = take 2 stream in
      rbind (substr_from stream 2) (\<lambda>stream1.
      (let major = take 2 stream1 in
      rbind (substr_from stream1 2) (\<lambda>stream2.
      rbind (stoul16 (major @ minor)) (\<lambda>v. Inr (word_of_int v, stream2))))))"

text \<open>The \<^verbatim>\<open>while (len > 0)\<close> loop; a negative length reads nothing.\<close>

fun extractString_loop :: "nat \<Rightarrow> string \<Rightarrow> string parser" where
  "extractString_loop 0 s stream = Inr (s, stream)"
| "extractString_loop (Suc len) s stream =
     rbind (nextByte stream) (\<lambda>(b, stream'). extractString_loop len (s @ [char_of (uint b)]) stream')"

definition extractString :: "int \<Rightarrow> string parser" where
  "extractString len = extractString_loop (nat len) []"

text \<open>The four-byte mode accumulates in a \<^verbatim>\<open>size_t\<close>.\<close>

fun decode_four :: "nat \<Rightarrow> 64 word \<Rightarrow> 64 word \<Rightarrow> 64 word parser" where
  "decode_four 0 number multiplier stream = Inr (number, stream)"
| "decode_four (Suc i) number multiplier stream =
     rbind (nextByte stream) (\<lambda>(b, stream').
       decode_four i (number + ucast b * multiplier) (push_bit 8 multiplier) stream')"

text \<open>
  The big-integer mode accumulates in \<^verbatim>\<open>CompactInteger\<close>, a macro for the signed type
  \<^verbatim>\<open>long\<close>: the sum and both products may overflow.
\<close>

fun decode_big :: "nat \<Rightarrow> int \<Rightarrow> int \<Rightarrow> int parser" where
  "decode_big 0 value multiplier stream = Inr (value, stream)"
| "decode_big (Suc i) value multiplier stream =
     rbind (nextByte stream) (\<lambda>(b, stream').
     rbind (checked64 (uint b * multiplier)) (\<lambda>p.
     rbind (checked64 (value + p)) (\<lambda>value'.
     rbind (checked64 (multiplier * 256)) (\<lambda>multiplier'.
       decode_big i value' multiplier' stream'))))"

definition decodeCompactInteger :: "int parser" where
  "decodeCompactInteger stream =
     rbind (nextByte stream) (\<lambda>(first_byte, stream1).
     (let flag = first_byte AND 0b00000011 in
      if flag = 0b00 then
        Inr (sint (ucast (drop_bit 2 first_byte) :: 64 word), stream1)
      else if flag = 0b01 then
        rbind (nextByte stream1) (\<lambda>(second_byte, stream2).
          Inr (sint (drop_bit 2 (ucast (first_byte AND 0b11111100) + ucast second_byte * 256 :: 64 word)),
               stream2))
      else if flag = 0b10 then
        rbind (decode_four 3 (ucast first_byte) 256 stream1) (\<lambda>(number, stream2).
          Inr (sint (drop_bit 2 number), stream2))
      else if flag = 0b11 then
        decode_big (unat (drop_bit 2 first_byte) + 4) 0 1 stream1
      else Inl (Throw (CompactIntegerException ''CompactInteger decode error: unknown flag''))))"

section \<open>Writing\<close>

record CompactIntegerLEBytes =
  ci_length :: int
  ci_bytes :: "byte list"   \<comment> \<open>\<^verbatim>\<open>uint8_t bytes[8]\<close>\<close>

type_synonym uint128 = "128 word"

text \<open>The loop of the four-byte mode, \<^verbatim>\<open>for (int i = 1; i < 4; ++i)\<close>.\<close>

fun encode_four :: "nat \<Rightarrow> nat \<Rightarrow> uint128 \<Rightarrow> byte list \<Rightarrow> byte list" where
  "encode_four 0 i n bytes = bytes"
| "encode_four (Suc k) i n bytes =
     encode_four k (i + 1) (drop_bit 8 n) (bytes[i := ucast (n AND 0xFF)])"

text \<open>The \<^verbatim>\<open>while (n)\<close> loop of the big-integer mode; the array has eight elements.\<close>

function encode_big :: "nat \<Rightarrow> uint128 \<Rightarrow> byte list \<Rightarrow> (nat \<times> byte list) result" where
  "encode_big byteNum n bytes =
     (if n = 0 then Inr (byteNum, bytes)
      else if byteNum < 8
      then encode_big (byteNum + 1) (drop_bit 8 n) (bytes[byteNum := ucast (n AND 0xFF)])
      else Inl (Undefined OutOfBounds))"
  by pat_completeness auto
termination
  by (relation "measure (\<lambda>(byteNum, n, bytes). 8 - byteNum)") auto

declare encode_big.simps [simp del]

definition encodeCompactInteger :: "uint128 \<Rightarrow> CompactIntegerLEBytes result" where
  "encodeCompactInteger n =
     (let b = replicate 8 0 in
      if n \<le> 63 then
        Inr \<lparr>ci_length = 1, ci_bytes = b[0 := ucast (push_bit 2 n)]\<rparr>
      else if n \<le> 0x3FFF then
        Inr \<lparr>ci_length = 2,
             ci_bytes = b[0 := ucast (push_bit 2 (n AND 0x3F) OR 0x01),
                          1 := ucast (drop_bit 6 (n AND 0xFC0))]\<rparr>
      else if n \<le> 0x3FFFFFFF then
        Inr \<lparr>ci_length = 4,
             ci_bytes = encode_four 3 1 (drop_bit 6 n)
                          (b[0 := ucast (push_bit 2 (n AND 0x3F) OR 0x02)])\<rparr>
      else
        rbind (encode_big 1 n b) (\<lambda>(byteNum, b').
          Inr \<lparr>ci_length = int byteNum,
               ci_bytes = b'[0 := word_of_int (push_bit 2 (int byteNum - 5) OR 0x03)]\<rparr>))"

text \<open>
  \<^verbatim>\<open>writeCompactToBuf(ci, buf + off)\<close> into an array: the written length and the new
  contents of the array.
\<close>

fun write_loop :: "nat \<Rightarrow> nat \<Rightarrow> byte list \<Rightarrow> nat \<Rightarrow> byte list \<Rightarrow> byte list result" where
  "write_loop 0 i bytes off buf = Inr buf"
| "write_loop (Suc k) i bytes off buf =
     (if i < length bytes \<and> off + i < length buf
      then write_loop k (i + 1) bytes off (buf[off + i := bytes ! i])
      else Inl (Undefined OutOfBounds))"

definition writeCompactToBuf ::
  "CompactIntegerLEBytes \<Rightarrow> byte list \<Rightarrow> nat \<Rightarrow> (int \<times> byte list) result" where
  "writeCompactToBuf ci buf off =
     rbind (write_loop (nat (ci_length ci)) 0 (ci_bytes ci) off buf) (\<lambda>buf'.
       Inr (ci_length ci, buf'))"

section \<open>The wire format\<close>

text \<open>
  A compact integer on the wire: the two low bits of the first byte give the mode, the
  other bits (little endian) the number, or in the last mode the number of bytes less four.
\<close>

fun le_bytes :: "nat \<Rightarrow> int \<Rightarrow> byte list" where
  "le_bytes 0 n = []"
| "le_bytes (Suc k) n = word_of_int n # le_bytes k (n div 256)"

function byte_len :: "int \<Rightarrow> nat" where
  "byte_len n = (if n \<le> 0 then 0 else Suc (byte_len (n div 256)))"
  by pat_completeness auto
termination by (relation "measure nat") auto
declare byte_len.simps [simp del]

definition compact_spec :: "int \<Rightarrow> byte list" where
  "compact_spec n =
     (if n < 2 ^ 6 then le_bytes 1 (4 * n)
      else if n < 2 ^ 14 then le_bytes 2 (4 * n + 1)
      else if n < 2 ^ 30 then le_bytes 4 (4 * n + 2)
      else word_of_int (4 * (int (byte_len n) - 4) + 3) # le_bytes (byte_len n) n)"

text \<open>The bytes of an encoded number that count.\<close>

definition emitted :: "CompactIntegerLEBytes \<Rightarrow> byte list" where
  "emitted ci = take (nat (ci_length ci)) (ci_bytes ci)"

section \<open>Bytes as numbers\<close>

lemma uint_and_3: "uint ((b :: byte) AND 3) = uint b mod 4"
  using uint_and_mask [of b 2] by (simp add: mask_eq_exp_minus_1)

lemma uint_and_252: "uint ((b :: byte) AND 252) = uint b div 4 * 4"
proof -
  have 1: "(252::byte) = NOT 3" by simp
  have 2: "b AND NOT 3 = b - (b AND 3)"
    by (subst disjunctive_diff_eq_and_not) (auto simp: bit_eq_iff bit_simps)
  have "uint (b AND 3) \<le> uint b" by (simp add: uint_and_3 zmod_le_nonneg_dividend)
  then have "uint (b - (b AND 3)) = uint b - uint (b AND 3)"
    by (simp add: uint_minus_simple_alt [THEN iffD1] word_le_def)
  then show ?thesis unfolding 1 2 by (simp add: uint_and_3 minus_mod_eq_div_mult)
qed

lemma sint64_of_nonneg: "0 \<le> x \<Longrightarrow> x < 2 ^ 63 \<Longrightarrow> sint (word_of_int x :: 64 word) = x"
  using to_int64_id [of x] by (simp add: to_int64_def in_int64_def)

lemma drop_bit64: "0 \<le> x \<Longrightarrow> x < 2 ^ 64 \<Longrightarrow> drop_bit 2 (word_of_int x :: 64 word) = word_of_int (x div 4)"
  by (rule word_uint_eqI) (simp add: uint_drop_bit uint_word_of_int)

lemma uint_byte_of_int: "uint (word_of_int k :: byte) = k mod 256"
  by (simp add: uint_word_of_int)

lemma flag_iff: "((b :: byte) AND 3 = word_of_int k) \<longleftrightarrow> uint b mod 4 = k mod 256"
  by (simp add: word_uint_eq_iff uint_and_3 uint_word_of_int)

lemmas flags = flag_iff [of _ 0, simplified] flag_iff [of _ 1, simplified] flag_iff [of _ 2, simplified] flag_iff [of _ 3, simplified]

lemma uint_ucast_byte: "uint (ucast (w :: uint128) :: byte) = uint w mod 256"
  by (simp add: unsigned_ucast_eq take_bit_eq_mod)

lemma ucast_byte_of_int: "(ucast (word_of_int x :: uint128) :: byte) = word_of_int x"
proof (rule word_uint_eqI)
  have "x mod 2 ^ 128 mod 256 = x mod 256" by (rule mod_mod_cancel) simp
  then show "uint (ucast (word_of_int x :: uint128) :: byte) = uint (word_of_int x :: byte)"
    by (simp add: uint_ucast_byte uint_word_of_int)
qed

lemma ucast_and_255: "(ucast (n AND 255 :: uint128) :: byte) = word_of_int (uint n)"
proof (rule word_uint_eqI)
  have "uint (n AND 255) = uint n mod 256" using uint_and_mask [of n 8] by (simp add: mask_eq_exp_minus_1)
  then show "uint (ucast (n AND 255) :: byte) = uint (word_of_int (uint n) :: byte)"
    by (simp only: uint_ucast_byte uint_byte_of_int) simp
qed

lemma ucast_push_or:
  assumes "k < 4" "0 \<le> k"
  shows "(ucast (push_bit 2 (n AND 63 :: uint128) OR word_of_int k) :: byte) = word_of_int (4 * (uint n mod 64) + k)"
proof -
  have n: "n AND 63 = word_of_int (uint n mod 64)"
    using uint_and_mask [of n 6] by (intro word_uint_eqI) (simp add: mask_eq_exp_minus_1 uint_word_of_int mod_pos_pos_trivial)
  have "k \<in> {0, 1, 2, 3}" using assms by auto
  then have k: "(word_of_int k :: uint128) = take_bit 2 (word_of_int k)" by auto
  have "push_bit 2 (n AND 63) AND take_bit 2 (word_of_int k :: uint128) = 0"
    by (rule bit_word_eqI) (simp only: bit_and_iff bit_push_bit_iff bit_take_bit_iff bit_0_eq; simp)
  then have "push_bit 2 (n AND 63) OR word_of_int k = push_bit 2 (n AND 63) + word_of_int k"
    using k by (intro disjunctive_add_eq_or [symmetric]) simp
  also have "\<dots> = word_of_int (4 * (uint n mod 64) + k)" unfolding n by (simp add: push_bit_eq_mult)
  finally show ?thesis by (simp only: ucast_byte_of_int)
qed

lemma div_4_64: "0 \<le> k \<Longrightarrow> k < 4 \<Longrightarrow> (4 * m + k) div 256 = m div (64 :: int)"
  using zdiv_zmult2_eq [of 64 "4 * m + k" 4] by simp

lemma word_of_int_mod_64: "(word_of_int (4 * (m mod 64) + k) :: byte) = word_of_int (4 * m + k)"
proof (rule word_uint_eqI)
  have "4 * m + k = 4 * (m mod 64) + k + 256 * (m div 64)" using div_mult_mod_eq [of m 64] by linarith
  then show "uint (word_of_int (4 * (m mod 64) + k) :: byte) = uint (word_of_int (4 * m + k) :: byte)"
    by (simp only: uint_byte_of_int mod_mult_self2)
qed

lemma uint_drop_bit_6: "uint (drop_bit 6 n) = (4 * uint n + 2) div 256"
  by (simp add: uint_drop_bit div_4_64)

section \<open>Lengths of the encodings\<close>

lemma mod_256_Suc: "(n :: int) mod 256 ^ Suc k = n mod 256 + 256 * (n div 256 mod 256 ^ k)"
  by (simp add: zmod_zmult2_eq add.commute)

lemma length_le_bytes [simp]: "length (le_bytes k n) = k"
  by (induction k arbitrary: n) simp_all

lemma byte_len_bounds: "0 \<le> n \<Longrightarrow> n < 256 ^ byte_len n"
proof (induction n rule: byte_len.induct)
  case (1 n)
  show ?case
  proof (cases "n \<le> 0")
    case False
    with 1 have "n div 256 < 256 ^ byte_len (n div 256)" by auto
    with False show ?thesis by (subst byte_len.simps) (simp; linarith)
  qed (use 1 in \<open>simp add: byte_len.simps\<close>)
qed

lemma byte_len_le: "n < 256 ^ k \<Longrightarrow> byte_len n \<le> k"
proof (induction k arbitrary: n)
  case (Suc k)
  then have "n div 256 < 256 ^ k" by (simp add: div_less_iff_less_mult mult.commute)
  with Suc.IH show ?case by (subst byte_len.simps) simp
qed (simp add: byte_len.simps)

lemma byte_len_ge: "256 ^ k \<le> n \<Longrightarrow> k < byte_len n"
proof (induction k arbitrary: n)
  case (Suc k)
  then have "256 ^ k \<le> n div 256" using zdiv_mono1 [of "256 * 256 ^ k" n 256] by simp
  moreover have "0 < n" using Suc.prems zero_less_power [of "256::int" "Suc k"] by linarith
  ultimately show ?case using Suc.IH by (subst byte_len.simps) simp
qed (simp add: byte_len.simps)

lemma compact_spec_big:
  assumes "2 ^ 30 \<le> n" "n < 2 ^ 56"
  shows "\<exists>k \<in> {4, 5, 6, 7}. byte_len n = k \<and> compact_spec n = word_of_int (4 * (int k - 4) + 3) # le_bytes k n"
proof -
  have "4 \<le> byte_len n" "byte_len n \<le> 7" using byte_len_ge [of 3 n] byte_len_le [of n 7] assms by simp_all
  then have "byte_len n \<in> {4, 5, 6, 7}" by auto
  moreover have "compact_spec n = word_of_int (4 * (int (byte_len n) - 4) + 3) # le_bytes (byte_len n) n"
    using assms by (simp add: compact_spec_def)
  ultimately show ?thesis by blast
qed

section \<open>The decoder on the wire format\<close>

lemma nextByte_hex [codec_simps]: "nextByte (hex_byte u b @ rest) = Inr (b, rest)"
  by (simp add: nextByte_def substr_from_def stoul16_hex_byte)

lemma decode_four_le_bytes:
  "decode_four k (word_of_int a) (word_of_int m) (hex_bytes u (le_bytes k n) @ rest) =
     Inr (word_of_int (a + m * (n mod 256 ^ k)), rest)"
proof (induction k arbitrary: a m n)
  case (Suc k)
  have e: "a + m * (n mod 256 ^ Suc k) = a + m * (n mod 256) + m * 256 * (n div 256 mod 256 ^ k)"
    by (simp only: mod_256_Suc) (simp add: algebra_simps)
  have b: "(ucast (word_of_int n :: byte) :: 64 word) = word_of_int (n mod 256)"
    by (simp add: ucast_eq uint_word_of_int)
  have s: "word_of_int a + word_of_int (n mod 256) * word_of_int m
      = (word_of_int (a + m * (n mod 256)) :: 64 word)"
    by (simp add: mult.commute)
  have p: "push_bit 8 (word_of_int m :: 64 word) = word_of_int (m * 256)"
    by (simp add: push_bit_eq_mult)
  show ?case
    using Suc [of "a + m * (n mod 256)" "m * 256" "n div 256"]
    by (simp add: nextByte_hex b s p e del: of_int_add of_int_mult power_Suc)
qed simp

lemma checked64_nonneg: "0 \<le> x \<Longrightarrow> x < 2 ^ 63 \<Longrightarrow> checked64 x = Inr x"
  by (simp add: checked64_def in_int64_def)

lemma decode_big_le_bytes:
  assumes "0 \<le> a" "0 < m" "a + m * (n mod 256 ^ k) < 2 ^ 63" "m * 256 ^ k < 2 ^ 63"
  shows "decode_big k a m (hex_bytes u (le_bytes k n) @ rest) = Inr (a + m * (n mod 256 ^ k), rest)"
  using assms
proof (induction k arbitrary: a m n)
  case (Suc k)
  have e: "a + m * (n mod 256 ^ Suc k) = (a + m * (n mod 256)) + (m * 256) * (n div 256 mod 256 ^ k)"
    by (simp only: mod_256_Suc) (simp add: algebra_simps)
  have pos: "0 \<le> (m * 256) * (n div 256 mod 256 ^ k)" "0 \<le> m * (n mod 256)" using Suc.prems by simp_all
  have "m * 256 * 1 \<le> m * 256 * 256 ^ k" using Suc.prems by (intro mult_left_mono) auto
  then have m: "m * 256 < 2 ^ 63" using Suc.prems(4) by (simp add: mult.assoc)
  have u: "uint (word_of_int n :: byte) = n mod 256" by (simp add: uint_word_of_int)
  have b: "m * (n mod 256) < 2 ^ 63" "a + m * (n mod 256) < 2 ^ 63"
    using e pos Suc.prems(1,3) by linarith+
  have c: "checked64 ((n mod 256) * m) = Inr (m * (n mod 256))"
     "checked64 (a + m * (n mod 256)) = Inr (a + m * (n mod 256))" "checked64 (m * 256) = Inr (m * 256)"
    using pos m b Suc.prems(1,2) by (simp_all only: checked64_nonneg mult.commute [of "n mod 256"])
  show ?case using Suc.IH [of "a + m * (n mod 256)" "m * 256" "n div 256"] pos Suc.prems
    by (simp add: nextByte_hex u c e del: power_Suc) (simp add: algebra_simps)
qed simp

lemma decode_big_overflow:
  assumes "0 \<le> a" "0 < m" "m < 2 ^ 63" "2 ^ 63 \<le> m * 256 ^ k"
  shows "decode_big k a m (hex_bytes u (le_bytes k n) @ rest) = Inl (Undefined SignedOverflow)"
  using assms
proof (induction k arbitrary: a m n)
  case (Suc k)
  define b where "b = uint (word_of_int n :: byte)"
  have b: "0 \<le> b" by (simp add: b_def)
  show ?case
  proof (cases "in_int64 (b * m) \<and> in_int64 (a + b * m) \<and> in_int64 (m * 256)")
    case True
    then have "m * 256 < 2 ^ 63" by (simp add: in_int64_def)
    moreover have "2 ^ 63 \<le> m * 256 * 256 ^ k" using Suc.prems(4) by (simp add: mult.assoc)
    ultimately have "decode_big k (a + b * m) (m * 256) (hex_bytes u (le_bytes k (n div 256)) @ rest)
        = Inl (Undefined SignedOverflow)"
      using Suc.prems b by (intro Suc.IH) simp_all
    with True show ?thesis by (simp add: nextByte_hex checked64_def flip: b_def)
  next
    case False
    then show ?thesis by (auto simp: nextByte_hex checked64_def simp flip: b_def)
  qed
qed simp

lemma decode_mode1: assumes "0 \<le> n" "n < 2 ^ 6"
  shows "decodeCompactInteger (hex_bytes u (le_bytes 1 (4 * n)) @ rest) = Inr (n, rest)"
proof -
  define b where "b = (word_of_int (4 * n) :: byte)"
  have u: "uint b = 4 * n" unfolding b_def uint_byte_of_int using assms by simp
  have "sint (ucast (drop_bit 2 b) :: 64 word) = n"
    using assms by (simp add: ucast_eq uint_drop_bit u sint64_of_nonneg)
  moreover have "le_bytes 1 (4 * n) = [b]" by (simp add: numeral_eq_Suc b_def)
  ultimately show ?thesis using u
    by (simp add: decodeCompactInteger_def nextByte_hex flags Let_def)
qed

lemma decode_mode2: assumes "0 \<le> n" "n < 2 ^ 14"
  shows "decodeCompactInteger (hex_bytes u (le_bytes 2 (4 * n + 1)) @ rest) = Inr (n, rest)"
proof -
  define b c where "b = (word_of_int (4 * n + 1) :: byte)" and "c = (word_of_int ((4 * n + 1) div 256) :: byte)"
  have u: "uint b = (4 * n + 1) mod 256" "uint c = (4 * n + 1) div 256"
    unfolding b_def c_def uint_byte_of_int using assms by simp_all
  have f: "uint b mod 4 = 1" unfolding u by (simp add: mod_mod_cancel)
  have "uint (b AND 252) = uint b - 1"
    using f minus_mod_eq_div_mult [of "uint b" 4] by (simp add: uint_and_252)
  then have e: "uint (b AND 252) + uint c * 256 = 4 * n"
    using u div_mult_mod_eq [of "4 * n + 1" 256] by linarith
  have "ucast (b AND 252) + ucast c * 256 = (word_of_int (4 * n) :: 64 word)"
    unfolding e [symmetric] by (simp only: ucast_eq of_int_add of_int_mult of_int_numeral)
  then have "sint (drop_bit 2 (ucast (b AND 252) + ucast c * 256 :: 64 word)) = n"
    using assms by (simp only:) (subst drop_bit64, simp_all add: sint64_of_nonneg)
  moreover have "le_bytes 2 (4 * n + 1) = [b, c]" by (simp add: numeral_eq_Suc b_def c_def)
  ultimately show ?thesis using f
    by (simp add: decodeCompactInteger_def nextByte_hex flags Let_def)
qed

lemma decode_mode4: assumes "0 \<le> n" "n < 2 ^ 30"
  shows "decodeCompactInteger (hex_bytes u (le_bytes 4 (4 * n + 2)) @ rest) = Inr (n, rest)"
proof -
  define b where "b = (word_of_int (4 * n + 2) :: byte)"
  have u: "uint b = (4 * n + 2) mod 256"
    unfolding b_def uint_byte_of_int ..
  have f: "uint b mod 4 = 2" unfolding u by (simp add: mod_mod_cancel)
  have l: "le_bytes 4 (4 * n + 2) = b # le_bytes 3 ((4 * n + 2) div 256)" by (simp add: numeral_eq_Suc b_def)
  have "decode_four 3 (ucast b) 256 (hex_bytes u (le_bytes 3 ((4 * n + 2) div 256)) @ rest)
     = Inr (word_of_int (uint b + 256 * ((4 * n + 2) div 256 mod 256 ^ 3)), rest)"
    using decode_four_le_bytes [of 3 "uint b" 256 u "(4 * n + 2) div 256" rest] by (simp only: ucast_eq of_int_numeral)
  also have "(4 * n + 2) div 256 mod 256 ^ 3 = (4 * n + 2) div 256"
    using assms by (intro mod_pos_pos_trivial) (simp_all add: div_less_iff_less_mult)
  also have "uint b + 256 * ((4 * n + 2) div 256) = 4 * n + 2"
    using u div_mult_mod_eq [of "4 * n + 2" 256] by linarith
  finally have d: "decode_four 3 (ucast b) 256 (hex_bytes u (le_bytes 3 ((4 * n + 2) div 256)) @ rest)
     = Inr (word_of_int (4 * n + 2), rest)" .
  have "sint (drop_bit 2 (word_of_int (4 * n + 2) :: 64 word)) = n"
    using assms by (subst drop_bit64) (simp_all add: sint64_of_nonneg)
  then show ?thesis using f d
    by (simp add: decodeCompactInteger_def nextByte_hex flags Let_def l del: of_int_add of_int_mult)
qed

lemma decode_mode_big: assumes "2 ^ 30 \<le> n" "n < 2 ^ 56"
  shows "decodeCompactInteger (hex_bytes u (compact_spec n) @ rest) = Inr (n, rest)"
proof -
  define k where "k = byte_len n"
  have k: "4 \<le> k" "k \<le> 7" using byte_len_ge [of 3 n] byte_len_le [of n 7] assms by (simp_all add: k_def)
  have n: "n < 256 ^ k" using byte_len_bounds [of n] assms by (simp add: k_def)
  have "256 ^ k \<le> (256 :: int) ^ 7" using k by (intro power_increasing) auto
  then have p: "(256 :: int) ^ k < 2 ^ 63" by simp
  define b where "b = (word_of_int (4 * (int k - 4) + 3) :: byte)"
  have u: "uint b = 4 * (int k - 4) + 3" unfolding b_def uint_byte_of_int using k by simp
  have f: "uint b mod 4 = 3" unfolding u by presburger
  have "uint (drop_bit 2 b) = int k - 4" unfolding uint_drop_bit u using k by simp
  then have c: "unat (drop_bit 2 b) + 4 = k" using k by (simp add: unat_eq_nat_uint)
  have "decode_big k 0 1 (hex_bytes u (le_bytes k n) @ rest) = Inr (n, rest)"
    using decode_big_le_bytes [of 0 1 n k u rest] n p assms by simp
  moreover have "compact_spec n = b # le_bytes k n"
    using assms unfolding b_def k_def compact_spec_def by simp
  ultimately show ?thesis using f c
    by (simp add: decodeCompactInteger_def nextByte_hex flags Let_def)
qed

lemma decode_compact:
  assumes "0 \<le> n" "n < 2 ^ 56"
  shows "decodeCompactInteger (hex_bytes u (compact_spec n) @ rest) = Inr (n, rest)"
proof -
  consider "n < 2 ^ 6" | "2 ^ 6 \<le> n" "n < 2 ^ 14" | "2 ^ 14 \<le> n" "n < 2 ^ 30" | "2 ^ 30 \<le> n"
    by linarith
  then show ?thesis
  proof cases
    case 1
    then show ?thesis using decode_mode1 [of n] assms by (simp add: compact_spec_def)
  next
    case 2
    then show ?thesis using decode_mode2 [of n] assms by (simp add: compact_spec_def)
  next
    case 3
    then show ?thesis using decode_mode4 [of n] assms by (simp add: compact_spec_def)
  next
    case 4
    then show ?thesis using decode_mode_big [of n] assms by simp
  qed
qed

lemma decode_compact_overflow:
  assumes "2 ^ 56 \<le> n" "n < 2 ^ 536"
  shows "decodeCompactInteger (hex_bytes u (compact_spec n) @ rest) = Inl (Undefined SignedOverflow)"
proof -
  define k where "k = byte_len n"
  have k: "8 \<le> k" "k \<le> 67" using byte_len_ge [of 7 n] byte_len_le [of n 67] assms by (simp_all add: k_def)
  define b where "b = (word_of_int (4 * (int k - 4) + 3) :: byte)"
  have u: "uint b = 4 * (int k - 4) + 3" unfolding b_def uint_byte_of_int using k by simp
  have f: "uint b mod 4 = 3" unfolding u by presburger
  have "uint (drop_bit 2 b) = int k - 4" unfolding uint_drop_bit u using k by simp
  then have c: "unat (drop_bit 2 b) + 4 = k" using k by (simp add: unat_eq_nat_uint)
  have "(256 :: int) ^ 8 \<le> 256 ^ k" using k by (intro power_increasing) auto
  then have "decode_big k 0 1 (hex_bytes u (le_bytes k n) @ rest) = Inl (Undefined SignedOverflow)"
    by (intro decode_big_overflow) simp_all
  moreover have "compact_spec n = b # le_bytes k n"
    using assms unfolding b_def k_def compact_spec_def by simp
  ultimately show ?thesis using f c
    by (simp add: decodeCompactInteger_def nextByte_hex flags Let_def)
qed

lemma stoul16_no_compact: "stoul16 s \<noteq> Inl (Throw (CompactIntegerException e))"
  by (simp add: stoul16_def Let_def split: prod.splits)

lemma nextByte_no_compact: "nextByte s \<noteq> Inl (Throw (CompactIntegerException e))"
  by (auto simp: nextByte_def Let_def rbind_Inl_iff substr_from_def stoul16_no_compact split: if_splits)

lemma decode_four_no_compact: "decode_four k a m s \<noteq> Inl (Throw (CompactIntegerException e))"
  by (induction k arbitrary: a m s) (auto simp: rbind_Inl_iff nextByte_no_compact)

lemma decode_big_no_compact: "decode_big k a m s \<noteq> Inl (Throw (CompactIntegerException e))"
  by (induction k arbitrary: a m s) (auto simp: rbind_Inl_iff nextByte_no_compact checked64_def split: if_splits)

lemma decode_no_compact: "decodeCompactInteger s \<noteq> Inl (Throw (CompactIntegerException e))"
proof -
  have "uint (b AND 3 :: byte) \<in> {0, 1, 2, 3}" for b
    using pos_mod_bound [of 4 "uint b"] pos_mod_sign [of 4 "uint b"] unfolding uint_and_3 by auto
  then have "b AND 3 = 0 \<or> b AND 3 = 1 \<or> b AND 3 = 2 \<or> b AND 3 = (3 :: byte)" for b
    by (auto simp: word_uint_eq_iff)
  then show ?thesis
    by (auto simp: decodeCompactInteger_def Let_def rbind_Inl_iff nextByte_no_compact decode_four_no_compact
        decode_big_no_compact split: if_splits)
qed

lemma extractString_loop_hex:
  "extractString_loop (length bs) s (hex_bytes u bs @ rest) = Inr (s @ map (\<lambda>b. char_of (uint b)) bs, rest)"
  by (induction bs arbitrary: s) (simp_all add: nextByte_hex)

lemma hex_number_append: "hex_number (a @ hex_byte u b) = 256 * hex_number a + uint b"
  by (simp add: hex_number_def hex_byte_def)

lemma nextWord_reads: "nextWord (hex_bytes u [lo, hi] @ rest) = Inr (lo, rest)"
proof -
  have "stoul16 (hex_byte u hi @ hex_byte u lo) = Inr (256 * uint hi + uint lo)"
  proof -
    have sp: "skip_sign (dropWhile is_space (hex_byte u hi @ hex_byte u lo)) = (False, hex_byte u hi @ hex_byte u lo)"
      "skip_0x (hex_byte u hi @ hex_byte u lo) = hex_byte u hi @ hex_byte u lo"
      "takeWhile is_hex (hex_byte u hi @ hex_byte u lo) = hex_byte u hi @ hex_byte u lo"
      by (simp_all add: hex_byte_def skip_sign_def skip_0x_def)
    have "hex_number (hex_byte u hi @ hex_byte u lo) = 256 * uint hi + uint lo"
      by (simp add: hex_number_append hex_number_hex_byte)
    moreover have "\<not> 2 ^ 64 \<le> 256 * uint hi + uint lo"
      using uint_byte_less [of hi] uint_byte_less [of lo] by simp
    ultimately show ?thesis unfolding stoul16_def sp Let_def prod.case
      by (simp add: hex_byte_def)
  qed
  moreover have "word_of_int (256 * uint hi + uint lo) = lo"
    by (rule word_uint_eqI) (unfold uint_byte_of_int, use uint_byte_less [of lo] in simp)
  ultimately show ?thesis
    by (simp add: nextWord_def substr_from_def Let_def)
qed

section \<open>The encoder against the wire format\<close>

lemma encode_big_le_bytes:
  assumes "length bytes = 8" "j + byte_len (uint n) \<le> 8"
  shows "encode_big j n bytes = Inr (j + byte_len (uint n),
     take j bytes @ le_bytes (byte_len (uint n)) (uint n) @ drop (j + byte_len (uint n)) bytes)"
  using assms
proof (induction j n bytes rule: encode_big.induct)
  case (1 j n bytes)
  show ?case
  proof (cases "n = 0")
    case True
    then show ?thesis by (simp add: encode_big.simps byte_len.simps)
  next
    case False
    then have "0 < uint n" by (simp add: uint_0_iff order_less_le)
    then have bl: "byte_len (uint n) = Suc (byte_len (uint (drop_bit 8 n)))"
      by (subst byte_len.simps) (simp add: uint_drop_bit)
    with 1 False have "encode_big (j + 1) (drop_bit 8 n) (bytes[j := ucast (n AND 255)]) =
      Inr (j + 1 + byte_len (uint (drop_bit 8 n)),
       take (j + 1) (bytes[j := ucast (n AND 255)]) @ le_bytes (byte_len (uint (drop_bit 8 n))) (uint (drop_bit 8 n))
        @ drop (j + 1 + byte_len (uint (drop_bit 8 n))) (bytes[j := ucast (n AND 255)]))" by simp
    with False bl 1 show ?thesis
      by (subst encode_big.simps) (simp add: ucast_and_255 uint_drop_bit take_Suc_conv_app_nth)
  qed
qed

lemma encode_big_overflow:
  "j \<le> 8 \<Longrightarrow> 8 < j + byte_len (uint n) \<Longrightarrow> encode_big j n bytes = Inl (Undefined OutOfBounds)"
proof (induction j n bytes rule: encode_big.induct)
  case (1 j n bytes)
  have n: "n \<noteq> 0" using 1 by (auto simp: byte_len.simps)
  then have "0 < uint n" by (simp add: uint_0_iff order_less_le)
  then have bl: "byte_len (uint n) = Suc (byte_len (uint (drop_bit 8 n)))"
    by (subst byte_len.simps) (simp add: uint_drop_bit)
  with 1 n show ?case by (subst encode_big.simps) auto
qed

lemma encode_four_le_bytes:
  "i + k \<le> length bytes \<Longrightarrow>
    encode_four k i n bytes = take i bytes @ le_bytes k (uint n) @ drop (i + k) bytes"
proof (induction k arbitrary: i n bytes)
  case (Suc k)
  then show ?case
    by (simp add: ucast_and_255 uint_drop_bit take_Suc_conv_app_nth del: word_of_int_uint)
qed simp

lemma replicate_8: "replicate 8 x = x # replicate 7 x"
  by (simp add: eval_nat_numeral)

lemma encode_mode1:
  assumes "uint n < 2 ^ 6"
  shows "encodeCompactInteger n = Inr \<lparr>ci_length = 1, ci_bytes = le_bytes 1 (4 * uint n) @ replicate 7 0\<rparr>"
proof -
  have "n \<le> 63" using assms by (simp add: word_le_def)
  moreover have "push_bit 2 n = word_of_int (4 * uint n)" by (simp add: push_bit_eq_mult)
  then have "(ucast (push_bit 2 n) :: byte) = word_of_int (4 * uint n)" by (simp only: ucast_byte_of_int)
  ultimately show ?thesis unfolding encodeCompactInteger_def by (simp add: numeral_eq_Suc)
qed

lemma encode_mode2:
  assumes "2 ^ 6 \<le> uint n" "uint n < 2 ^ 14"
  shows "encodeCompactInteger n =
    Inr \<lparr>ci_length = 2, ci_bytes = le_bytes 2 (4 * (uint n mod 2 ^ 12) + 1) @ replicate 6 0\<rparr>"
proof -
  have c: "\<not> n \<le> 63" "n \<le> 16383" using assms by (simp_all add: word_le_def)
  have b0: "(ucast (push_bit 2 (n AND 63) OR 1) :: byte) = word_of_int (4 * (uint n mod 64) + 1)"
    using ucast_push_or [of 1 n] by simp
  have "drop_bit 6 (n AND 4032) = drop_bit 6 n AND mask 6" by (simp add: drop_bit_and mask_eq_exp_minus_1)
  then have "uint (drop_bit 6 (n AND 4032)) = uint n div 64 mod 64" by (simp add: uint_and_mask uint_drop_bit)
  then have b1: "(ucast (drop_bit 6 (n AND 4032)) :: byte) = word_of_int (uint n div 64 mod 64)"
    by (intro word_uint_eqI) (simp add: uint_ucast_byte uint_byte_of_int)
  define m where "m = uint n mod 2 ^ 12"
  have e: "m mod 64 = uint n mod 64" "m div 64 = uint n div 64 mod 64"
    using zmod_zmult2_eq [of 64 "uint n" 64] unfolding m_def by (simp_all add: mod_mod_cancel)
  have "(word_of_int (4 * m + 1) :: byte) = word_of_int (4 * (uint n mod 64) + 1)"
    unfolding e(1) [symmetric] word_of_int_mod_64 ..
  moreover have "(4 * m + 1) div 256 = uint n div 64 mod 64"
    unfolding e(2) [symmetric] using div_4_64 [of 1 m] by simp
  ultimately show ?thesis
    using c b0 b1 unfolding encodeCompactInteger_def m_def [symmetric] Let_def
    by (simp add: eval_nat_numeral del: of_int_add of_int_mult)
qed

lemma encode_mode4:
  assumes "2 ^ 14 \<le> uint n" "uint n < 2 ^ 30"
  shows "encodeCompactInteger n =
    Inr \<lparr>ci_length = 4, ci_bytes = le_bytes 4 (4 * uint n + 2) @ replicate 4 0\<rparr>"
proof -
  have c: "\<not> n \<le> 63" "\<not> n \<le> 16383" "n \<le> 1073741823" using assms by (simp_all add: word_le_def)
  define b :: byte where "b = word_of_int (4 * uint n + 2)"
  have b0: "(ucast (push_bit 2 (n AND 63) OR 2) :: byte) = b"
    using ucast_push_or [of 2 n] unfolding word_of_int_mod_64 b_def by simp
  have "encode_four 3 1 (drop_bit 6 n) ((replicate 8 0)[0 := b]) =
    b # le_bytes 3 ((4 * uint n + 2) div 256) @ replicate 4 0"
    by (simp add: encode_four_le_bytes uint_drop_bit_6 replicate_8)
  also have "\<dots> = le_bytes 4 (4 * uint n + 2) @ replicate 4 0"
    by (simp add: eval_nat_numeral b_def)
  finally show ?thesis using c b0 unfolding encodeCompactInteger_def Let_def by simp
qed

lemma encode_mode_big:
  assumes "2 ^ 30 \<le> uint n" "uint n < 2 ^ 56"
  shows "\<exists>pad. encodeCompactInteger n =
    Inr \<lparr>ci_length = int (length (compact_spec (uint n))), ci_bytes = compact_spec (uint n) @ pad\<rparr>"
proof -
  have c: "\<not> n \<le> 63" "\<not> n \<le> 16383" "\<not> n \<le> 1073741823" using assms by (simp_all add: word_le_def)
  obtain k where k: "k \<in> {4, 5, 6, 7}" "byte_len (uint n) = k"
    and s: "compact_spec (uint n) = word_of_int (4 * (int k - 4) + 3) # le_bytes k (uint n)"
    using compact_spec_big [OF assms] by blast
  define pad :: "byte list" where "pad = drop (1 + k) (replicate 8 0)"
  have e: "encode_big 1 n (replicate 8 0) = Inr (1 + k, 0 # le_bytes k (uint n) @ pad)"
    using encode_big_le_bytes [of "replicate 8 0" 1 n] k by (auto simp: pad_def)
  have h: "(word_of_int (push_bit 2 (int (1 + k) - 5) OR 3) :: byte) = word_of_int (4 * (int k - 4) + 3)"
    using k(1) by auto
  have "encodeCompactInteger n = Inr \<lparr>ci_length = int (1 + k),
      ci_bytes = (0 # le_bytes k (uint n) @ pad)[0 := word_of_int (4 * (int k - 4) + 3)]\<rparr>"
    using c unfolding encodeCompactInteger_def Let_def e h [symmetric] by simp
  then show ?thesis unfolding s by auto
qed

lemma encode_overflow:
  assumes "2 ^ 56 \<le> uint n"
  shows "encodeCompactInteger n = Inl (Undefined OutOfBounds)"
proof -
  have c: "\<not> n \<le> 63" "\<not> n \<le> 16383" "\<not> n \<le> 1073741823" using assms by (simp_all add: word_le_def)
  have "7 < byte_len (uint n)" using byte_len_ge [of 7 "uint n"] assms by simp
  then have "encode_big 1 n (replicate 8 0) = Inl (Undefined OutOfBounds)" by (intro encode_big_overflow) simp_all
  with c show ?thesis unfolding encodeCompactInteger_def by simp
qed

lemma encode_compact:
  assumes "uint n < 2 ^ 12 \<or> 2 ^ 14 \<le> uint n" "uint n < 2 ^ 56"
  shows "\<exists>pad. encodeCompactInteger n =
    Inr \<lparr>ci_length = int (length (compact_spec (uint n))), ci_bytes = compact_spec (uint n) @ pad\<rparr>"
proof -
  consider "uint n < 2 ^ 6" | "2 ^ 6 \<le> uint n" "uint n < 2 ^ 12" | "2 ^ 14 \<le> uint n" "uint n < 2 ^ 30" | "2 ^ 30 \<le> uint n"
    using assms by linarith
  then show ?thesis
  proof cases
    case 1
    then show ?thesis using encode_mode1 [of n] by (simp add: compact_spec_def)
  next
    case 2
    then show ?thesis using encode_mode2 [of n] by (simp add: compact_spec_def)
  next
    case 3
    then show ?thesis using encode_mode4 [of n] by (simp add: compact_spec_def)
  next
    case 4
    then show ?thesis using encode_mode_big [of n] assms by simp
  qed
qed

lemma write_loop_spec:
  "i + k \<le> length bytes \<Longrightarrow> off + i + k \<le> length buf \<Longrightarrow>
   write_loop k i bytes off buf = Inr (take (off + i) buf @ take k (drop i bytes) @ drop (off + i + k) buf)"
proof (induction k arbitrary: i buf)
  case (Suc k)
  then have "take (Suc k) (drop i bytes) = bytes ! i # take k (drop (Suc i) bytes)"
    by (simp add: Cons_nth_drop_Suc [symmetric])
  with Suc show ?case by (simp add: take_Suc_conv_app_nth)
qed simp

section \<open>Properties\<close>

text \<open>
  \<^verbatim>\<open>nextWord\<close> reads two bytes in little-endian order but returns \<^verbatim>\<open>uint8_t\<close>:
  whatever the high byte is, the result is the low byte alone, and both bytes are consumed.
\<close>

theorem nextWord_low_byte: "nextWord (hex_bytes u [lo, hi] @ rest) = Inr (lo, rest)"
  by (rule nextWord_reads)

text \<open>
  C11: the decoder on the wire format of any number the format can express (below
  $2^{536}$). Below $2^{56}$ it returns the number and leaves exactly what follows; from
  $2^{56}$ on, with eight or more payload bytes, its \<^verbatim>\<open>long\<close> accumulator overflows.
\<close>

theorem decodeCompactInteger_wire:
  assumes "0 \<le> n" "n < 2 ^ 536"
  shows "decodeCompactInteger (hex_bytes u (compact_spec n) @ rest) =
    (if n < 2 ^ 56 then Inr (n, rest) else Inl (Undefined SignedOverflow))"
  using assms by (simp add: decode_compact decode_compact_overflow)

theorem decodeCompactInteger_wire_witness:
  "decodeCompactInteger (hex_bytes True (compact_spec 1000000) @ ''FF'') = Inr (1000000, ''FF'')"
  using decodeCompactInteger_wire [of 1000000 True "''FF''"] by simp

text \<open>
  C12: encoding a number and decoding the bytes gives the number back below $2^{56}$, but
  for $2^{12} \<le> n < 2^{14}$, where the mask \<^verbatim>\<open>0xFC0\<close> drops the two top bits and
  the result is $n \bmod 2^{12}$.
\<close>

theorem encode_decode:
  assumes "uint n < 2 ^ 56"
  shows "rbind (encodeCompactInteger n) (\<lambda>ci. decodeCompactInteger (hex_bytes u (emitted ci) @ rest)) =
    Inr (if 2 ^ 12 \<le> uint n \<and> uint n < 2 ^ 14 then uint n mod 2 ^ 12 else uint n, rest)"
proof (cases "2 ^ 12 \<le> uint n \<and> uint n < 2 ^ 14")
  case True
  then have "encodeCompactInteger n =
    Inr \<lparr>ci_length = 2, ci_bytes = le_bytes 2 (4 * (uint n mod 2 ^ 12) + 1) @ replicate 6 0\<rparr>"
    by (intro encode_mode2) simp_all
  moreover have "uint n mod 2 ^ 12 < 2 ^ 14"
    using pos_mod_bound [of "2 ^ 12" "uint n"] by simp
  ultimately show ?thesis
    using True decode_mode2 [of "uint n mod 2 ^ 12"] by (simp add: emitted_def)
next
  case False
  then obtain pad where "encodeCompactInteger n =
    Inr \<lparr>ci_length = int (length (compact_spec (uint n))), ci_bytes = compact_spec (uint n) @ pad\<rparr>"
    using encode_compact [of n] assms by auto
  with False assms show ?thesis by (auto simp: emitted_def decode_compact)
qed

theorem encode_decode_witness:
  "rbind (encodeCompactInteger 5000) (\<lambda>ci. decodeCompactInteger (hex_bytes True (emitted ci))) = Inr (904, [])"
  using encode_decode [of 5000 True "[]"] by simp



text \<open>
  From $2^{56}$ on the encoder writes past the eight elements of
  \<^verbatim>\<open>CompactIntegerLEBytes::bytes\<close>.
\<close>

theorem encodeCompactInteger_overflow:
  assumes "2 ^ 56 \<le> uint n"
  shows "encodeCompactInteger n = Inl (Undefined OutOfBounds)"
  using assms by (rule encode_overflow)

theorem encodeCompactInteger_overflow_witness:
  "encodeCompactInteger (2 ^ 60) = Inl (Undefined OutOfBounds)"
  by (rule encodeCompactInteger_overflow) simp

text \<open>
  The decoder's \<^verbatim>\<open>default:\<close> branch is dead: no input makes it throw a
  \<^verbatim>\<open>CompactIntegerException\<close>; a malformed stream fails in \<^verbatim>\<open>substr\<close> or
  \<^verbatim>\<open>stoul\<close>.
\<close>

theorem decodeCompactInteger_default_dead:
  "decodeCompactInteger stream \<noteq> Inl (Throw (CompactIntegerException msg))"
  by (rule decode_no_compact)

end
