(* ===== verification/Codec.thy ===== *)
theory Codec
  imports Scale "HOL-Library.Sublist"
begin

unbundle bit_operations_syntax

text \<open>
  The reading idioms of \<^verbatim>\<open>src/metadatafactory.cpp\<close> and \<^verbatim>\<open>src/structs/metadataV7.cpp\<close> on top of the
  SCALE readers: a length-prefixed string copied to a \<^verbatim>\<open>char[STRING_SIZE]\<close>, raw hex copied to
  one, and a counted loop that fills a fixed-size array. Two contracts come with them: a
  \<open>reader\<close> undoes a wire encoding, and a \<open>safe\<close> reader gives well-formed values and a
  suffix of the stream on every input on which it returns.
\<close>

definition STRING_SIZE :: nat where
  "STRING_SIZE = 256"

definition COLLECTION_SIZE :: nat where
  "COLLECTION_SIZE = 64"

named_theorems safe_intros \<open>introduction rules of the contract of a safe reader\<close>

section \<open>Idioms\<close>

text \<open>
  A length prefix and a string: \<^verbatim>\<open>extractString(str, decodeCompactInteger(str))\<close>. The length
  is converted to \<^verbatim>\<open>int\<close>, at the latest when it is passed to \<^verbatim>\<open>extractString\<close>.
\<close>

definition nextString :: "string parser" where
  "nextString = pbind decodeCompactInteger (\<lambda>len. extractString (to_int32 len))"

text \<open>The same, then \<^verbatim>\<open>strcpy\<close> to a \<^verbatim>\<open>char[STRING_SIZE]\<close>.\<close>

definition nextCString :: "string parser" where
  "nextCString = pbind nextString (\<lambda>s. plift (strcpy_to STRING_SIZE s))"

text \<open>
  A length prefix and as many bytes left in hex, copied to a \<^verbatim>\<open>char[STRING_SIZE]\<close>; the length
  is kept as \<^verbatim>\<open>long\<close> for a fallback and as \<^verbatim>\<open>int\<close> for a constant.
\<close>

definition copyHex :: "int \<Rightarrow> string parser" where
  "copyHex n s =
     rbind (substr s 0 (to_size_t n)) (\<lambda>value.
     rbind (substr_from s (to_size_t n)) (\<lambda>s'.
     rbind (strcpy_to STRING_SIZE value) (\<lambda>c. Inr (c, s'))))"

definition nextHex64 :: "string parser" where
  "nextHex64 = pbind decodeCompactInteger (\<lambda>len. pbind (plift (checked64 (len * 2))) copyHex)"

definition nextHex32 :: "string parser" where
  "nextHex32 = pbind decodeCompactInteger (\<lambda>len. pbind (plift (checked32 (to_int32 len * 2))) copyHex)"

text \<open>\<^verbatim>\<open>for (int i = ...; i < n; i++)\<close> whose body appends one element.\<close>

fun for_loop :: "(nat \<Rightarrow> 'a parser) \<Rightarrow> nat \<Rightarrow> nat \<Rightarrow> 'a list parser" where
  "for_loop body i 0 = preturn []"
| "for_loop body i (Suc n) =
     pbind (body i) (\<lambda>x. pbind (for_loop body (Suc i) n) (\<lambda>xs. preturn (x # xs)))"

text \<open>A store to element \<open>i\<close> of an array of \<open>cap\<close> elements.\<close>

definition store :: "nat \<Rightarrow> nat \<Rightarrow> 'a \<Rightarrow> 'a parser" where
  "store cap i x = plift (if i < cap then Inr x else Inl (Undefined OutOfBounds))"

text \<open>
  The count in front of a collection, as \<^verbatim>\<open>int\<close> or \<^verbatim>\<open>long\<close>, and the loop. The array indices
  stay below the capacity, so the loop counter cannot overflow.
\<close>

definition vec32 :: "(nat \<Rightarrow> 'a parser) \<Rightarrow> 'a list parser" where
  "vec32 body = pbind decodeCompactInteger (\<lambda>n. for_loop body 0 (nat (to_int32 n)))"

definition vec64 :: "(nat \<Rightarrow> 'a parser) \<Rightarrow> 'a list parser" where
  "vec64 body = pbind decodeCompactInteger (\<lambda>n. for_loop body 0 (nat n))"

text \<open>The loop over the documentation lines, the same in every reader.\<close>

definition nextDocs :: "string list parser" where
  "nextDocs = vec64 (\<lambda>di. pbind nextCString (store COLLECTION_SIZE di))"

section \<open>Reading back a wire encoding\<close>

locale reader =
  fixes enc :: "'w \<Rightarrow> byte list"
    and dec :: "'a parser"
    and view :: "bool \<Rightarrow> 'w \<Rightarrow> 'a"
    and ok :: "'w \<Rightarrow> bool"
  assumes reads: "ok w \<Longrightarrow> dec (hex_bytes u (enc w) @ rest) = Inr (view u w, rest)"
begin

lemma dec_then: "ok w \<Longrightarrow> pbind dec f (hex_bytes u (enc w) @ rest) = f (view u w) rest"
  by (simp add: pbind_Inr reads)

lemma reads_all: "ok w \<Longrightarrow> dec (hex_bytes u (enc w)) = Inr (view u w, [])"
  using reads [of w u "[]"] by simp

text \<open>Encodings are prefix free up to what the reader keeps.\<close>

lemma prefix_free:
  assumes "ok v" "ok w" "enc v @ r = enc w @ s"
  shows "view u v = view u w \<and> hex_bytes u r = hex_bytes u s"
proof -
  have "hex_bytes u (enc v) @ hex_bytes u r = hex_bytes u (enc w) @ hex_bytes u s"
    using assms(3) by (metis hex_bytes_simps(3))
  then show ?thesis using reads [OF assms(1)] reads [OF assms(2)] by (metis Pair_inject sum.inject(2))
qed

lemma elem: "i < cap \<Longrightarrow> reader enc (pbind dec (store cap i)) view ok"
  by unfold_locales (simp add: dec_then, simp add: store_def plift_def)

text \<open>The loop that places a fresh object in the array before it fills it.\<close>

lemma place: "i < cap \<Longrightarrow> reader enc (pbind (store cap i ()) (\<lambda>_. dec)) view ok"
  by unfold_locales (simp add: pbind_def store_def plift_def reads)

lemma for_loop_overflow:
  "(\<forall>w \<in> set ws. ok w) \<Longrightarrow> i \<le> cap \<Longrightarrow> cap < i + length ws \<Longrightarrow>
    for_loop (\<lambda>i. pbind dec (store cap i)) i (length ws) (hex_bytes u (concat (map enc ws)) @ rest) =
    Inl (Undefined OutOfBounds)"
proof (induction ws arbitrary: i)
  case (Cons w ws)
  have "pbind dec (store cap i) (hex_bytes u (enc w) @ s) =
      (if i < cap then Inr (view u w, s) else Inl (Undefined OutOfBounds))" for s
    using Cons.prems by (simp add: dec_then) (simp add: store_def plift_def)
  with Cons show ?case by (cases "i < cap") (auto simp: pbind_Inr pbind_Inl intro!: pbind_Inl)
qed simp

lemma place_loop_overflow:
  "(\<forall>w \<in> set ws. ok w) \<Longrightarrow> i \<le> cap \<Longrightarrow> cap < i + length ws \<Longrightarrow>
    for_loop (\<lambda>i. pbind (store cap i ()) (\<lambda>_. dec)) i (length ws) (hex_bytes u (concat (map enc ws)) @ rest) =
    Inl (Undefined OutOfBounds)"
proof (induction ws arbitrary: i)
  case (Cons w ws)
  have "pbind (store cap i ()) (\<lambda>_. dec) (hex_bytes u (enc w) @ s) =
      (if i < cap then Inr (view u w, s) else Inl (Undefined OutOfBounds))" for s
    using Cons.prems by (simp add: pbind_def store_def plift_def reads)
  with Cons show ?case by (cases "i < cap") (auto simp: pbind_Inr pbind_Inl intro!: pbind_Inl)
qed simp

end

definition enc_vec :: "('w \<Rightarrow> byte list) \<Rightarrow> 'w list \<Rightarrow> byte list" where
  "enc_vec enc ws = compact_spec (int (length ws)) @ concat (map enc ws)"

definition wf_vec :: "nat \<Rightarrow> ('w \<Rightarrow> bool) \<Rightarrow> 'w list \<Rightarrow> bool" where
  "wf_vec cap ok ws \<longleftrightarrow> length ws \<le> cap \<and> list_all ok ws"

definition string_bytes :: "string \<Rightarrow> byte list" where
  "string_bytes s = map (\<lambda>c. word_of_int (of_char c)) s"

definition enc_string :: "string \<Rightarrow> byte list" where
  "enc_string s = compact_spec (int (length s)) @ string_bytes s"

definition enc_hex :: "byte list \<Rightarrow> byte list" where
  "enc_hex bs = compact_spec (int (length bs)) @ bs"

definition wf_hex :: "byte list \<Rightarrow> bool" where
  "wf_hex bs \<longleftrightarrow> 2 * length bs < STRING_SIZE"

lemma for_loop_reads:
  assumes "\<And>i. i < cap \<Longrightarrow> reader enc (body i) view ok"
  shows "(\<forall>w \<in> set ws. ok w) \<Longrightarrow> i + length ws \<le> cap \<Longrightarrow>
    for_loop body i (length ws) (hex_bytes u (concat (map enc ws)) @ rest) = Inr (map (view u) ws, rest)"
proof (induction ws arbitrary: i)
  case (Cons w ws)
  then have "body i (hex_bytes u (enc w) @ s) = Inr (view u w, s)" for s
    by (intro reader.reads [OF assms]) simp_all
  with Cons show ?case by (simp add: pbind_Inr preturn_def)
qed (simp add: preturn_def)

lemma reader_vec32_body:
  assumes "\<And>i. i < cap \<Longrightarrow> reader enc (body i) view ok" "cap < 2 ^ 31"
  shows "reader (enc_vec enc) (vec32 body) (\<lambda>u. map (view u)) (wf_vec cap ok)"
proof
  fix ws u rest
  assume "wf_vec cap ok ws"
  then show "vec32 body (hex_bytes u (enc_vec enc ws) @ rest) = Inr (map (view u) ws, rest)"
    using assms(2) for_loop_reads [where cap = cap and ws = ws and i = 0, OF assms(1)]
    by (simp add: vec32_def enc_vec_def wf_vec_def list_all_iff pbind_def decode_compact)
qed

lemma reader_vec64_body:
  assumes "\<And>i. i < cap \<Longrightarrow> reader enc (body i) view ok" "cap < 2 ^ 31"
  shows "reader (enc_vec enc) (vec64 body) (\<lambda>u. map (view u)) (wf_vec cap ok)"
proof
  fix ws u rest
  assume "wf_vec cap ok ws"
  then show "vec64 body (hex_bytes u (enc_vec enc ws) @ rest) = Inr (map (view u) ws, rest)"
    using assms(2) for_loop_reads [where cap = cap and ws = ws and i = 0, OF assms(1)]
    by (simp add: vec64_def enc_vec_def wf_vec_def list_all_iff pbind_def decode_compact)
qed

lemma reader_vec32: "reader enc dec view ok \<Longrightarrow> cap < 2 ^ 31 \<Longrightarrow>
    reader (enc_vec enc) (vec32 (\<lambda>i. pbind dec (store cap i))) (\<lambda>u. map (view u)) (wf_vec cap ok)"
  by (rule reader_vec32_body [OF reader.elem])

lemma reader_vec64: "reader enc dec view ok \<Longrightarrow> cap < 2 ^ 31 \<Longrightarrow>
    reader (enc_vec enc) (vec64 (\<lambda>i. pbind dec (store cap i))) (\<lambda>u. map (view u)) (wf_vec cap ok)"
  by (rule reader_vec64_body [OF reader.elem])

lemma reader_vec_place: "reader enc dec view ok \<Longrightarrow> cap < 2 ^ 31 \<Longrightarrow>
    reader (enc_vec enc) (vec32 (\<lambda>i. pbind (store cap i ()) (\<lambda>_. dec))) (\<lambda>u. map (view u)) (wf_vec cap ok)"
  by (rule reader_vec32_body [OF reader.place])

text \<open>More elements than the array holds: the loop stores past its end.\<close>

lemma vec32_overflow:
  assumes "reader enc dec view ok" "\<forall>w \<in> set ws. ok w" "cap < length ws" "length ws < 2 ^ 31"
  shows "vec32 (\<lambda>i. pbind dec (store cap i)) (hex_bytes u (enc_vec enc ws) @ rest) = Inl (Undefined OutOfBounds)"
  using assms reader.for_loop_overflow [OF assms(1), of ws 0 cap]
  by (simp add: vec32_def enc_vec_def pbind_def decode_compact)

lemma vec_place_overflow:
  assumes "reader enc dec view ok" "\<forall>w \<in> set ws. ok w" "cap < length ws" "length ws < 2 ^ 31"
  shows "vec32 (\<lambda>i. pbind (store cap i ()) (\<lambda>_. dec)) (hex_bytes u (enc_vec enc ws) @ rest) =
    Inl (Undefined OutOfBounds)"
  using assms reader.place_loop_overflow [OF assms(1), of ws 0 cap]
  by (simp add: vec32_def enc_vec_def pbind_def decode_compact)

interpretation byte_reader: reader "\<lambda>b. [b]" nextByte "\<lambda>_ b. b" "\<lambda>_. True"
  by unfold_locales (simp add: nextByte_hex)

interpretation compact_reader: reader compact_spec decodeCompactInteger "\<lambda>_ n. n" "\<lambda>n. 0 \<le> n \<and> n < 2 ^ 56"
  by unfold_locales (simp add: decode_compact)

lemma char_of_string_bytes: "map (\<lambda>b. char_of (uint b)) (string_bytes s) = s"
proof -
  have "char_of (uint (word_of_int (of_char c) :: byte)) = c" for c
    by (simp add: uint_word_of_int)
  then show ?thesis by (simp add: string_bytes_def comp_def)
qed

lemma extractString_bytes:
  "extractString (int (length s)) (hex_bytes u (string_bytes s) @ rest) = Inr (s, rest)"
  using extractString_loop_hex [of "string_bytes s" "[]" u rest]
  by (simp add: extractString_def char_of_string_bytes) (simp add: string_bytes_def)

interpretation string_reader: reader enc_string nextString "\<lambda>_ s. s" "\<lambda>s. length s < 2 ^ 31"
proof unfold_locales
  fix s :: string and u rest
  assume "length s < 2 ^ 31"
  then show "nextString (hex_bytes u (enc_string s) @ rest) = Inr (s, rest)"
    by (simp add: nextString_def enc_string_def compact_reader.dec_then extractString_bytes)
qed

interpretation cstring_reader: reader enc_string nextCString "\<lambda>_ s. s" "c_string STRING_SIZE"
proof unfold_locales
  fix s u rest
  assume a: "c_string STRING_SIZE s"
  then have "length s < 2 ^ 31" by (simp add: c_string_def STRING_SIZE_def)
  with a show "nextCString (hex_bytes u (enc_string s) @ rest) = Inr (s, rest)"
    by (simp add: nextCString_def string_reader.dec_then strcpy_to_c_string plift_def)
qed

lemma NUL_notin_hex_bytes: "NUL \<notin> set (hex_bytes u bs)"
proof (induction bs)
  case (Cons b bs)
  have "NUL \<noteq> hex_digit u n" if "nibble n" for n
    by (rule not_sym, rule hex_digit_neq [OF that]) simp
  with Cons show ?case by (simp add: hex_byte_def)
qed simp

lemma copyHex_reads:
  assumes "wf_hex bs"
  shows "copyHex (2 * int (length bs)) (hex_bytes u bs @ rest) = Inr (hex_bytes u bs, rest)"
proof -
  have "2 * length bs < 2 ^ 64" using assms by (simp add: wf_hex_def STRING_SIZE_def)
  then have "to_size_t (2 * int (length bs)) = 2 * length bs"
    using to_size_t_of_nat [of "2 * length bs"] by simp
  moreover have "strcpy_to STRING_SIZE (hex_bytes u bs) = Inr (hex_bytes u bs)"
    using assms by (intro strcpy_to_c_string) (simp add: wf_hex_def c_string_def NUL_notin_hex_bytes)
  ultimately show ?thesis
    by (simp add: copyHex_def substr_def substr_from_def)
qed

lemma wf_hex_bound: "wf_hex bs \<Longrightarrow> length bs < 128"
  by (simp add: wf_hex_def STRING_SIZE_def)

interpretation hex64_reader: reader enc_hex nextHex64 hex_bytes wf_hex
proof unfold_locales
  fix bs u rest
  assume a: "wf_hex bs"
  then have "checked64 (int (length bs) * 2) = Inr (2 * int (length bs))"
    using wf_hex_bound [OF a] by (simp add: checked64_def in_int64_def)
  with a wf_hex_bound [OF a] show "nextHex64 (hex_bytes u (enc_hex bs) @ rest) = Inr (hex_bytes u bs, rest)"
    by (simp add: nextHex64_def enc_hex_def compact_reader.dec_then copyHex_reads)
      (simp add: pbind_def plift_def copyHex_reads)
qed

interpretation hex32_reader: reader enc_hex nextHex32 hex_bytes wf_hex
proof unfold_locales
  fix bs u rest
  assume a: "wf_hex bs"
  then have "checked32 (int (length bs) * 2) = Inr (2 * int (length bs))"
    using wf_hex_bound [OF a] by (simp add: checked32_def in_int32_def)
  with a wf_hex_bound [OF a] show "nextHex32 (hex_bytes u (enc_hex bs) @ rest) = Inr (hex_bytes u bs, rest)"
    by (simp add: nextHex32_def enc_hex_def compact_reader.dec_then copyHex_reads)
      (simp add: pbind_def plift_def copyHex_reads)
qed

interpretation docs_reader: reader "enc_vec enc_string" nextDocs "\<lambda>_ ds. ds" "wf_vec COLLECTION_SIZE (c_string STRING_SIZE)"
  using reader_vec64 [OF cstring_reader.reader_axioms, of COLLECTION_SIZE]
  by (simp add: nextDocs_def COLLECTION_SIZE_def)

section \<open>Reading any input\<close>

definition safe :: "'a parser \<Rightarrow> ('a \<Rightarrow> bool) \<Rightarrow> bool" where
  "safe dec P \<longleftrightarrow> (\<forall>s x s'. dec s = Inr (x, s') \<longrightarrow> P x \<and> suffix s' s)"

lemma safeD: "safe dec P \<Longrightarrow> dec s = Inr (x, s') \<Longrightarrow> P x \<and> suffix s' s"
  by (simp add: safe_def)

lemma safe_mono: "safe dec P \<Longrightarrow> (\<And>x. P x \<Longrightarrow> Q x) \<Longrightarrow> safe dec Q"
  by (simp add: safe_def)

lemma safe_preturn [safe_intros]: "P x \<Longrightarrow> safe (preturn x) P"
  by (simp add: safe_def preturn_def)

lemma safe_plift [safe_intros]: "(\<And>x. r = Inr x \<Longrightarrow> P x) \<Longrightarrow> safe (plift r) P"
  by (simp add: safe_def plift_def)

lemma safe_pbind: "safe p P \<Longrightarrow> (\<And>x. P x \<Longrightarrow> safe (f x) Q) \<Longrightarrow> safe (pbind p f) Q"
  unfolding safe_def pbind_eq_Inr by (blast intro: suffix_order.order_trans)

lemma safe_if [safe_intros]: "(b \<Longrightarrow> safe p P) \<Longrightarrow> (\<not> b \<Longrightarrow> safe q P) \<Longrightarrow> safe (if b then p else q) P"
  by simp

lemma safe_store: "safe (store cap i x) (\<lambda>y. y = x \<and> i < cap)"
  by (simp add: safe_def store_def plift_def)

lemma safe_for_loop:
  assumes "\<And>i. safe (body i) (\<lambda>x. P x \<and> i < cap)" "i \<le> cap"
  shows "safe (for_loop body i n) (\<lambda>xs. i + length xs \<le> cap \<and> list_all P xs)"
  using assms(2)
proof (induction n arbitrary: i)
  case (Suc n)
  show ?case unfolding for_loop.simps
    by (rule safe_pbind [OF assms(1)], rule safe_pbind [OF Suc.IH]) (auto intro: safe_preturn)
qed (simp add: safe_preturn)

lemma substr_from_suffix: "substr_from s n = Inr s' \<Longrightarrow> suffix s' s"
  by (auto simp: substr_from_def suffix_drop split: if_splits)

lemma safe_nextByte [safe_intros]: "safe nextByte (\<lambda>_. True)"
  by (simp add: safe_def nextByte_def Let_def) (blast dest: substr_from_suffix)

lemma safe_nextWord [safe_intros]: "safe nextWord (\<lambda>_. True)"
proof -
  have "suffix s2 s" if "substr_from s 2 = Inr s1" "substr_from s1 2 = Inr s2" for s s1 s2
    using that by (blast dest: substr_from_suffix intro: suffix_order.order_trans)
  then show ?thesis by (auto simp: safe_def nextWord_def Let_def)
qed

lemma safe_decode_four: "safe (decode_four k n m) (\<lambda>_. True)"
proof (induction k arbitrary: n m)
  case (Suc k)
  have "decode_four (Suc k) n m = pbind nextByte (\<lambda>b. decode_four k (n + ucast b * m) (push_bit 8 m))"
    by (rule ext) (simp add: pbind_def)
  then show ?case by (simp only:) (rule safe_pbind [OF safe_nextByte Suc])
qed (simp add: safe_def)

lemma safe_decode_big: "safe (decode_big k v m) (\<lambda>_. True)"
proof (induction k arbitrary: v m)
  case (Suc k)
  have "decode_big (Suc k) v m =
    pbind nextByte (\<lambda>b. pbind (plift (checked64 (uint b * m))) (\<lambda>p. pbind (plift (checked64 (v + p))) (\<lambda>v'.
      pbind (plift (checked64 (m * 256))) (\<lambda>m'. decode_big k v' m'))))"
    by (rule ext) (simp add: pbind_def plift_def rbind_assoc)
  then show ?case
    by (simp only:) (intro safe_pbind [OF safe_nextByte] safe_pbind [OF safe_plift [where P = "\<lambda>_. True"]] Suc TrueI)
qed (simp add: safe_def)

lemma decodeCompactInteger_pbind:
  "decodeCompactInteger =
     pbind nextByte (\<lambda>b.
       if b AND 3 = 0 then preturn (sint (ucast (drop_bit 2 b) :: 64 word))
       else if b AND 3 = 1 then
         pbind nextByte (\<lambda>c. preturn (sint (drop_bit 2 (ucast (b AND 252) + ucast c * 256 :: 64 word))))
       else if b AND 3 = 2 then
         pbind (decode_four 3 (ucast b) 256) (\<lambda>n. preturn (sint (drop_bit 2 n)))
       else if b AND 3 = 3 then decode_big (unat (drop_bit 2 b) + 4) 0 1
       else pfail (Throw (CompactIntegerException ''CompactInteger decode error: unknown flag'')))"
  (is "_ = ?r")
proof (rule ext)
  fix s
  show "decodeCompactInteger s = ?r s"
    by (cases "nextByte s") (simp_all add: decodeCompactInteger_def Let_def pbind_def preturn_def pfail_def split_def)
qed

lemma safe_pfail [safe_intros]: "safe (pfail e) P"
  by (simp add: safe_def pfail_def)

lemma safe_decodeCompactInteger [safe_intros]: "safe decodeCompactInteger (\<lambda>_. True)"
  unfolding decodeCompactInteger_pbind
  by (intro safe_pbind [OF safe_nextByte] safe_pbind [OF safe_decode_four] safe_if safe_preturn safe_decode_big
      safe_pfail TrueI)

lemma safe_extractString_loop: "safe (extractString_loop n acc) (\<lambda>_. True)"
proof (induction n arbitrary: acc)
  case (Suc n)
  have "extractString_loop (Suc n) acc = pbind nextByte (\<lambda>b. extractString_loop n (acc @ [char_of (uint b)]))"
    by (rule ext) (simp add: pbind_def)
  then show ?case by (simp only:) (rule safe_pbind [OF safe_nextByte Suc])
qed (simp add: safe_def)

lemma safe_nextString [safe_intros]: "safe nextString (\<lambda>_. True)"
  unfolding nextString_def extractString_def
  by (rule safe_pbind [OF safe_decodeCompactInteger safe_extractString_loop])

lemma safe_nextCString [safe_intros]: "safe nextCString (c_string STRING_SIZE)"
  unfolding nextCString_def
  by (rule safe_pbind [OF safe_nextString]) (auto intro!: safe_plift dest: strcpy_to_Inr)

lemma safe_copyHex: "safe (copyHex n) (c_string STRING_SIZE)"
  by (auto simp: safe_def copyHex_def dest: strcpy_to_Inr substr_from_suffix)

lemma safe_nextHex [safe_intros]:
  "safe nextHex64 (c_string STRING_SIZE)" "safe nextHex32 (c_string STRING_SIZE)"
  unfolding nextHex64_def nextHex32_def
  by (rule safe_pbind [OF safe_decodeCompactInteger]
      safe_pbind [OF safe_plift [where P = "\<lambda>_. True"] safe_copyHex], simp)+

lemma safe_vec32:
  assumes "\<And>i. safe (body i) (\<lambda>x. P x \<and> i < cap)"
  shows "safe (vec32 body) (\<lambda>xs. length xs \<le> cap \<and> list_all P xs)"
  unfolding vec32_def using safe_for_loop [of body P cap 0, OF assms]
  by (intro safe_pbind [OF safe_decodeCompactInteger]) simp

lemma safe_vec64:
  assumes "\<And>i. safe (body i) (\<lambda>x. P x \<and> i < cap)"
  shows "safe (vec64 body) (\<lambda>xs. length xs \<le> cap \<and> list_all P xs)"
  unfolding vec64_def using safe_for_loop [of body P cap 0, OF assms]
  by (intro safe_pbind [OF safe_decodeCompactInteger]) simp

lemma safe_elem: "safe p P \<Longrightarrow> safe (pbind p (store cap i)) (\<lambda>x. P x \<and> i < cap)"
  by (rule safe_pbind, assumption) (rule safe_mono [OF safe_store], simp)

lemma safe_place: "safe p P \<Longrightarrow> safe (pbind (store cap i y) (\<lambda>_. p)) (\<lambda>x. P x \<and> i < cap)"
  by (rule safe_pbind [OF safe_store]) (auto intro: safe_mono)

lemma safe_nextDocs [safe_intros]: "safe nextDocs (wf_vec COLLECTION_SIZE (c_string STRING_SIZE))"
  unfolding nextDocs_def wf_vec_def by (rule safe_vec64, rule safe_elem, rule safe_nextCString)

end
