(* ===== verification/Metadata.thy ===== *)
theory Metadata
  imports Codec
begin

text \<open>
  The data structures of \<^verbatim>\<open>src/structs/metadataV4.h\<close> to \<^verbatim>\<open>metadataV7.h\<close> and their
  readers in \<^verbatim>\<open>src/metadatafactory.cpp\<close> and \<^verbatim>\<open>src/structs/metadataV7.cpp\<close>.

  The structures \<^verbatim>\<open>FunctionCallArgV4\<close> to \<^verbatim>\<open>V7\<close> have the same members, and so have
  \<^verbatim>\<open>CallV4\<close> to \<^verbatim>\<open>V7\<close>, \<^verbatim>\<open>EventArgV4\<close> to \<^verbatim>\<open>V7\<close>, \<^verbatim>\<open>FuncTypeV5\<close> to
  \<^verbatim>\<open>V7\<close> and \<^verbatim>\<open>ConstV6\<close>, \<^verbatim>\<open>V7\<close>: each group is one record. A fixed-size array is the
  list of the elements written so far; every reader writes a prefix. A \<^verbatim>\<open>char[]\<close> member is
  the C string in it, \<^term>\<open>None\<close> while it is indeterminate. A slot of an array of pointers is
  either null (past the list), a fresh object whose members are all indeterminate, or a filled
  object.
\<close>

section \<open>Data\<close>

datatype 'a slot = Fresh | Filled 'a

record FunctionCallArg =
  arg_name :: string
  arg_type :: string

record Call =
  call_name :: string
  call_args :: "FunctionCallArg list"
  call_documentation :: "string list"

record EventArg =
  ev_name :: string
  ev_args :: "string list"
  ev_documentation :: "string list"

record FuncTypeV4 =
  ft4_type :: byte
  ft4_hasher :: "byte option"
  ft4_key1 :: string
  ft4_key2 :: "string option"

record StorageV4 =
  st4_name :: string
  st4_modifier :: byte
  st4_type :: FuncTypeV4
  st4_fallback :: string
  st4_documentation :: "string list"

record FuncType =
  ft_type :: byte
  ft_hasher :: "string option"
  ft_key1 :: string
  ft_key2 :: "string option"
  ft_value :: "string option"
  ft_key2hasher :: "string option"
  ft_isLinked :: "bool option"

text \<open>\<^verbatim>\<open>StorageV5\<close>, \<^verbatim>\<open>V6\<close> and \<^verbatim>\<open>V7\<close>; the member \<^verbatim>\<open>prefix\<close> of the last is never written.\<close>

record Storage =
  st_name :: string
  st_modifier :: byte
  st_type :: FuncType
  st_fallback :: string
  st_documentation :: "string list"

record Const =
  cons_name :: string
  cons_type :: string
  cons_value :: string
  cons_documentation :: "string list"

record ModuleV4 =
  m4_name :: string
  m4_prefix :: string
  m4_storage :: "StorageV4 slot list"
  m4_call :: "Call slot list"
  m4_ev :: "EventArg slot list"

record ModuleV5 =
  m5_name :: string
  m5_prefix :: string
  m5_storage :: "Storage slot list"
  m5_call :: "Call slot list"
  m5_ev :: "EventArg slot list"

record ModuleV6 =
  m6_name :: string
  m6_prefix :: string
  m6_storage :: "Storage slot list"
  m6_call :: "Call slot list"
  m6_ev :: "EventArg slot list"
  m6_cons :: "Const list"

record StorageCollectionV7 =
  sc_prefix :: string
  sc_items :: "Storage list"

record ModuleV7 =
  m7_name :: string
  m7_storage :: "StorageCollectionV7 option"
  m7_call :: "Call list"
  m7_ev :: "EventArg list"
  m7_cons :: "Const list"

text \<open>The only member of \<^verbatim>\<open>MDV4\<close> to \<^verbatim>\<open>MDV7\<close> is the array of modules.\<close>

type_synonym MDV4 = "ModuleV4 list"
type_synonym MDV5 = "ModuleV5 list"
type_synonym MDV6 = "ModuleV6 list"
type_synonym MDV7 = "ModuleV7 list"

section \<open>Calls\<close>

text \<open>The arguments of a call go to an array of \<^verbatim>\<open>STRING_SIZE\<close>, not \<^verbatim>\<open>COLLECTION_SIZE\<close>, elements.\<close>

definition getCallV4 :: "Call parser" where
  "getCallV4 =
     pbind nextCString (\<lambda>name.
     pbind (vec32 (\<lambda>i. pbind
       (pbind nextCString (\<lambda>arg_name. pbind nextCString (\<lambda>arg_type.
          preturn \<lparr>arg_name = arg_name, arg_type = arg_type\<rparr>)))
       (store STRING_SIZE i))) (\<lambda>args.
     pbind nextDocs (\<lambda>documentation.
     preturn \<lparr>call_name = name, call_args = args, call_documentation = documentation\<rparr>)))"

definition getCallV5 :: "Call parser" where
  "getCallV5 =
     pbind nextCString (\<lambda>name.
     pbind (vec32 (\<lambda>i. pbind
       (pbind nextCString (\<lambda>arg_name. pbind nextCString (\<lambda>arg_type.
          preturn \<lparr>arg_name = arg_name, arg_type = arg_type\<rparr>)))
       (store STRING_SIZE i))) (\<lambda>args.
     pbind nextDocs (\<lambda>documentation.
     preturn \<lparr>call_name = name, call_args = args, call_documentation = documentation\<rparr>)))"

definition getCallV6 :: "Call parser" where
  "getCallV6 =
     pbind nextCString (\<lambda>name.
     pbind (vec32 (\<lambda>i. pbind
       (pbind nextCString (\<lambda>arg_name. pbind nextCString (\<lambda>arg_type.
          preturn \<lparr>arg_name = arg_name, arg_type = arg_type\<rparr>)))
       (store STRING_SIZE i))) (\<lambda>args.
     pbind nextDocs (\<lambda>documentation.
     preturn \<lparr>call_name = name, call_args = args, call_documentation = documentation\<rparr>)))"

definition getCallV7 :: "Call parser" where
  "getCallV7 =
     pbind nextCString (\<lambda>name.
     pbind (vec32 (\<lambda>i. pbind
       (pbind nextCString (\<lambda>arg_name. pbind nextCString (\<lambda>arg_type.
          preturn \<lparr>arg_name = arg_name, arg_type = arg_type\<rparr>)))
       (store STRING_SIZE i))) (\<lambda>args.
     pbind nextDocs (\<lambda>documentation.
     preturn \<lparr>call_name = name, call_args = args, call_documentation = documentation\<rparr>)))"

section \<open>Events\<close>

definition getEventV4 :: "EventArg parser" where
  "getEventV4 =
     pbind nextCString (\<lambda>name.
     pbind (vec32 (\<lambda>i. pbind nextCString (store COLLECTION_SIZE i))) (\<lambda>args.
     pbind nextDocs (\<lambda>documentation.
     preturn \<lparr>ev_name = name, ev_args = args, ev_documentation = documentation\<rparr>)))"

definition getEventV5 :: "EventArg parser" where
  "getEventV5 =
     pbind nextCString (\<lambda>name.
     pbind (vec32 (\<lambda>i. pbind nextCString (store COLLECTION_SIZE i))) (\<lambda>args.
     pbind nextDocs (\<lambda>documentation.
     preturn \<lparr>ev_name = name, ev_args = args, ev_documentation = documentation\<rparr>)))"

definition getEventV6 :: "EventArg parser" where
  "getEventV6 =
     pbind nextCString (\<lambda>name.
     pbind (vec32 (\<lambda>i. pbind nextCString (store COLLECTION_SIZE i))) (\<lambda>args.
     pbind nextDocs (\<lambda>documentation.
     preturn \<lparr>ev_name = name, ev_args = args, ev_documentation = documentation\<rparr>)))"

definition getEventV7 :: "EventArg parser" where
  "getEventV7 =
     pbind nextCString (\<lambda>name.
     pbind (vec32 (\<lambda>i. pbind nextCString (store COLLECTION_SIZE i))) (\<lambda>args.
     pbind nextDocs (\<lambda>documentation.
     preturn \<lparr>ev_name = name, ev_args = args, ev_documentation = documentation\<rparr>)))"

section \<open>Storage entries and constants\<close>

definition getStorageV4 :: "StorageV4 parser" where
  "getStorageV4 =
     pbind nextCString (\<lambda>name.
     pbind nextByte (\<lambda>modifier.
     pbind nextByte (\<lambda>type.
     pbind nextCString (\<lambda>key1.
     pbind (if type \<noteq> 0 then
              pbind nextCString (\<lambda>key2.
              pbind nextByte (\<lambda>hasher. preturn (Some key2, Some hasher)))
            else preturn (None, None)) (\<lambda>(key2, hasher).
     pbind nextHex64 (\<lambda>fallback.
     pbind nextDocs (\<lambda>documentation.
     preturn \<lparr>st4_name = name, st4_modifier = modifier,
              st4_type = \<lparr>ft4_type = type, ft4_hasher = hasher, ft4_key1 = key1, ft4_key2 = key2\<rparr>,
              st4_fallback = fallback, st4_documentation = documentation\<rparr>)))))))"

text \<open>
  In the later versions the member \<^verbatim>\<open>type.type\<close> takes the hasher byte, the second key of a
  double map goes to \<^verbatim>\<open>type.value\<close>, where the value overwrites it, and \<^verbatim>\<open>hasher\<close>,
  \<^verbatim>\<open>key2\<close> and \<^verbatim>\<open>key2hasher\<close> are never written.
\<close>

definition getStorageV5 :: "Storage parser" where
  "getStorageV5 =
     pbind nextCString (\<lambda>name.
     pbind nextByte (\<lambda>modifier.
     pbind nextByte (\<lambda>hasSecondType.
     pbind (if hasSecondType \<noteq> 0 then nextByte else preturn 0) (\<lambda>type.
     pbind nextCString (\<lambda>key1.
     pbind (if hasSecondType = 1 then pbind nextCString (\<lambda>value. preturn (Some value))
            else preturn None) (\<lambda>map_value.
     pbind (if hasSecondType = 2 then
              pbind nextCString (\<lambda>type2.
              pbind nextCString (\<lambda>value. preturn (Some value)))
            else preturn map_value) (\<lambda>value.
     pbind (if hasSecondType \<noteq> 0 then pbind nextByte (\<lambda>b. preturn (Some (b \<noteq> 0)))
            else preturn None) (\<lambda>isLinked.
     pbind nextHex64 (\<lambda>fallback.
     pbind nextDocs (\<lambda>documentation.
     preturn \<lparr>st_name = name, st_modifier = modifier,
              st_type = \<lparr>ft_type = type, ft_hasher = None, ft_key1 = key1, ft_key2 = None,
                         ft_value = value, ft_key2hasher = None, ft_isLinked = isLinked\<rparr>,
              st_fallback = fallback, st_documentation = documentation\<rparr>))))))))))"

definition getStorageV6 :: "Storage parser" where
  "getStorageV6 =
     pbind nextCString (\<lambda>name.
     pbind nextByte (\<lambda>modifier.
     pbind nextByte (\<lambda>hasSecondType.
     pbind (if hasSecondType \<noteq> 0 then nextByte else preturn 0) (\<lambda>type.
     pbind nextCString (\<lambda>key1.
     pbind (if hasSecondType = 1 then pbind nextCString (\<lambda>value. preturn (Some value))
            else preturn None) (\<lambda>map_value.
     pbind (if hasSecondType = 2 then
              pbind nextCString (\<lambda>type2.
              pbind nextCString (\<lambda>value. preturn (Some value)))
            else preturn map_value) (\<lambda>value.
     pbind (if hasSecondType \<noteq> 0 then pbind nextByte (\<lambda>b. preturn (Some (b \<noteq> 0)))
            else preturn None) (\<lambda>isLinked.
     pbind nextHex64 (\<lambda>fallback.
     pbind nextDocs (\<lambda>documentation.
     preturn \<lparr>st_name = name, st_modifier = modifier,
              st_type = \<lparr>ft_type = type, ft_hasher = None, ft_key1 = key1, ft_key2 = None,
                         ft_value = value, ft_key2hasher = None, ft_isLinked = isLinked\<rparr>,
              st_fallback = fallback, st_documentation = documentation\<rparr>))))))))))"

definition getStorageV7 :: "Storage parser" where
  "getStorageV7 =
     pbind nextCString (\<lambda>name.
     pbind nextByte (\<lambda>modifier.
     pbind nextByte (\<lambda>hasSecondType.
     pbind (if hasSecondType \<noteq> 0 then nextByte else preturn 0) (\<lambda>type.
     pbind nextCString (\<lambda>key1.
     pbind (if hasSecondType = 1 then pbind nextCString (\<lambda>value. preturn (Some value))
            else preturn None) (\<lambda>map_value.
     pbind (if hasSecondType = 2 then
              pbind nextCString (\<lambda>type2.
              pbind nextCString (\<lambda>value. preturn (Some value)))
            else preturn map_value) (\<lambda>value.
     pbind (if hasSecondType \<noteq> 0 then pbind nextByte (\<lambda>b. preturn (Some (b \<noteq> 0)))
            else preturn None) (\<lambda>isLinked.
     pbind nextHex64 (\<lambda>fallback.
     pbind nextDocs (\<lambda>documentation.
     preturn \<lparr>st_name = name, st_modifier = modifier,
              st_type = \<lparr>ft_type = type, ft_hasher = None, ft_key1 = key1, ft_key2 = None,
                         ft_value = value, ft_key2hasher = None, ft_isLinked = isLinked\<rparr>,
              st_fallback = fallback, st_documentation = documentation\<rparr>))))))))))"

definition getConstsV6 :: "Const parser" where
  "getConstsV6 =
     pbind nextCString (\<lambda>name.
     pbind nextCString (\<lambda>type.
     pbind nextHex32 (\<lambda>value.
     pbind nextDocs (\<lambda>documentation.
     preturn \<lparr>cons_name = name, cons_type = type, cons_value = value,
              cons_documentation = documentation\<rparr>))))"

definition getConstsV7 :: "Const parser" where
  "getConstsV7 =
     pbind nextCString (\<lambda>name.
     pbind nextCString (\<lambda>type.
     pbind nextHex32 (\<lambda>value.
     pbind nextDocs (\<lambda>documentation.
     preturn \<lparr>cons_name = name, cons_type = type, cons_value = value,
              cons_documentation = documentation\<rparr>))))"

section \<open>Modules\<close>

text \<open>
  A flag, a count and as many entries, in versions 4 to 6. A count of zero leaves one fresh,
  uninitialised object in the array.
\<close>

definition optional_array :: "'a parser \<Rightarrow> 'a slot list parser" where
  "optional_array get =
     pbind nextByte (\<lambda>isset.
     if isset \<noteq> 0 then
       pbind decodeCompactInteger (\<lambda>len.
       pbind (for_loop (\<lambda>i. pbind get (store COLLECTION_SIZE i)) 0 (nat (to_int32 len))) (\<lambda>xs.
       preturn (if to_int32 len = 0 then [Fresh] else map Filled xs)))
     else preturn [])"

text \<open>The same in version 7, without the fresh object.\<close>

definition optional_array7 :: "'a parser \<Rightarrow> 'a list parser" where
  "optional_array7 get =
     pbind nextByte (\<lambda>isset.
     if isset \<noteq> 0 then vec32 (\<lambda>i. pbind get (store COLLECTION_SIZE i)) else preturn [])"

definition skip_magic :: "unit parser" where
  "skip_magic =
     pbind nextByte (\<lambda>magic1. pbind nextByte (\<lambda>magic2. pbind nextByte (\<lambda>magic3.
     pbind nextByte (\<lambda>magic4. pbind nextByte (\<lambda>magic5. preturn ())))))"

definition getModuleV4 :: "ModuleV4 parser" where
  "getModuleV4 =
     pbind nextCString (\<lambda>name.
     pbind nextCString (\<lambda>prefix.
     pbind (optional_array getStorageV4) (\<lambda>storage.
     pbind (optional_array getCallV4) (\<lambda>call.
     pbind (optional_array getEventV4) (\<lambda>ev.
     preturn \<lparr>m4_name = name, m4_prefix = prefix, m4_storage = storage, m4_call = call, m4_ev = ev\<rparr>)))))"

definition getModuleV5 :: "ModuleV5 parser" where
  "getModuleV5 =
     pbind nextCString (\<lambda>name.
     pbind nextCString (\<lambda>prefix.
     pbind (optional_array getStorageV5) (\<lambda>storage.
     pbind (optional_array getCallV5) (\<lambda>call.
     pbind (optional_array getEventV5) (\<lambda>ev.
     preturn \<lparr>m5_name = name, m5_prefix = prefix, m5_storage = storage, m5_call = call, m5_ev = ev\<rparr>)))))"

definition getModuleV6 :: "ModuleV6 parser" where
  "getModuleV6 =
     pbind nextCString (\<lambda>name.
     pbind nextCString (\<lambda>prefix.
     pbind (optional_array getStorageV6) (\<lambda>storage.
     pbind (optional_array getCallV6) (\<lambda>call.
     pbind (optional_array getEventV6) (\<lambda>ev.
     pbind (vec64 (\<lambda>i. pbind getConstsV6 (store COLLECTION_SIZE i))) (\<lambda>cons.
     preturn \<lparr>m6_name = name, m6_prefix = prefix, m6_storage = storage, m6_call = call, m6_ev = ev,
              m6_cons = cons\<rparr>))))))"

definition getModuleV7 :: "ModuleV7 parser" where
  "getModuleV7 =
     pbind nextCString (\<lambda>name.
     pbind nextByte (\<lambda>storageIsset.
     pbind (if storageIsset \<noteq> 0 then
              pbind nextCString (\<lambda>prefix.
              pbind (vec32 (\<lambda>i. pbind getStorageV7 (store COLLECTION_SIZE i))) (\<lambda>items.
              preturn (Some \<lparr>sc_prefix = prefix, sc_items = items\<rparr>)))
            else preturn None) (\<lambda>storage.
     pbind (optional_array7 getCallV7) (\<lambda>call.
     pbind (optional_array7 getEventV7) (\<lambda>ev.
     pbind (vec64 (\<lambda>i. pbind getConstsV7 (store COLLECTION_SIZE i))) (\<lambda>cons.
     preturn \<lparr>m7_name = name, m7_storage = storage, m7_call = call, m7_ev = ev, m7_cons = cons\<rparr>))))))"

definition fillV4Metadata :: "string \<Rightarrow> MDV4 result" where
  "fillV4Metadata str =
     rbind (pbind skip_magic (\<lambda>_. vec32 (\<lambda>moduleIndex.
       pbind (store COLLECTION_SIZE moduleIndex ()) (\<lambda>_. getModuleV4))) str)
     (\<lambda>(md, str'). Inr md)"

definition fillV5Metadata :: "string \<Rightarrow> MDV5 result" where
  "fillV5Metadata str =
     rbind (pbind skip_magic (\<lambda>_. vec32 (\<lambda>moduleIndex.
       pbind (store COLLECTION_SIZE moduleIndex ()) (\<lambda>_. getModuleV5))) str)
     (\<lambda>(md, str'). Inr md)"

definition fillV6Metadata :: "string \<Rightarrow> MDV6 result" where
  "fillV6Metadata str =
     rbind (pbind skip_magic (\<lambda>_. vec32 (\<lambda>moduleIndex.
       pbind (store COLLECTION_SIZE moduleIndex ()) (\<lambda>_. getModuleV6))) str)
     (\<lambda>(md, str'). Inr md)"

definition fillV7Metadata :: "string \<Rightarrow> MDV7 result" where
  "fillV7Metadata str =
     rbind (pbind skip_magic (\<lambda>_. vec32 (\<lambda>moduleIndex.
       pbind (store COLLECTION_SIZE moduleIndex ()) (\<lambda>_. getModuleV7))) str)
     (\<lambda>(md, str'). Inr md)"

end
