(* ===== verification/MetadataWire.thy ===== *)
theory MetadataWire
  imports Metadata
begin

text \<open>
  The SCALE wire format of the metadata of versions 4 to 7, as the readers expect it, what
  they keep of it, and the theorems that the readers read it back. An entry of the wire
  format is a value of its own type; its \<open>view\<close> is the object the reader builds.
\<close>

section \<open>Wire format\<close>

definition enc_arg :: "FunctionCallArg \<Rightarrow> byte list" where
  "enc_arg a = enc_string (arg_name a) @ enc_string (arg_type a)"

definition wf_arg :: "FunctionCallArg \<Rightarrow> bool" where
  "wf_arg a \<longleftrightarrow> c_string STRING_SIZE (arg_name a) \<and> c_string STRING_SIZE (arg_type a)"

abbreviation wf_docs :: "string list \<Rightarrow> bool" where
  "wf_docs \<equiv> wf_vec COLLECTION_SIZE (c_string STRING_SIZE)"

definition enc_call :: "Call \<Rightarrow> byte list" where
  "enc_call c = enc_string (call_name c) @ enc_vec enc_arg (call_args c) @ enc_vec enc_string (call_documentation c)"

definition wf_call :: "Call \<Rightarrow> bool" where
  "wf_call c \<longleftrightarrow> c_string STRING_SIZE (call_name c) \<and> wf_vec STRING_SIZE wf_arg (call_args c)
     \<and> wf_docs (call_documentation c)"

definition enc_event :: "EventArg \<Rightarrow> byte list" where
  "enc_event e = enc_string (ev_name e) @ enc_vec enc_string (ev_args e) @ enc_vec enc_string (ev_documentation e)"

definition wf_event :: "EventArg \<Rightarrow> bool" where
  "wf_event e \<longleftrightarrow> c_string STRING_SIZE (ev_name e) \<and> wf_docs (ev_args e) \<and> wf_docs (ev_documentation e)"

text \<open>A storage entry: the type of the value, of a map, of a double map.\<close>

datatype storage_typeV4 =
    PlainV4 string
  | MapV4 byte string string byte   \<comment> \<open>kind, key, value, hasher\<close>

datatype storage_type =
    Plain string
  | Map byte string string byte   \<comment> \<open>hasher, key, value, linked\<close>
  | DoubleMap byte string string string byte   \<comment> \<open>hasher, keys, value, hasher of the second key\<close>

record 'ty storage_wire =
  sw_name :: string
  sw_modifier :: byte
  sw_type :: 'ty
  sw_fallback :: "byte list"
  sw_documentation :: "string list"

definition enc_storage :: "('ty \<Rightarrow> byte list) \<Rightarrow> 'ty storage_wire \<Rightarrow> byte list" where
  "enc_storage enc_ty s = enc_string (sw_name s) @ [sw_modifier s] @ enc_ty (sw_type s)
     @ enc_hex (sw_fallback s) @ enc_vec enc_string (sw_documentation s)"

definition wf_storage :: "('ty \<Rightarrow> bool) \<Rightarrow> 'ty storage_wire \<Rightarrow> bool" where
  "wf_storage wf_ty s \<longleftrightarrow> c_string STRING_SIZE (sw_name s) \<and> wf_ty (sw_type s)
     \<and> wf_hex (sw_fallback s) \<and> wf_docs (sw_documentation s)"

fun enc_typeV4 :: "storage_typeV4 \<Rightarrow> byte list" where
  "enc_typeV4 (PlainV4 v) = [0] @ enc_string v"
| "enc_typeV4 (MapV4 k k1 k2 h) = [k] @ enc_string k1 @ enc_string k2 @ [h]"

fun wf_typeV4 :: "storage_typeV4 \<Rightarrow> bool" where
  "wf_typeV4 (PlainV4 v) \<longleftrightarrow> c_string STRING_SIZE v"
| "wf_typeV4 (MapV4 k k1 k2 h) \<longleftrightarrow> k \<noteq> 0 \<and> c_string STRING_SIZE k1 \<and> c_string STRING_SIZE k2"

fun view_typeV4 :: "storage_typeV4 \<Rightarrow> FuncTypeV4" where
  "view_typeV4 (PlainV4 v) = \<lparr>ft4_type = 0, ft4_hasher = None, ft4_key1 = v, ft4_key2 = None\<rparr>"
| "view_typeV4 (MapV4 k k1 k2 h) = \<lparr>ft4_type = k, ft4_hasher = Some h, ft4_key1 = k1, ft4_key2 = Some k2\<rparr>"

fun enc_type :: "storage_type \<Rightarrow> byte list" where
  "enc_type (Plain v) = [0] @ enc_string v"
| "enc_type (Map h k v l) = [1] @ [h] @ enc_string k @ enc_string v @ [l]"
| "enc_type (DoubleMap h k k2 v l) = [2] @ [h] @ enc_string k @ enc_string k2 @ enc_string v @ [l]"

fun wf_type :: "storage_type \<Rightarrow> bool" where
  "wf_type (Plain v) \<longleftrightarrow> c_string STRING_SIZE v"
| "wf_type (Map h k v l) \<longleftrightarrow> c_string STRING_SIZE k \<and> c_string STRING_SIZE v"
| "wf_type (DoubleMap h k k2 v l) \<longleftrightarrow>
     c_string STRING_SIZE k \<and> c_string STRING_SIZE k2 \<and> c_string STRING_SIZE v"

text \<open>What the reader keeps: neither the second key nor the kind of entry, and no hasher name.\<close>

fun view_type :: "storage_type \<Rightarrow> FuncType" where
  "view_type (Plain v) = \<lparr>ft_type = 0, ft_hasher = None, ft_key1 = v, ft_key2 = None, ft_value = None,
     ft_key2hasher = None, ft_isLinked = None\<rparr>"
| "view_type (Map h k v l) = \<lparr>ft_type = h, ft_hasher = None, ft_key1 = k, ft_key2 = None, ft_value = Some v,
     ft_key2hasher = None, ft_isLinked = Some (l \<noteq> 0)\<rparr>"
| "view_type (DoubleMap h k k2 v l) = \<lparr>ft_type = h, ft_hasher = None, ft_key1 = k, ft_key2 = None,
     ft_value = Some v, ft_key2hasher = None, ft_isLinked = Some (l \<noteq> 0)\<rparr>"

definition view_storageV4 :: "bool \<Rightarrow> storage_typeV4 storage_wire \<Rightarrow> StorageV4" where
  "view_storageV4 u s = \<lparr>st4_name = sw_name s, st4_modifier = sw_modifier s, st4_type = view_typeV4 (sw_type s),
     st4_fallback = hex_bytes u (sw_fallback s), st4_documentation = sw_documentation s\<rparr>"

definition view_storage :: "bool \<Rightarrow> storage_type storage_wire \<Rightarrow> Storage" where
  "view_storage u s = \<lparr>st_name = sw_name s, st_modifier = sw_modifier s, st_type = view_type (sw_type s),
     st_fallback = hex_bytes u (sw_fallback s), st_documentation = sw_documentation s\<rparr>"

record const_wire =
  cw_name :: string
  cw_type :: string
  cw_value :: "byte list"
  cw_documentation :: "string list"

definition enc_const :: "const_wire \<Rightarrow> byte list" where
  "enc_const c = enc_string (cw_name c) @ enc_string (cw_type c) @ enc_hex (cw_value c)
     @ enc_vec enc_string (cw_documentation c)"

definition wf_const :: "const_wire \<Rightarrow> bool" where
  "wf_const c \<longleftrightarrow> c_string STRING_SIZE (cw_name c) \<and> c_string STRING_SIZE (cw_type c) \<and> wf_hex (cw_value c)
     \<and> wf_docs (cw_documentation c)"

definition view_const :: "bool \<Rightarrow> const_wire \<Rightarrow> Const" where
  "view_const u c = \<lparr>cons_name = cw_name c, cons_type = cw_type c, cons_value = hex_bytes u (cw_value c),
     cons_documentation = cw_documentation c\<rparr>"

subsection \<open>Modules\<close>

definition enc_opt :: "('w \<Rightarrow> byte list) \<Rightarrow> 'w option \<Rightarrow> byte list" where
  "enc_opt enc x = (case x of None \<Rightarrow> [0] | Some w \<Rightarrow> [1] @ enc w)"

definition wf_opt :: "('w \<Rightarrow> bool) \<Rightarrow> 'w list option \<Rightarrow> bool" where
  "wf_opt ok x \<longleftrightarrow> (case x of None \<Rightarrow> True | Some ws \<Rightarrow> wf_vec COLLECTION_SIZE ok ws)"

definition view_slots :: "('w \<Rightarrow> 'a) \<Rightarrow> 'w list option \<Rightarrow> 'a slot list" where
  "view_slots view x = (case x of None \<Rightarrow> [] | Some ws \<Rightarrow> if ws = [] then [Fresh] else map (\<lambda>w. Filled (view w)) ws)"

definition view_opt :: "('w \<Rightarrow> 'a) \<Rightarrow> 'w list option \<Rightarrow> 'a list" where
  "view_opt view x = (case x of None \<Rightarrow> [] | Some ws \<Rightarrow> map view ws)"

record 'ty module_wire =
  mw_name :: string
  mw_prefix :: string
  mw_storage :: "'ty storage_wire list option"
  mw_call :: "Call list option"
  mw_ev :: "EventArg list option"
  mw_cons :: "const_wire list"

text \<open>Versions 4 and 5 have no constants.\<close>

definition enc_module :: "('ty \<Rightarrow> byte list) \<Rightarrow> 'ty module_wire \<Rightarrow> byte list" where
  "enc_module enc_ty m = enc_string (mw_name m) @ enc_string (mw_prefix m)
     @ enc_opt (enc_vec (enc_storage enc_ty)) (mw_storage m) @ enc_opt (enc_vec enc_call) (mw_call m)
     @ enc_opt (enc_vec enc_event) (mw_ev m)"

definition wf_module :: "('ty \<Rightarrow> bool) \<Rightarrow> 'ty module_wire \<Rightarrow> bool" where
  "wf_module wf_ty m \<longleftrightarrow> c_string STRING_SIZE (mw_name m) \<and> c_string STRING_SIZE (mw_prefix m)
     \<and> wf_opt (wf_storage wf_ty) (mw_storage m) \<and> wf_opt wf_call (mw_call m) \<and> wf_opt wf_event (mw_ev m)
     \<and> wf_vec COLLECTION_SIZE wf_const (mw_cons m)"

definition enc_moduleV6 :: "storage_type module_wire \<Rightarrow> byte list" where
  "enc_moduleV6 m = enc_module enc_type m @ enc_vec enc_const (mw_cons m)"

text \<open>Version 7 has the prefix in the storage section.\<close>

definition enc_storagesV7 :: "string \<times> storage_type storage_wire list \<Rightarrow> byte list" where
  "enc_storagesV7 s = enc_string (fst s) @ enc_vec (enc_storage enc_type) (snd s)"

definition enc_moduleV7 :: "storage_type module_wire \<Rightarrow> byte list" where
  "enc_moduleV7 m = enc_string (mw_name m)
     @ enc_opt enc_storagesV7 (map_option (Pair (mw_prefix m)) (mw_storage m))
     @ enc_opt (enc_vec enc_call) (mw_call m) @ enc_opt (enc_vec enc_event) (mw_ev m)
     @ enc_vec enc_const (mw_cons m)"

definition view_moduleV4 :: "bool \<Rightarrow> storage_typeV4 module_wire \<Rightarrow> ModuleV4" where
  "view_moduleV4 u m = \<lparr>m4_name = mw_name m, m4_prefix = mw_prefix m,
     m4_storage = view_slots (view_storageV4 u) (mw_storage m), m4_call = view_slots id (mw_call m),
     m4_ev = view_slots id (mw_ev m)\<rparr>"

definition view_moduleV5 :: "bool \<Rightarrow> storage_type module_wire \<Rightarrow> ModuleV5" where
  "view_moduleV5 u m = \<lparr>m5_name = mw_name m, m5_prefix = mw_prefix m,
     m5_storage = view_slots (view_storage u) (mw_storage m), m5_call = view_slots id (mw_call m),
     m5_ev = view_slots id (mw_ev m)\<rparr>"

definition view_moduleV6 :: "bool \<Rightarrow> storage_type module_wire \<Rightarrow> ModuleV6" where
  "view_moduleV6 u m = \<lparr>m6_name = mw_name m, m6_prefix = mw_prefix m,
     m6_storage = view_slots (view_storage u) (mw_storage m), m6_call = view_slots id (mw_call m),
     m6_ev = view_slots id (mw_ev m), m6_cons = map (view_const u) (mw_cons m)\<rparr>"

definition view_moduleV7 :: "bool \<Rightarrow> storage_type module_wire \<Rightarrow> ModuleV7" where
  "view_moduleV7 u m = \<lparr>m7_name = mw_name m,
     m7_storage = map_option (\<lambda>ss. \<lparr>sc_prefix = mw_prefix m, sc_items = map (view_storage u) ss\<rparr>) (mw_storage m),
     m7_call = view_opt id (mw_call m), m7_ev = view_opt id (mw_ev m), m7_cons = map (view_const u) (mw_cons m)\<rparr>"

section \<open>The readers agree across versions\<close>

lemma getCall_eq: "getCallV5 = getCallV4" "getCallV6 = getCallV4" "getCallV7 = getCallV4"
  by (simp_all only: getCallV4_def getCallV5_def getCallV6_def getCallV7_def)

lemma getEvent_eq: "getEventV5 = getEventV4" "getEventV6 = getEventV4" "getEventV7 = getEventV4"
  by (simp_all only: getEventV4_def getEventV5_def getEventV6_def getEventV7_def)

lemma getStorage_eq: "getStorageV6 = getStorageV5" "getStorageV7 = getStorageV5"
  by (simp_all only: getStorageV5_def getStorageV6_def getStorageV7_def)

lemma getConsts_eq: "getConstsV7 = getConstsV6"
  by (simp only: getConstsV6_def getConstsV7_def)

lemmas readers_eq = getCall_eq getEvent_eq getStorage_eq getConsts_eq

section \<open>Reading back\<close>

lemma byte_then: "pbind nextByte f (hex_byte u b @ rest) = f b rest"
  by (simp add: pbind_Inr nextByte_hex)

lemmas dec_thens = byte_then cstring_reader.dec_then docs_reader.dec_then
  hex64_reader.dec_then hex32_reader.dec_then

lemma sizes [simp]: "STRING_SIZE < 2147483648" "COLLECTION_SIZE < 2147483648"
  by (simp_all add: STRING_SIZE_def COLLECTION_SIZE_def)

interpretation args_reader: reader "enc_vec enc_arg"
  "vec32 (\<lambda>i. pbind (pbind nextCString (\<lambda>arg_name. pbind nextCString (\<lambda>arg_type.
     preturn \<lparr>arg_name = arg_name, arg_type = arg_type\<rparr>))) (store STRING_SIZE i))"
  "\<lambda>_. map id" "wf_vec STRING_SIZE wf_arg"
  by (rule reader_vec32, unfold_locales)
    (simp_all add: enc_arg_def wf_arg_def dec_thens preturn_def)

interpretation strings_reader: reader "enc_vec enc_string" "vec32 (\<lambda>i. pbind nextCString (store COLLECTION_SIZE i))"
  "\<lambda>_. map (\<lambda>s. s)" wf_docs
  by (rule reader_vec32 [OF cstring_reader.reader_axioms]) simp

interpretation call_reader: reader enc_call getCallV4 "\<lambda>_. id" wf_call
  by unfold_locales
    (simp add: getCallV4_def enc_call_def wf_call_def dec_thens args_reader.dec_then preturn_def)

interpretation event_reader: reader enc_event getEventV4 "\<lambda>_. id" wf_event
  by unfold_locales
    (simp add: getEventV4_def enc_event_def wf_event_def dec_thens strings_reader.dec_then preturn_def)


interpretation storageV4_reader: reader "enc_storage enc_typeV4" getStorageV4 view_storageV4 "wf_storage wf_typeV4"
proof unfold_locales
  fix w :: "storage_typeV4 storage_wire" and u rest
  assume "wf_storage wf_typeV4 w"
  then show "getStorageV4 (hex_bytes u (enc_storage enc_typeV4 w) @ rest) = Inr (view_storageV4 u w, rest)"
    by (cases "sw_type w") (simp_all add: getStorageV4_def enc_storage_def wf_storage_def view_storageV4_def
        dec_thens pbind_assoc preturn_then preturn_def)
qed

interpretation storage_reader: reader "enc_storage enc_type" getStorageV5 view_storage "wf_storage wf_type"
proof unfold_locales
  fix w :: "storage_type storage_wire" and u rest
  assume "wf_storage wf_type w"
  then show "getStorageV5 (hex_bytes u (enc_storage enc_type w) @ rest) = Inr (view_storage u w, rest)"
    by (cases "sw_type w") (simp_all add: getStorageV5_def enc_storage_def wf_storage_def view_storage_def
        dec_thens pbind_assoc preturn_then preturn_def)
qed

interpretation const_reader: reader enc_const getConstsV6 view_const wf_const
  by unfold_locales (simp add: getConstsV6_def enc_const_def wf_const_def view_const_def dec_thens preturn_def)

lemma reader_optional_array:
  assumes "reader enc get view ok"
  shows "reader (enc_opt (enc_vec enc)) (optional_array get) (\<lambda>u. view_slots (view u)) (wf_opt ok)"
proof
  fix w u rest
  assume a: "wf_opt ok w"
  show "optional_array get (hex_bytes u (enc_opt (enc_vec enc) w) @ rest) = Inr (view_slots (view u) w, rest)"
  proof (cases w)
    case (Some ws)
    then have ws: "\<forall>w \<in> set ws. ok w" "length ws \<le> COLLECTION_SIZE" "length ws < 2147483648"
      using a by (auto simp: wf_opt_def wf_vec_def list_all_iff COLLECTION_SIZE_def)
    have loop: "for_loop (\<lambda>i. pbind get (store COLLECTION_SIZE i)) 0 (length ws)
        (hex_bytes u (concat (map enc ws)) @ rest) = Inr (map (view u) ws, rest)"
      using for_loop_reads [OF reader.elem [OF assms] ws(1)] ws(2) by simp
    show ?thesis
      using ws by (simp add: Some enc_opt_def enc_vec_def view_slots_def optional_array_def byte_then
          compact_reader.dec_then) (simp add: pbind_def loop preturn_def)
  qed (simp add: enc_opt_def view_slots_def optional_array_def byte_then preturn_def)
qed

lemma reader_optional_array7:
  assumes "reader enc get view ok"
  shows "reader (enc_opt (enc_vec enc)) (optional_array7 get) (\<lambda>u. view_opt (view u)) (wf_opt ok)"
proof
  fix w u rest
  assume a: "wf_opt ok w"
  show "optional_array7 get (hex_bytes u (enc_opt (enc_vec enc) w) @ rest) = Inr (view_opt (view u) w, rest)"
    using a reader.reads [OF reader_vec32 [OF assms]]
    by (cases w) (simp_all add: wf_opt_def enc_opt_def view_opt_def optional_array7_def byte_then preturn_def)
qed

interpretation consts_reader: reader "enc_vec enc_const" "vec64 (\<lambda>i. pbind getConstsV6 (store COLLECTION_SIZE i))"
  "\<lambda>u. map (view_const u)" "wf_vec COLLECTION_SIZE wf_const"
  by (rule reader_vec64 [OF const_reader.reader_axioms]) simp

interpretation storages_reader: reader "enc_vec (enc_storage enc_type)"
  "vec32 (\<lambda>i. pbind getStorageV5 (store COLLECTION_SIZE i))"
  "\<lambda>u. map (view_storage u)" "wf_vec COLLECTION_SIZE (wf_storage wf_type)"
  by (rule reader_vec32 [OF storage_reader.reader_axioms]) simp

lemmas section_thens =
  reader.dec_then [OF reader_optional_array [OF storageV4_reader.reader_axioms]]
  reader.dec_then [OF reader_optional_array [OF storage_reader.reader_axioms]]
  reader.dec_then [OF reader_optional_array [OF call_reader.reader_axioms]]
  reader.dec_then [OF reader_optional_array [OF event_reader.reader_axioms]]
  reader.dec_then [OF reader_optional_array7 [OF call_reader.reader_axioms]]
  reader.dec_then [OF reader_optional_array7 [OF event_reader.reader_axioms]]
  consts_reader.dec_then storages_reader.dec_then

interpretation moduleV4_reader: reader "enc_module enc_typeV4" getModuleV4 view_moduleV4 "wf_module wf_typeV4"
  by unfold_locales
    (simp add: getModuleV4_def enc_module_def wf_module_def view_moduleV4_def dec_thens section_thens preturn_def)

interpretation moduleV5_reader: reader "enc_module enc_type" getModuleV5 view_moduleV5 "wf_module wf_type"
  by unfold_locales
    (simp add: getModuleV5_def readers_eq enc_module_def wf_module_def view_moduleV5_def dec_thens section_thens
      preturn_def)

interpretation moduleV6_reader: reader enc_moduleV6 getModuleV6 view_moduleV6 "wf_module wf_type"
  by unfold_locales
    (simp add: getModuleV6_def readers_eq enc_moduleV6_def enc_module_def wf_module_def view_moduleV6_def dec_thens
      section_thens preturn_def)

interpretation moduleV7_reader: reader enc_moduleV7 getModuleV7 view_moduleV7 "wf_module wf_type"
proof unfold_locales
  fix w :: "storage_type module_wire" and u rest
  assume "wf_module wf_type w"
  then show "getModuleV7 (hex_bytes u (enc_moduleV7 w) @ rest) = Inr (view_moduleV7 u w, rest)"
    by (cases "mw_storage w") (simp_all add: getModuleV7_def readers_eq enc_moduleV7_def enc_opt_def [of enc_storagesV7]
        enc_storagesV7_def wf_module_def wf_opt_def [of "wf_storage wf_type"] view_moduleV7_def dec_thens section_thens
        pbind_assoc preturn_then preturn_def)
qed

section \<open>Whole blobs\<close>

lemma skip_magic_then:
  "length magic = 5 \<Longrightarrow> pbind skip_magic f (hex_bytes u magic @ rest) = f () rest"
  by (auto simp: skip_magic_def numeral_eq_Suc length_Suc_conv pbind_assoc byte_then preturn_then)

lemma fill_reads:
  assumes "reader enc get view ok" "length magic = 5" "wf_vec COLLECTION_SIZE ok ms"
  shows "rbind (pbind skip_magic (\<lambda>_. vec32 (\<lambda>i. pbind (store COLLECTION_SIZE i ()) (\<lambda>_. get)))
      (hex_bytes u (magic @ enc_vec enc ms) @ rest)) (\<lambda>(md, str'). Inr md) = Inr (map (view u) ms)"
  using reader.reads [OF reader_vec_place [OF assms(1), of COLLECTION_SIZE]] assms(2,3)
  by (simp add: skip_magic_then)

lemma fill_overflow:
  assumes "reader enc get view ok" "length magic = 5" "\<forall>m \<in> set ms. ok m"
    and "COLLECTION_SIZE < length ms" "length ms < 2 ^ 31"
  shows "rbind (pbind skip_magic (\<lambda>_. vec32 (\<lambda>i. pbind (store COLLECTION_SIZE i ()) (\<lambda>_. get)))
      (hex_bytes u (magic @ enc_vec enc ms) @ rest)) (\<lambda>(md, str'). Inr md) = Inl (Undefined OutOfBounds)"
  using vec_place_overflow [OF assms(1,3,4)] assms(2,5)
  by (simp add: skip_magic_then)

section \<open>Any input\<close>

text \<open>
  What holds of the objects the readers build, whatever the input: every string fits its
  array and no collection outgrows its own.
\<close>

abbreviation ok_string :: "string \<Rightarrow> bool" where
  "ok_string \<equiv> c_string STRING_SIZE"

definition ok_storageV4 :: "StorageV4 \<Rightarrow> bool" where
  "ok_storageV4 s \<longleftrightarrow> ok_string (st4_name s) \<and> ok_string (ft4_key1 (st4_type s))
     \<and> pred_option ok_string (ft4_key2 (st4_type s)) \<and> ok_string (st4_fallback s) \<and> wf_docs (st4_documentation s)"

definition ok_storage :: "Storage \<Rightarrow> bool" where
  "ok_storage s \<longleftrightarrow> ok_string (st_name s) \<and> ok_string (ft_key1 (st_type s))
     \<and> pred_option ok_string (ft_value (st_type s)) \<and> ok_string (st_fallback s) \<and> wf_docs (st_documentation s)
     \<and> ft_hasher (st_type s) = None"

definition ok_const :: "Const \<Rightarrow> bool" where
  "ok_const c \<longleftrightarrow> ok_string (cons_name c) \<and> ok_string (cons_type c) \<and> ok_string (cons_value c)
     \<and> wf_docs (cons_documentation c)"

definition ok_slots :: "('a \<Rightarrow> bool) \<Rightarrow> 'a slot list \<Rightarrow> bool" where
  "ok_slots ok xs \<longleftrightarrow> length xs \<le> COLLECTION_SIZE \<and> list_all (pred_slot ok) xs"

definition ok_moduleV4 :: "ModuleV4 \<Rightarrow> bool" where
  "ok_moduleV4 m \<longleftrightarrow> ok_string (m4_name m) \<and> ok_string (m4_prefix m) \<and> ok_slots ok_storageV4 (m4_storage m)
     \<and> ok_slots wf_call (m4_call m) \<and> ok_slots wf_event (m4_ev m)"

definition ok_moduleV5 :: "ModuleV5 \<Rightarrow> bool" where
  "ok_moduleV5 m \<longleftrightarrow> ok_string (m5_name m) \<and> ok_string (m5_prefix m) \<and> ok_slots ok_storage (m5_storage m)
     \<and> ok_slots wf_call (m5_call m) \<and> ok_slots wf_event (m5_ev m)"

definition ok_moduleV6 :: "ModuleV6 \<Rightarrow> bool" where
  "ok_moduleV6 m \<longleftrightarrow> ok_string (m6_name m) \<and> ok_string (m6_prefix m) \<and> ok_slots ok_storage (m6_storage m)
     \<and> ok_slots wf_call (m6_call m) \<and> ok_slots wf_event (m6_ev m) \<and> wf_vec COLLECTION_SIZE ok_const (m6_cons m)"

definition ok_moduleV7 :: "ModuleV7 \<Rightarrow> bool" where
  "ok_moduleV7 m \<longleftrightarrow> ok_string (m7_name m)
     \<and> pred_option (\<lambda>s. ok_string (sc_prefix s) \<and> wf_vec COLLECTION_SIZE ok_storage (sc_items s)) (m7_storage m)
     \<and> wf_vec COLLECTION_SIZE wf_call (m7_call m) \<and> wf_vec COLLECTION_SIZE wf_event (m7_ev m)
     \<and> wf_vec COLLECTION_SIZE ok_const (m7_cons m)"

lemmas safe_byte = safe_pbind [OF safe_nextByte]
lemmas safe_cstring = safe_pbind [OF safe_nextCString]
lemmas safe_docs = safe_pbind [OF safe_nextDocs]
lemmas safe_hex = safe_nextHex [THEN safe_pbind]

lemma safe_vec:
  assumes "safe p P"
  shows "safe (vec32 (\<lambda>i. pbind p (store cap i))) (wf_vec cap P)"
    and "safe (vec64 (\<lambda>i. pbind p (store cap i))) (wf_vec cap P)"
    and "safe (vec32 (\<lambda>i. pbind (store cap i ()) (\<lambda>_. p))) (wf_vec cap P)"
  unfolding wf_vec_def by (rule safe_vec32 safe_vec64 safe_elem safe_place assms)+

lemma safe_getCallV4: "safe getCallV4 wf_call"
proof -
  have arg: "safe (pbind nextCString (\<lambda>arg_name. pbind nextCString (\<lambda>arg_type.
      preturn \<lparr>arg_name = arg_name, arg_type = arg_type\<rparr>))) wf_arg"
    by (intro safe_cstring safe_preturn) (simp add: wf_arg_def)
  show ?thesis unfolding getCallV4_def
    by (intro safe_cstring safe_docs safe_pbind [OF safe_vec(1) [OF arg]] safe_preturn) (simp add: wf_call_def)
qed

lemma safe_getEventV4: "safe getEventV4 wf_event"
  unfolding getEventV4_def
  by (intro safe_cstring safe_docs safe_pbind [OF safe_vec(1) [OF safe_nextCString]] safe_preturn)
    (simp add: wf_event_def)

lemma safe_getConstsV6: "safe getConstsV6 ok_const"
  unfolding getConstsV6_def
  by (intro safe_cstring safe_docs safe_hex safe_preturn) (simp add: ok_const_def)

lemma safe_getStorageV4: "safe getStorageV4 ok_storageV4"
proof -
  have "safe (if type \<noteq> 0 then pbind nextCString (\<lambda>key2. pbind nextByte (\<lambda>hasher. preturn (Some key2, Some hasher)))
      else preturn (None, None)) (\<lambda>(key2, hasher). pred_option ok_string key2)" for type :: byte
    by (intro safe_if safe_cstring safe_byte safe_preturn) simp_all
  note keys = safe_pbind [OF this]
  show ?thesis unfolding getStorageV4_def
    by (intro safe_cstring safe_byte keys; clarify)
      (intro safe_docs safe_hex safe_preturn, simp add: ok_storageV4_def)
qed

lemma safe_getStorageV5: "safe getStorageV5 ok_storage"
proof -
  have 0: "safe (if b then nextByte else preturn 0) (\<lambda>_. True)" for b
    by (intro safe_if safe_nextByte safe_preturn) simp_all
  have 1: "safe (if b then pbind nextCString (\<lambda>value. preturn (Some value)) else preturn None) (pred_option ok_string)" for b
    by (intro safe_if safe_cstring safe_preturn) simp_all
  have 2: "safe (if b then pbind nextCString (\<lambda>type2. pbind nextCString (\<lambda>value. preturn (Some value)))
      else preturn v) (pred_option ok_string)" if "pred_option ok_string v" for b v
    using that by (intro safe_if safe_cstring safe_preturn) simp_all
  have 3: "safe (if b then pbind nextByte (\<lambda>b. preturn (Some (b \<noteq> 0))) else preturn None) (\<lambda>_. True)" for b
    by (intro safe_if safe_byte safe_preturn) simp_all
  show ?thesis unfolding getStorageV5_def
    by (intro safe_cstring safe_byte safe_docs safe_hex safe_pbind [OF 0] safe_pbind [OF 1] safe_pbind [OF 2]
        safe_pbind [OF 3] safe_preturn; (assumption | simp add: ok_storage_def))
qed

lemma safe_optional_array:
  assumes "safe get P"
  shows "safe (optional_array get) (ok_slots P)"
proof -
  have "safe (for_loop (\<lambda>i. pbind get (store COLLECTION_SIZE i)) 0 n)
      (\<lambda>xs. length xs \<le> COLLECTION_SIZE \<and> list_all P xs)" for n
    using safe_for_loop [OF safe_elem [OF assms], of 0 COLLECTION_SIZE n] by simp
  note loop = safe_pbind [OF this]
  show ?thesis unfolding optional_array_def
    by (intro safe_byte safe_if safe_pbind [OF safe_decodeCompactInteger] loop safe_preturn)
      (auto simp: ok_slots_def list_all_iff COLLECTION_SIZE_def)
qed

lemma safe_optional_array7: "safe get P \<Longrightarrow> safe (optional_array7 get) (wf_vec COLLECTION_SIZE P)"
  unfolding optional_array7_def
  by (intro safe_byte safe_if safe_vec safe_preturn) (simp_all add: wf_vec_def)

lemmas safe_sections =
  safe_pbind [OF safe_optional_array [OF safe_getStorageV4]]
  safe_pbind [OF safe_optional_array [OF safe_getStorageV5]]
  safe_pbind [OF safe_optional_array [OF safe_getCallV4]]
  safe_pbind [OF safe_optional_array [OF safe_getEventV4]]
  safe_pbind [OF safe_optional_array7 [OF safe_getCallV4]]
  safe_pbind [OF safe_optional_array7 [OF safe_getEventV4]]
  safe_pbind [OF safe_vec(1) [OF safe_getStorageV5]]
  safe_pbind [OF safe_vec(2) [OF safe_getConstsV6]]

lemma safe_modules:
  "safe getModuleV4 ok_moduleV4" "safe getModuleV5 ok_moduleV5" "safe getModuleV6 ok_moduleV6"
  unfolding getModuleV4_def getModuleV5_def getModuleV6_def readers_eq
  by (intro safe_cstring safe_sections safe_preturn; simp add: ok_moduleV4_def ok_moduleV5_def ok_moduleV6_def)+

lemma safe_getModuleV7: "safe getModuleV7 ok_moduleV7"
proof -
  have "safe (if b then pbind nextCString (\<lambda>prefix.
              pbind (vec32 (\<lambda>i. pbind getStorageV5 (store COLLECTION_SIZE i))) (\<lambda>items.
              preturn (Some \<lparr>sc_prefix = prefix, sc_items = items\<rparr>))) else preturn None)
        (pred_option (\<lambda>s. ok_string (sc_prefix s) \<and> wf_vec COLLECTION_SIZE ok_storage (sc_items s)))" for b
    by (intro safe_if safe_cstring safe_sections safe_preturn) simp_all
  note storage = safe_pbind [OF this]
  show ?thesis unfolding getModuleV7_def readers_eq
    by (intro safe_cstring safe_byte storage safe_sections safe_preturn; simp add: ok_moduleV7_def)
qed

lemma fill_safe:
  assumes "safe get P"
    and "rbind (pbind skip_magic (\<lambda>_. vec32 (\<lambda>i. pbind (store COLLECTION_SIZE i ()) (\<lambda>_. get))) str)
      (\<lambda>(md, str'). Inr md) = Inr md"
  shows "wf_vec COLLECTION_SIZE P md"
proof -
  have "safe skip_magic (\<lambda>_. True)"
    unfolding skip_magic_def by (intro safe_byte safe_preturn TrueI)
  then have "safe (pbind skip_magic (\<lambda>_. vec32 (\<lambda>i. pbind (store COLLECTION_SIZE i ()) (\<lambda>_. get)))) (wf_vec COLLECTION_SIZE P)"
    by (intro safe_pbind [where P = "\<lambda>_. True"] safe_vec(3) [OF assms(1)])
  with assms(2) show ?thesis by (auto dest: safeD)
qed

lemma fillV7_ok: "fillV7Metadata str = Inr md \<Longrightarrow> wf_vec COLLECTION_SIZE ok_moduleV7 md"
  unfolding fillV7Metadata_def by (rule fill_safe [OF safe_getModuleV7])

section \<open>Properties\<close>

text \<open>
  A module with one double map, one call and an event section that is present but empty.
\<close>

definition sample_module :: "storage_type module_wire" where
  "sample_module = \<lparr>mw_name = ''balances'', mw_prefix = ''Balances'',
     mw_storage = Some [\<lparr>sw_name = ''Vesting'', sw_modifier = 1, sw_type = DoubleMap 2 ''A'' ''B'' ''C'' 1,
       sw_fallback = [0, 255], sw_documentation = [''d'']\<rparr>],
     mw_call = Some [\<lparr>call_name = ''transfer'', call_args = [\<lparr>arg_name = ''dest'', arg_type = ''T''\<rparr>],
       call_documentation = []\<rparr>],
     mw_ev = Some [],
     mw_cons = [\<lparr>cw_name = ''Fee'', cw_type = ''u8'', cw_value = [16], cw_documentation = []\<rparr>]\<rparr>"

definition sample_storage :: Storage where
  "sample_storage = \<lparr>st_name = ''Vesting'', st_modifier = 1,
     st_type = \<lparr>ft_type = 2, ft_hasher = None, ft_key1 = ''A'', ft_key2 = None, ft_value = Some ''C'',
       ft_key2hasher = None, ft_isLinked = Some True\<rparr>,
     st_fallback = ''00ff'', st_documentation = [''d'']\<rparr>"

text \<open>
  C10: on the wire format of version 7 metadata, whatever the five leading bytes are and
  whatever follows, \<^verbatim>\<open>fillV7Metadata\<close> returns the modules of the blob, in order, with all that
  the structures keep of them.
\<close>

theorem fillV7Metadata_reads:
  assumes "length magic = 5" "wf_vec COLLECTION_SIZE (wf_module wf_type) ms"
  shows "fillV7Metadata (hex_bytes u (magic @ enc_vec enc_moduleV7 ms) @ rest) = Inr (map (view_moduleV7 u) ms)"
  unfolding fillV7Metadata_def using moduleV7_reader.reader_axioms assms by (rule fill_reads)

theorem fillV7Metadata_reads_witness:
  "fillV7Metadata (hex_bytes False ([0x6D, 0x65, 0x74, 0x61, 7] @ enc_vec enc_moduleV7 [sample_module])) =
   Inr [\<lparr>m7_name = ''balances'', m7_storage = Some \<lparr>sc_prefix = ''Balances'', sc_items = [sample_storage]\<rparr>,
     m7_call = [\<lparr>call_name = ''transfer'', call_args = [\<lparr>arg_name = ''dest'', arg_type = ''T''\<rparr>],
       call_documentation = []\<rparr>], m7_ev = [],
     m7_cons = [\<lparr>cons_name = ''Fee'', cons_type = ''u8'', cons_value = ''10'', cons_documentation = []\<rparr>]\<rparr>]"
proof -
  have "wf_vec COLLECTION_SIZE (wf_module wf_type) [sample_module]" by code_simp
  moreover have "hex_bytes False [0, 255] = ''00ff''" "hex_bytes False [16] = ''10''" by code_simp+
  ultimately show ?thesis
    using fillV7Metadata_reads [of "[0x6D, 0x65, 0x74, 0x61, 7]" "[sample_module]" False "[]"]
    by (simp add: view_moduleV7_def view_storage_def view_const_def view_opt_def sample_module_def sample_storage_def
        del: hex_bytes_simps)
qed

text \<open>
  The same for version 6, where an empty but present section leaves one uninitialised
  object in its array.
\<close>

theorem fillV6Metadata_reads:
  assumes "length magic = 5" "wf_vec COLLECTION_SIZE (wf_module wf_type) ms"
  shows "fillV6Metadata (hex_bytes u (magic @ enc_vec enc_moduleV6 ms) @ rest) = Inr (map (view_moduleV6 u) ms)"
  unfolding fillV6Metadata_def using moduleV6_reader.reader_axioms assms by (rule fill_reads)

theorem fillV6Metadata_reads_witness:
  "fillV6Metadata (hex_bytes False ([1, 2, 3, 4, 5] @ enc_vec enc_moduleV6 [sample_module])) =
   Inr [\<lparr>m6_name = ''balances'', m6_prefix = ''Balances'', m6_storage = [Filled sample_storage],
     m6_call = [Filled \<lparr>call_name = ''transfer'', call_args = [\<lparr>arg_name = ''dest'', arg_type = ''T''\<rparr>],
       call_documentation = []\<rparr>], m6_ev = [Fresh],
     m6_cons = [\<lparr>cons_name = ''Fee'', cons_type = ''u8'', cons_value = ''10'', cons_documentation = []\<rparr>]\<rparr>]"
proof -
  have "wf_vec COLLECTION_SIZE (wf_module wf_type) [sample_module]" by code_simp
  moreover have "hex_bytes False [0, 255] = ''00ff''" "hex_bytes False [16] = ''10''" by code_simp+
  ultimately show ?thesis
    using fillV6Metadata_reads [of "[1, 2, 3, 4, 5]" "[sample_module]" False "[]"]
    by (simp add: view_moduleV6_def view_storage_def view_const_def view_slots_def sample_module_def sample_storage_def
        del: hex_bytes_simps)
qed

text \<open>The same for version 5, which has no constants.\<close>

theorem fillV5Metadata_reads:
  assumes "length magic = 5" "wf_vec COLLECTION_SIZE (wf_module wf_type) ms"
  shows "fillV5Metadata (hex_bytes u (magic @ enc_vec (enc_module enc_type) ms) @ rest) = Inr (map (view_moduleV5 u) ms)"
  unfolding fillV5Metadata_def using moduleV5_reader.reader_axioms assms by (rule fill_reads)

theorem fillV5Metadata_reads_witness:
  "fillV5Metadata (hex_bytes False ([1, 2, 3, 4, 5] @ enc_vec (enc_module enc_type) [sample_module])) =
   Inr [\<lparr>m5_name = ''balances'', m5_prefix = ''Balances'', m5_storage = [Filled sample_storage],
     m5_call = [Filled \<lparr>call_name = ''transfer'', call_args = [\<lparr>arg_name = ''dest'', arg_type = ''T''\<rparr>],
       call_documentation = []\<rparr>], m5_ev = [Fresh]\<rparr>]"
proof -
  have "wf_vec COLLECTION_SIZE (wf_module wf_type) [sample_module]" by code_simp
  moreover have "hex_bytes False [0, 255] = ''00ff''" by code_simp
  ultimately show ?thesis
    using fillV5Metadata_reads [of "[1, 2, 3, 4, 5]" "[sample_module]" False "[]"]
    by (simp add: view_moduleV5_def view_storage_def view_slots_def sample_module_def sample_storage_def
        del: hex_bytes_simps)
qed

text \<open>The same for version 4, with its own storage type.\<close>

theorem fillV4Metadata_reads:
  assumes "length magic = 5" "wf_vec COLLECTION_SIZE (wf_module wf_typeV4) ms"
  shows "fillV4Metadata (hex_bytes u (magic @ enc_vec (enc_module enc_typeV4) ms) @ rest) = Inr (map (view_moduleV4 u) ms)"
  unfolding fillV4Metadata_def using moduleV4_reader.reader_axioms assms by (rule fill_reads)

definition sample_moduleV4 :: "storage_typeV4 module_wire" where
  "sample_moduleV4 = \<lparr>mw_name = ''m'', mw_prefix = ''M'',
     mw_storage = Some [\<lparr>sw_name = ''s'', sw_modifier = 0, sw_type = MapV4 1 ''K'' ''V'' 2,
       sw_fallback = [7], sw_documentation = []\<rparr>],
     mw_call = None, mw_ev = None, mw_cons = []\<rparr>"

theorem fillV4Metadata_reads_witness:
  "fillV4Metadata (hex_bytes True ([1, 2, 3, 4, 5] @ enc_vec (enc_module enc_typeV4) [sample_moduleV4])) =
   Inr [\<lparr>m4_name = ''m'', m4_prefix = ''M'', m4_storage = [Filled
     \<lparr>st4_name = ''s'', st4_modifier = 0, st4_type = \<lparr>ft4_type = 1, ft4_hasher = Some 2, ft4_key1 = ''K'',
       ft4_key2 = Some ''V''\<rparr>, st4_fallback = ''07'', st4_documentation = []\<rparr>], m4_call = [], m4_ev = []\<rparr>]"
proof -
  have "wf_vec COLLECTION_SIZE (wf_module wf_typeV4) [sample_moduleV4]" by code_simp
  moreover have "hex_bytes True [7] = ''07''" by code_simp
  ultimately show ?thesis
    using fillV4Metadata_reads [of "[1, 2, 3, 4, 5]" "[sample_moduleV4]" True "[]"]
    by (simp add: view_moduleV4_def view_storageV4_def view_slots_def sample_moduleV4_def del: hex_bytes_simps)
qed

text \<open>
  A version 7 blob with more than 64 modules, each of them well formed, makes
  \<^verbatim>\<open>fillV7Metadata\<close> store past the end of \<^verbatim>\<open>MDV7::module\<close>: the count is never checked.
\<close>

theorem fillV7Metadata_too_many_modules:
  assumes "length magic = 5" "list_all (wf_module wf_type) ms" "COLLECTION_SIZE < length ms" "length ms < 2 ^ 31"
  shows "fillV7Metadata (hex_bytes u (magic @ enc_vec enc_moduleV7 ms) @ rest) = Inl (Undefined OutOfBounds)"
  unfolding fillV7Metadata_def using moduleV7_reader.reader_axioms assms(1) _ assms(3,4)
  by (rule fill_overflow) (use assms(2) in \<open>simp add: list_all_iff\<close>)

theorem fillV7Metadata_too_many_modules_witness:
  "fillV7Metadata (hex_bytes True ([1, 2, 3, 4, 7] @ enc_vec enc_moduleV7 (replicate 65 sample_module))) =
   Inl (Undefined OutOfBounds)"
proof -
  have "wf_module wf_type sample_module" by code_simp
  then show ?thesis
    using fillV7Metadata_too_many_modules [of "[1, 2, 3, 4, 7]" "replicate 65 sample_module" True "[]"]
    by (simp add: list_all_iff COLLECTION_SIZE_def del: hex_bytes_simps)
qed



end
