(* ===== verification/MetadataV0.thy ===== *)
theory MetadataV0
  imports MetadataWire
begin

text \<open>
  Metadata of version 0: the structures of \<^verbatim>\<open>src/structs/metadataV0.h\<close>, their readers in
  \<^verbatim>\<open>src/metadatafactory.cpp\<close>, the wire format they read and the theorem that they read it
  back. Conventions as for the other versions.
\<close>

section \<open>Data\<close>

record EventArgV0 =
  ea0_name :: string
  ea0_argItem :: "string list"
  ea0_eventDoc :: "string list"

record OuterEventV0 =
  oe0_name :: string
  oe0_eventArg :: "EventArgV0 list"

text \<open>Of the array \<^verbatim>\<open>FunctionV0::type\<close> only the first element is used.\<close>

record FuncTypeV0 =
  ft0_typeName :: "byte option"
  ft0_key :: "string option"
  ft0_value :: "string option"

record FunctionV0 =
  f0_name :: string
  f0_type :: FuncTypeV0
  f0_fallback :: string
  f0_documentation :: "string list"

record FunctionCallV0 =
  fc0_id :: byte
  fc0_name :: string
  fc0_args :: "FunctionCallArg list"
  fc0_documentation :: "string list"

record StorageV0 =
  st0_prefix :: string
  st0_function :: "FunctionV0 list"

text \<open>\<^verbatim>\<open>ModuleV0\<close> with \<^verbatim>\<open>ModuleContentV0\<close> and \<^verbatim>\<open>CallV0\<close> inlined.\<close>

record ModuleV0 =
  m0_prefix :: string
  m0_module_name :: string
  m0_call_name :: string
  m0_call_fn1 :: "FunctionCallV0 list"
  m0_storage :: "StorageV0 option"

record DispachCallV0 =
  dc0_name :: string
  dc0_prefix :: string
  dc0_index :: byte

text \<open>\<^verbatim>\<open>MDV0\<close> with its event wrapper and outer dispatch inlined.\<close>

record MDV0 =
  md0_oew_name :: string
  md0_oew_eventArg :: "OuterEventV0 list"
  md0_module :: "ModuleV0 list"
  md0_dispach_name :: string
  md0_dispach_call :: "DispachCallV0 list"

section \<open>Readers\<close>

definition getEventV0 :: "OuterEventV0 parser" where
  "getEventV0 =
     pbind nextCString (\<lambda>name.
     pbind (vec32 (\<lambda>gi. pbind
       (pbind nextCString (\<lambda>eaname.
        pbind (vec64 (\<lambda>i. pbind nextCString (store COLLECTION_SIZE i))) (\<lambda>argItem.
        pbind (vec64 (\<lambda>i. pbind nextCString (store COLLECTION_SIZE i))) (\<lambda>eventDoc.
        preturn \<lparr>ea0_name = eaname, ea0_argItem = argItem, ea0_eventDoc = eventDoc\<rparr>))))
       (store COLLECTION_SIZE gi))) (\<lambda>eventArg.
     preturn \<lparr>oe0_name = name, oe0_eventArg = eventArg\<rparr>))"

definition getCallArgV0 :: "nat \<Rightarrow> FunctionCallArg parser" where
  "getCallArgV0 ai =
     pbind (pbind nextCString (store COLLECTION_SIZE ai)) (\<lambda>name.
     pbind nextCString (\<lambda>type.
     preturn \<lparr>arg_name = name, arg_type = type\<rparr>))"

definition getFunctionCallV0 :: "nat \<Rightarrow> FunctionCallV0 parser" where
  "getFunctionCallV0 i =
     pbind (pbind nextWord (store COLLECTION_SIZE i)) (\<lambda>id.
     pbind nextCString (\<lambda>name.
     pbind (vec32 getCallArgV0) (\<lambda>args.
     pbind (vec32 (\<lambda>di. pbind nextCString (store COLLECTION_SIZE di))) (\<lambda>documentation.
     preturn \<lparr>fc0_id = id, fc0_name = name, fc0_args = args, fc0_documentation = documentation\<rparr>))))"

text \<open>
  One storage function, and the kind byte, which the reader writes to
  \<^verbatim>\<open>function->type->typeName\<close>: to the first function of the array, whichever it reads.
\<close>

definition getFunctionV0 :: "nat \<Rightarrow> (FunctionV0 \<times> byte) parser" where
  "getFunctionV0 i =
     pbind (pbind nextCString (store COLLECTION_SIZE i)) (\<lambda>name.
     pbind nextByte (\<lambda>type.
     pbind nextByte (\<lambda>hasSecondType.
     pbind nextString (\<lambda>type1.
     pbind (if 0 < hasSecondType then nextString else preturn []) (\<lambda>type2.
     pbind (if type = 0 then
              pbind (plift (strcpy_to STRING_SIZE type1)) (\<lambda>value. preturn (None, Some value))
            else
              pbind (plift (strcpy_to STRING_SIZE type2)) (\<lambda>value.
              pbind (plift (strcpy_to STRING_SIZE type1)) (\<lambda>key. preturn (Some key, Some value))))
       (\<lambda>(key, value).
     pbind nextHex64 (\<lambda>fallback.
     pbind nextDocs (\<lambda>documentation.
     preturn (\<lparr>f0_name = name, f0_type = \<lparr>ft0_typeName = None, ft0_key = key, ft0_value = value\<rparr>,
               f0_fallback = fallback, f0_documentation = documentation\<rparr>, type)))))))))"

fun set_typeName0 :: "byte \<Rightarrow> FunctionV0 list \<Rightarrow> FunctionV0 list" where
  "set_typeName0 type [] = []"
| "set_typeName0 type (f # fs) = f\<lparr>f0_type := (f0_type f)\<lparr>ft0_typeName := Some type\<rparr>\<rparr> # fs"

fun getFunctionsV0 :: "nat \<Rightarrow> nat \<Rightarrow> FunctionV0 list \<Rightarrow> FunctionV0 list parser" where
  "getFunctionsV0 i 0 fs = preturn fs"
| "getFunctionsV0 i (Suc n) fs =
     pbind (getFunctionV0 i) (\<lambda>(f, type). getFunctionsV0 (Suc i) n (set_typeName0 type (fs @ [f])))"

definition getModuleV0 :: "ModuleV0 parser" where
  "getModuleV0 =
     pbind nextCString (\<lambda>prefix.
     pbind nextCString (\<lambda>module_name.
     pbind nextCString (\<lambda>call_name.
     pbind (vec32 getFunctionCallV0) (\<lambda>fn1.
     pbind nextByte (\<lambda>storageIsset.
     pbind (if storageIsset = 0 then preturn None
            else
              pbind nextCString (\<lambda>storage_prefix.
              pbind decodeCompactInteger (\<lambda>storageFuncsCount.
              pbind (getFunctionsV0 0 (nat (to_int32 storageFuncsCount)) []) (\<lambda>function.
              preturn (Some \<lparr>st0_prefix = storage_prefix, st0_function = function\<rparr>))))) (\<lambda>storage.
     preturn \<lparr>m0_prefix = prefix, m0_module_name = module_name, m0_call_name = call_name, m0_call_fn1 = fn1,
              m0_storage = storage\<rparr>))))))"

definition getOuterDispachV0 :: "DispachCallV0 parser" where
  "getOuterDispachV0 =
     pbind nextCString (\<lambda>name.
     pbind nextCString (\<lambda>prefix.
     pbind nextWord (\<lambda>index.
     preturn \<lparr>dc0_name = name, dc0_prefix = prefix, dc0_index = index\<rparr>)))"

definition fillV0Metadata :: "string \<Rightarrow> MDV0 result" where
  "fillV0Metadata str =
     rbind
       (pbind nextCString (\<lambda>oew_name.
        pbind (vec32 (\<lambda>i. pbind getEventV0 (store COLLECTION_SIZE i))) (\<lambda>eventArg.
        pbind (vec32 (\<lambda>i. pbind getModuleV0 (store COLLECTION_SIZE i))) (\<lambda>module.
        pbind nextCString (\<lambda>dispach_name.
        pbind (vec32 (\<lambda>i. pbind getOuterDispachV0 (store COLLECTION_SIZE i))) (\<lambda>call.
        preturn \<lparr>md0_oew_name = oew_name, md0_oew_eventArg = eventArg, md0_module = module,
                 md0_dispach_name = dispach_name, md0_dispach_call = call\<rparr>))))) str)
     (\<lambda>(md, str'). Inr md)"

section \<open>Wire format\<close>

definition enc_event_argV0 :: "EventArgV0 \<Rightarrow> byte list" where
  "enc_event_argV0 e = enc_string (ea0_name e) @ enc_vec enc_string (ea0_argItem e) @ enc_vec enc_string (ea0_eventDoc e)"

definition wf_event_argV0 :: "EventArgV0 \<Rightarrow> bool" where
  "wf_event_argV0 e \<longleftrightarrow> c_string STRING_SIZE (ea0_name e) \<and> wf_docs (ea0_argItem e) \<and> wf_docs (ea0_eventDoc e)"

definition enc_eventV0 :: "OuterEventV0 \<Rightarrow> byte list" where
  "enc_eventV0 e = enc_string (oe0_name e) @ enc_vec enc_event_argV0 (oe0_eventArg e)"

definition wf_eventV0 :: "OuterEventV0 \<Rightarrow> bool" where
  "wf_eventV0 e \<longleftrightarrow> c_string STRING_SIZE (oe0_name e) \<and> wf_vec COLLECTION_SIZE wf_event_argV0 (oe0_eventArg e)"

text \<open>Identifiers and indices take two bytes on the wire.\<close>

record function_call_wireV0 =
  fw_id :: "byte \<times> byte"
  fw_name :: string
  fw_args :: "FunctionCallArg list"
  fw_documentation :: "string list"

definition enc_word :: "byte \<times> byte \<Rightarrow> byte list" where
  "enc_word w = [fst w, snd w]"

definition enc_function_callV0 :: "function_call_wireV0 \<Rightarrow> byte list" where
  "enc_function_callV0 f = enc_word (fw_id f) @ enc_string (fw_name f) @ enc_vec enc_arg (fw_args f)
     @ enc_vec enc_string (fw_documentation f)"

definition wf_function_callV0 :: "function_call_wireV0 \<Rightarrow> bool" where
  "wf_function_callV0 f \<longleftrightarrow> c_string STRING_SIZE (fw_name f) \<and> wf_vec COLLECTION_SIZE wf_arg (fw_args f)
     \<and> wf_docs (fw_documentation f)"

definition view_function_callV0 :: "function_call_wireV0 \<Rightarrow> FunctionCallV0" where
  "view_function_callV0 f = \<lparr>fc0_id = fst (fw_id f), fc0_name = fw_name f, fc0_args = fw_args f,
     fc0_documentation = fw_documentation f\<rparr>"

datatype function_typeV0 = PlainV0 string | MapV0 byte string string

definition kindV0 :: "function_typeV0 \<Rightarrow> byte" where
  "kindV0 t = (case t of PlainV0 v \<Rightarrow> 0 | MapV0 k key v \<Rightarrow> k)"

fun enc_typeV0 :: "function_typeV0 \<Rightarrow> byte list" where
  "enc_typeV0 (PlainV0 v) = [0, 0] @ enc_string v"
| "enc_typeV0 (MapV0 k key v) = [k, 1] @ enc_string key @ enc_string v"

fun wf_typeV0 :: "function_typeV0 \<Rightarrow> bool" where
  "wf_typeV0 (PlainV0 v) \<longleftrightarrow> c_string STRING_SIZE v"
| "wf_typeV0 (MapV0 k key v) \<longleftrightarrow> k \<noteq> 0 \<and> c_string STRING_SIZE key \<and> c_string STRING_SIZE v"

fun view_typeV0 :: "function_typeV0 \<Rightarrow> FuncTypeV0" where
  "view_typeV0 (PlainV0 v) = \<lparr>ft0_typeName = None, ft0_key = None, ft0_value = Some v\<rparr>"
| "view_typeV0 (MapV0 k key v) = \<lparr>ft0_typeName = None, ft0_key = Some key, ft0_value = Some v\<rparr>"

record function_wireV0 =
  sf_name :: string
  sf_type :: function_typeV0
  sf_fallback :: "byte list"
  sf_documentation :: "string list"

definition enc_functionV0 :: "function_wireV0 \<Rightarrow> byte list" where
  "enc_functionV0 f = enc_string (sf_name f) @ enc_typeV0 (sf_type f) @ enc_hex (sf_fallback f)
     @ enc_vec enc_string (sf_documentation f)"

definition wf_functionV0 :: "function_wireV0 \<Rightarrow> bool" where
  "wf_functionV0 f \<longleftrightarrow> c_string STRING_SIZE (sf_name f) \<and> wf_typeV0 (sf_type f) \<and> wf_hex (sf_fallback f)
     \<and> wf_docs (sf_documentation f)"

definition view_functionV0 :: "bool \<Rightarrow> function_wireV0 \<Rightarrow> FunctionV0" where
  "view_functionV0 u f = \<lparr>f0_name = sf_name f, f0_type = view_typeV0 (sf_type f),
     f0_fallback = hex_bytes u (sf_fallback f), f0_documentation = sf_documentation f\<rparr>"

text \<open>The kind of the last function ends up in the first one, the other kinds nowhere.\<close>

definition view_functionsV0 :: "bool \<Rightarrow> function_wireV0 list \<Rightarrow> FunctionV0 list" where
  "view_functionsV0 u fs =
     (if fs = [] then [] else set_typeName0 (kindV0 (sf_type (last fs))) (map (view_functionV0 u) fs))"

record module_wireV0 =
  mw0_prefix :: string
  mw0_module_name :: string
  mw0_call_name :: string
  mw0_call_fn1 :: "function_call_wireV0 list"
  mw0_storage :: "(string \<times> function_wireV0 list) option"

definition enc_storageV0 :: "string \<times> function_wireV0 list \<Rightarrow> byte list" where
  "enc_storageV0 s = enc_string (fst s) @ enc_vec enc_functionV0 (snd s)"

definition enc_moduleV0 :: "module_wireV0 \<Rightarrow> byte list" where
  "enc_moduleV0 m = enc_string (mw0_prefix m) @ enc_string (mw0_module_name m) @ enc_string (mw0_call_name m)
     @ enc_vec enc_function_callV0 (mw0_call_fn1 m) @ enc_opt enc_storageV0 (mw0_storage m)"

definition wf_moduleV0 :: "module_wireV0 \<Rightarrow> bool" where
  "wf_moduleV0 m \<longleftrightarrow> c_string STRING_SIZE (mw0_prefix m) \<and> c_string STRING_SIZE (mw0_module_name m)
     \<and> c_string STRING_SIZE (mw0_call_name m) \<and> wf_vec COLLECTION_SIZE wf_function_callV0 (mw0_call_fn1 m)
     \<and> (case mw0_storage m of None \<Rightarrow> True
          | Some (p, fs) \<Rightarrow> c_string STRING_SIZE p \<and> wf_vec COLLECTION_SIZE wf_functionV0 fs)"

definition view_moduleV0 :: "bool \<Rightarrow> module_wireV0 \<Rightarrow> ModuleV0" where
  "view_moduleV0 u m = \<lparr>m0_prefix = mw0_prefix m, m0_module_name = mw0_module_name m,
     m0_call_name = mw0_call_name m, m0_call_fn1 = map view_function_callV0 (mw0_call_fn1 m),
     m0_storage = map_option (\<lambda>(p, fs). \<lparr>st0_prefix = p, st0_function = view_functionsV0 u fs\<rparr>) (mw0_storage m)\<rparr>"

definition enc_dispatchV0 :: "string \<times> string \<times> byte \<times> byte \<Rightarrow> byte list" where
  "enc_dispatchV0 d = enc_string (fst d) @ enc_string (fst (snd d)) @ enc_word (snd (snd d))"

definition wf_dispatchV0 :: "string \<times> string \<times> byte \<times> byte \<Rightarrow> bool" where
  "wf_dispatchV0 d \<longleftrightarrow> c_string STRING_SIZE (fst d) \<and> c_string STRING_SIZE (fst (snd d))"

definition view_dispatchV0 :: "string \<times> string \<times> byte \<times> byte \<Rightarrow> DispachCallV0" where
  "view_dispatchV0 d = \<lparr>dc0_name = fst d, dc0_prefix = fst (snd d), dc0_index = fst (snd (snd d))\<rparr>"

record metadata_wireV0 =
  w0_events_name :: string
  w0_events :: "OuterEventV0 list"
  w0_modules :: "module_wireV0 list"
  w0_dispatch_name :: string
  w0_dispatch :: "(string \<times> string \<times> byte \<times> byte) list"

definition enc_metadataV0 :: "metadata_wireV0 \<Rightarrow> byte list" where
  "enc_metadataV0 w = enc_string (w0_events_name w) @ enc_vec enc_eventV0 (w0_events w)
     @ enc_vec enc_moduleV0 (w0_modules w) @ enc_string (w0_dispatch_name w) @ enc_vec enc_dispatchV0 (w0_dispatch w)"

definition wf_metadataV0 :: "metadata_wireV0 \<Rightarrow> bool" where
  "wf_metadataV0 w \<longleftrightarrow> c_string STRING_SIZE (w0_events_name w) \<and> wf_vec COLLECTION_SIZE wf_eventV0 (w0_events w)
     \<and> wf_vec COLLECTION_SIZE wf_moduleV0 (w0_modules w) \<and> c_string STRING_SIZE (w0_dispatch_name w)
     \<and> wf_vec COLLECTION_SIZE wf_dispatchV0 (w0_dispatch w)"

definition view_metadataV0 :: "bool \<Rightarrow> metadata_wireV0 \<Rightarrow> MDV0" where
  "view_metadataV0 u w = \<lparr>md0_oew_name = w0_events_name w, md0_oew_eventArg = w0_events w,
     md0_module = map (view_moduleV0 u) (w0_modules w), md0_dispach_name = w0_dispatch_name w,
     md0_dispach_call = map view_dispatchV0 (w0_dispatch w)\<rparr>"

section \<open>Reading back\<close>

lemma word_then: "pbind nextWord f (hex_bytes u (enc_word w) @ rest) = f (fst w) rest"
  using nextWord_reads [of u "fst w" "snd w"] by (simp add: enc_word_def pbind_def)

interpretation strings64_reader: reader "enc_vec enc_string" "vec64 (\<lambda>i. pbind nextCString (store COLLECTION_SIZE i))"
  "\<lambda>_. map (\<lambda>s. s)" wf_docs
  by (rule reader_vec64 [OF cstring_reader.reader_axioms]) simp

interpretation event_argsV0_reader: reader "enc_vec enc_event_argV0"
  "vec32 (\<lambda>gi. pbind (pbind nextCString (\<lambda>eaname.
        pbind (vec64 (\<lambda>i. pbind nextCString (store COLLECTION_SIZE i))) (\<lambda>argItem.
        pbind (vec64 (\<lambda>i. pbind nextCString (store COLLECTION_SIZE i))) (\<lambda>eventDoc.
        preturn \<lparr>ea0_name = eaname, ea0_argItem = argItem, ea0_eventDoc = eventDoc\<rparr>))))
       (store COLLECTION_SIZE gi))" "\<lambda>_. map id" "wf_vec COLLECTION_SIZE wf_event_argV0"
  by (rule reader_vec32, unfold_locales)
    (simp_all add: enc_event_argV0_def wf_event_argV0_def dec_thens strings64_reader.dec_then preturn_def)

interpretation eventsV0_reader: reader "enc_vec enc_eventV0"
  "vec32 (\<lambda>i. pbind getEventV0 (store COLLECTION_SIZE i))" "\<lambda>_. map id" "wf_vec COLLECTION_SIZE wf_eventV0"
  by (rule reader_vec32, unfold_locales)
    (simp_all add: getEventV0_def enc_eventV0_def wf_eventV0_def dec_thens event_argsV0_reader.dec_then preturn_def)

lemma store_then: "i < cap \<Longrightarrow> pbind (store cap i x) f s = f x s"
  by (simp add: pbind_def store_def plift_def)

interpretation call_argsV0_reader: reader "enc_vec enc_arg" "vec32 getCallArgV0" "\<lambda>_. map id"
  "wf_vec COLLECTION_SIZE wf_arg"
  by (rule reader_vec32_body, unfold_locales)
    (simp_all add: getCallArgV0_def enc_arg_def wf_arg_def pbind_assoc dec_thens store_then preturn_def)

interpretation function_callsV0_reader: reader "enc_vec enc_function_callV0" "vec32 getFunctionCallV0"
  "\<lambda>_. map view_function_callV0" "wf_vec COLLECTION_SIZE wf_function_callV0"
  by (rule reader_vec32_body, unfold_locales)
    (simp_all add: getFunctionCallV0_def enc_function_callV0_def wf_function_callV0_def view_function_callV0_def
      pbind_assoc dec_thens word_then call_argsV0_reader.dec_then strings_reader.dec_then store_then preturn_def)

lemma string_then: "c_string STRING_SIZE s \<Longrightarrow> pbind nextString f (hex_bytes u (enc_string s) @ rest) = f s rest"
  by (rule string_reader.dec_then) (simp add: c_string_def STRING_SIZE_def)

lemma strcpy_then: "c_string n s \<Longrightarrow> pbind (plift (strcpy_to n s)) f r = f s r"
  by (simp add: pbind_def plift_def strcpy_to_c_string)

lemma getFunctionV0_reads:
  assumes "i < COLLECTION_SIZE" "wf_functionV0 w"
  shows "getFunctionV0 i (hex_bytes u (enc_functionV0 w) @ rest) =
    Inr ((view_functionV0 u w, kindV0 (sf_type w)), rest)"
  using assms by (cases "sf_type w")
    (simp_all add: getFunctionV0_def enc_functionV0_def wf_functionV0_def view_functionV0_def kindV0_def
      pbind_assoc dec_thens string_then strcpy_then store_then preturn_then preturn_def)

lemma set_typeName0_snoc:
  "set_typeName0 t (set_typeName0 t' fs @ [f]) = set_typeName0 t (fs @ [f])"
  by (cases fs) simp_all

lemma getFunctionsV0_reads:
  assumes "i + length ws \<le> COLLECTION_SIZE" "list_all wf_functionV0 ws"
  shows "getFunctionsV0 i (length ws) fs (hex_bytes u (concat (map enc_functionV0 ws)) @ rest) =
    Inr (if ws = [] then fs else set_typeName0 (kindV0 (sf_type (last ws))) (fs @ map (view_functionV0 u) ws), rest)"
  using assms
proof (induction ws arbitrary: i fs)
  case (Cons w ws)
  then have "getFunctionV0 i (hex_bytes u (enc_functionV0 w) @ s) =
      Inr ((view_functionV0 u w, kindV0 (sf_type w)), s)" for s
    by (intro getFunctionV0_reads) simp_all
  moreover have "set_typeName0 t (set_typeName0 t' (fs @ [f]) @ gs) = set_typeName0 t (fs @ f # gs)" for t t' f gs
    by (cases fs) simp_all
  ultimately show ?case using Cons by (simp add: pbind_Inr)
qed (simp add: preturn_def)

interpretation moduleV0_reader: reader enc_moduleV0 getModuleV0 view_moduleV0 wf_moduleV0
proof unfold_locales
  fix w u rest
  assume w: "wf_moduleV0 w"
  show "getModuleV0 (hex_bytes u (enc_moduleV0 w) @ rest) = Inr (view_moduleV0 u w, rest)"
  proof (cases "mw0_storage w")
    case None
    with w show ?thesis
      by (simp add: getModuleV0_def enc_moduleV0_def wf_moduleV0_def view_moduleV0_def enc_opt_def dec_thens
          function_callsV0_reader.dec_then preturn_then preturn_def)
  next
    case (Some s)
    obtain p fs where s: "s = (p, fs)" by fastforce
    have fs: "length fs \<le> COLLECTION_SIZE" "list_all wf_functionV0 fs" "length fs < 2147483648"
      using w Some s by (auto simp: wf_moduleV0_def wf_vec_def COLLECTION_SIZE_def)
    have "getFunctionsV0 0 (length fs) [] (hex_bytes u (concat (map enc_functionV0 fs)) @ rest) =
        Inr (view_functionsV0 u fs, rest)"
      using getFunctionsV0_reads [of 0 fs "[]"] fs by (simp add: view_functionsV0_def)
    then have "pbind (getFunctionsV0 0 (length fs) []) f (hex_bytes u (concat (map enc_functionV0 fs)) @ rest) =
        f (view_functionsV0 u fs) rest" for f :: "FunctionV0 list \<Rightarrow> ModuleV0 parser"
      by (simp add: pbind_def)
    with w Some s fs show ?thesis
      by (simp add: getModuleV0_def enc_moduleV0_def wf_moduleV0_def view_moduleV0_def enc_opt_def enc_storageV0_def
          enc_vec_def [of enc_functionV0] dec_thens function_callsV0_reader.dec_then compact_reader.dec_then
          pbind_assoc preturn_then preturn_def)
  qed
qed

interpretation modulesV0_reader: reader "enc_vec enc_moduleV0" "vec32 (\<lambda>i. pbind getModuleV0 (store COLLECTION_SIZE i))"
  "\<lambda>u. map (view_moduleV0 u)" "wf_vec COLLECTION_SIZE wf_moduleV0"
  by (rule reader_vec32 [OF moduleV0_reader.reader_axioms]) simp

interpretation dispatchesV0_reader: reader "enc_vec enc_dispatchV0"
  "vec32 (\<lambda>i. pbind getOuterDispachV0 (store COLLECTION_SIZE i))"
  "\<lambda>_. map view_dispatchV0" "wf_vec COLLECTION_SIZE wf_dispatchV0"
  by (rule reader_vec32, unfold_locales)
    (simp_all add: getOuterDispachV0_def enc_dispatchV0_def wf_dispatchV0_def view_dispatchV0_def dec_thens word_then
      preturn_def)

lemma fillV0_reads:
  "wf_metadataV0 w \<Longrightarrow> fillV0Metadata (hex_bytes u (enc_metadataV0 w) @ rest) = Inr (view_metadataV0 u w)"
  by (simp add: fillV0Metadata_def enc_metadataV0_def wf_metadataV0_def view_metadataV0_def dec_thens
      eventsV0_reader.dec_then modulesV0_reader.dec_then dispatchesV0_reader.dec_then preturn_def)

lemma length_view_functionsV0: "length (view_functionsV0 u fs) = length fs"
  by (cases fs) (simp_all add: view_functionsV0_def)

lemma view_functionsV0_nth:
  assumes "i < length fs"
  shows "view_functionsV0 u fs ! i = (let f = view_functionV0 u (fs ! i) in
    if i = 0 then f\<lparr>f0_type := (f0_type f)\<lparr>ft0_typeName := Some (kindV0 (sf_type (last fs)))\<rparr>\<rparr> else f)"
  using assms by (cases fs; cases i) (simp_all add: view_functionsV0_def Let_def)

lemma view_typeV0_kind: "ft0_typeName (view_typeV0 t) = None"
  by (cases t) simp_all

section \<open>Properties\<close>

definition sample_metadataV0 :: metadata_wireV0 where
  "sample_metadataV0 = \<lparr>w0_events_name = ''Event'', w0_events = [\<lparr>oe0_name = ''e'', oe0_eventArg = []\<rparr>],
     w0_modules = [\<lparr>mw0_prefix = ''p'', mw0_module_name = ''m'', mw0_call_name = ''c'',
       mw0_call_fn1 = [\<lparr>fw_id = (5, 1), fw_name = ''f'', fw_args = [], fw_documentation = []\<rparr>],
       mw0_storage = Some (''s'', [
         \<lparr>sf_name = ''a'', sf_type = PlainV0 ''u8'', sf_fallback = [], sf_documentation = []\<rparr>,
         \<lparr>sf_name = ''b'', sf_type = MapV0 1 ''k'' ''v'', sf_fallback = [10], sf_documentation = []\<rparr>])\<rparr>],
     w0_dispatch_name = ''Call'', w0_dispatch = [(''n'', ''q'', 2, 3)]\<rparr>"

text \<open>
  C23: \<^verbatim>\<open>fillV0Metadata\<close> reads back the wire format of version 0 metadata: events, modules
  with calls and storage, and the outer dispatch. Identifiers and indices keep their low byte,
  and the kinds of the storage functions are kept as \<open>view_functionsV0\<close> says.
\<close>

theorem fillV0Metadata_reads:
  "wf_metadataV0 w \<Longrightarrow> fillV0Metadata (hex_bytes u (enc_metadataV0 w) @ rest) = Inr (view_metadataV0 u w)"
  by (rule fillV0_reads)

theorem fillV0Metadata_reads_witness:
  "fillV0Metadata (hex_bytes False (enc_metadataV0 sample_metadataV0)) =
   Inr \<lparr>md0_oew_name = ''Event'', md0_oew_eventArg = [\<lparr>oe0_name = ''e'', oe0_eventArg = []\<rparr>],
     md0_module = [\<lparr>m0_prefix = ''p'', m0_module_name = ''m'', m0_call_name = ''c'',
       m0_call_fn1 = [\<lparr>fc0_id = 5, fc0_name = ''f'', fc0_args = [], fc0_documentation = []\<rparr>],
       m0_storage = Some \<lparr>st0_prefix = ''s'', st0_function = [
         \<lparr>f0_name = ''a'', f0_type = \<lparr>ft0_typeName = Some 1, ft0_key = None, ft0_value = Some ''u8''\<rparr>,
          f0_fallback = [], f0_documentation = []\<rparr>,
         \<lparr>f0_name = ''b'', f0_type = \<lparr>ft0_typeName = None, ft0_key = Some ''k'', ft0_value = Some ''v''\<rparr>,
          f0_fallback = ''0a'', f0_documentation = []\<rparr>]\<rparr>\<rparr>],
     md0_dispach_name = ''Call'', md0_dispach_call = [\<lparr>dc0_name = ''n'', dc0_prefix = ''q'', dc0_index = 2\<rparr>]\<rparr>"
proof -
  have "wf_metadataV0 sample_metadataV0" by code_simp
  moreover have "hex_bytes False [10] = ''0a''" by code_simp
  ultimately show ?thesis
    using fillV0Metadata_reads [of sample_metadataV0 False "[]"]
    by (simp add: view_metadataV0_def view_moduleV0_def view_functionsV0_def view_functionV0_def kindV0_def
        view_function_callV0_def view_dispatchV0_def sample_metadataV0_def del: hex_bytes_simps(2,3))
qed

text \<open>
  C25: after \<^verbatim>\<open>getModuleV0\<close> the first storage function carries the kind of the last one
  on the wire, and the kind of every other function is never written: the reader stores
  through \<^verbatim>\<open>function->type\<close> and not \<^verbatim>\<open>function[i].type\<close>.
\<close>

theorem getModuleV0_kinds:
  assumes "wf_moduleV0 w" "mw0_storage w = Some (p, fs)" "i < length fs"
  shows "\<exists>m st. getModuleV0 (hex_bytes u (enc_moduleV0 w) @ rest) = Inr (m, rest) \<and> m0_storage m = Some st \<and>
    ft0_typeName (f0_type (st0_function st ! i)) = (if i = 0 then Some (kindV0 (sf_type (last fs))) else None)"
  using assms
  by (simp add: moduleV0_reader.reads view_moduleV0_def view_functionsV0_nth Let_def view_functionV0_def view_typeV0_kind)

theorem getModuleV0_kinds_witness:
  "\<exists>m st. getModuleV0 (hex_bytes True (enc_moduleV0 (hd (w0_modules sample_metadataV0)))) = Inr (m, []) \<and>
    m0_storage m = Some st \<and> ft0_typeName (f0_type (st0_function st ! 0)) = Some 1"
proof -
  have "wf_moduleV0 (hd (w0_modules sample_metadataV0))" by code_simp
  then show ?thesis
    using getModuleV0_kinds [of "hd (w0_modules sample_metadataV0)" "''s''" _ 0 True "[]"]
    by (simp add: sample_metadataV0_def kindV0_def)
qed

end
