(* ===== verification/MetadataFactory.thy ===== *)
theory MetadataFactory
  imports MetadataV0
begin

text \<open>
  The class \<^verbatim>\<open>MetadataFactory\<close> of \<^verbatim>\<open>src/metadatafactory.cpp\<close>: its buffer, the version it
  detected and the lines it logged; one reader per version, each of which turns an exception
  into a null result; and the detection of the version. Undefined behaviour passes through
  \<^verbatim>\<open>catch (...)\<close>.
\<close>

record MetadataFactory =
  mf_buffer :: string
  mf_version :: int
  mf_log :: "string list"

definition new_MetadataFactory :: "string list \<Rightarrow> MetadataFactory" where
  "new_MetadataFactory log = \<lparr>mf_buffer = [], mf_version = -1, mf_log = log\<rparr>"

definition setInputData :: "string \<Rightarrow> MetadataFactory \<Rightarrow> MetadataFactory" where
  "setInputData hexString mf = mf\<lparr>mf_buffer := hexString\<rparr>"

definition log_info :: "string \<Rightarrow> MetadataFactory \<Rightarrow> MetadataFactory" where
  "log_info line mf = mf\<lparr>mf_log := mf_log mf @ [line]\<rparr>"

definition getMetadataV0 :: "MetadataFactory \<Rightarrow> (MDV0 option \<times> MetadataFactory) result" where
  "getMetadataV0 mf =
     try_catch_all
       (rbind (fillV0Metadata (mf_buffer mf)) (\<lambda>md.
          Inr (Some md, log_info ''Metadata version V0 detected'' (mf\<lparr>mf_version := 0\<rparr>))))
       (Inr (None, log_info ''Metadata version is not V0'' mf))"

definition getMetadataV4 :: "MetadataFactory \<Rightarrow> (MDV4 option \<times> MetadataFactory) result" where
  "getMetadataV4 mf =
     try_catch_all
       (rbind (fillV4Metadata (mf_buffer mf)) (\<lambda>md.
          Inr (Some md, log_info ''Metadata version V4 detected'' (mf\<lparr>mf_version := 4\<rparr>))))
       (Inr (None, log_info ''Metadata version is not V4'' mf))"

definition getMetadataV5 :: "MetadataFactory \<Rightarrow> (MDV5 option \<times> MetadataFactory) result" where
  "getMetadataV5 mf =
     try_catch_all
       (rbind (fillV5Metadata (mf_buffer mf)) (\<lambda>md.
          Inr (Some md, log_info ''Metadata version V5 detected'' (mf\<lparr>mf_version := 5\<rparr>))))
       (Inr (None, log_info ''Metadata version is not V5'' mf))"

definition getMetadataV6 :: "MetadataFactory \<Rightarrow> (MDV6 option \<times> MetadataFactory) result" where
  "getMetadataV6 mf =
     try_catch_all
       (rbind (fillV6Metadata (mf_buffer mf)) (\<lambda>md.
          Inr (Some md, log_info ''Metadata version V6 detected'' (mf\<lparr>mf_version := 6\<rparr>))))
       (Inr (None, log_info ''Metadata version is not V6'' mf))"

definition getMetadataV7 :: "MetadataFactory \<Rightarrow> (MDV7 option \<times> MetadataFactory) result" where
  "getMetadataV7 mf =
     try_catch_all
       (rbind (fillV7Metadata (mf_buffer mf)) (\<lambda>md.
          Inr (Some md, log_info ''Metadata version V7 detected'' (mf\<lparr>mf_version := 7\<rparr>))))
       (Inr (None, log_info ''Metadata version is not V7'' mf))"

text \<open>\<^verbatim>\<open>if (_version == -1) get(...)\<close>, the result dropped.\<close>

definition unless_detected ::
  "(MetadataFactory \<Rightarrow> ('md option \<times> MetadataFactory) result) \<Rightarrow> MetadataFactory \<Rightarrow> MetadataFactory result" where
  "unless_detected get mf = (if mf_version mf = -1 then rbind (get mf) (\<lambda>(md, mf'). Inr mf') else Inr mf)"

definition getVersion :: "MetadataFactory \<Rightarrow> (int \<times> MetadataFactory) result" where
  "getVersion mf =
     rbind (getMetadataV0 mf) (\<lambda>(md, mf0).
     rbind (unless_detected getMetadataV5 mf0) (\<lambda>mf5.
     rbind (unless_detected getMetadataV6 mf5) (\<lambda>mf6.
     rbind (unless_detected getMetadataV7 mf6) (\<lambda>mf7.
     Inr (mf_version mf7, mf7)))))"

section \<open>Lemmas\<close>

lemmas getMetadata_defs = getMetadataV0_def getMetadataV4_def getMetadataV5_def getMetadataV6_def getMetadataV7_def

lemma try_catch_all_Inr_iff:
  "try_catch_all r h = Inr x \<longleftrightarrow> r = Inr x \<or> (\<exists>e. r = Inl (Throw e)) \<and> h = Inr x"
proof (cases r)
  case (Inl e)
  then show ?thesis by (cases e) auto
qed simp

text \<open>A reader either detects its own version or leaves the version alone.\<close>

lemma getMetadata_version:
  "getMetadataV0 mf = Inr (md0, mf') \<Longrightarrow> mf_version mf' = 0 \<or> mf_version mf' = mf_version mf"
  "getMetadataV5 mf = Inr (md5, mf') \<Longrightarrow> mf_version mf' = 5 \<or> mf_version mf' = mf_version mf"
  "getMetadataV6 mf = Inr (md6, mf') \<Longrightarrow> mf_version mf' = 6 \<or> mf_version mf' = mf_version mf"
  "getMetadataV7 mf = Inr (md7, mf') \<Longrightarrow> mf_version mf' = 7 \<or> mf_version mf' = mf_version mf"
  by (auto simp: getMetadata_defs try_catch_all_Inr_iff log_info_def)

lemma nextByte_nil: "nextByte [] = Inl (Throw OutOfRange)"
  by (simp add: nextByte_def substr_from_def)

lemma extractString_loop_short:
  "length bs < n \<Longrightarrow> extractString_loop n acc (hex_bytes u bs) = Inl (Throw OutOfRange)"
proof (induction n arbitrary: acc bs)
  case (Suc n)
  then show ?case by (cases bs) (simp_all add: nextByte_nil nextByte_hex)
qed simp

text \<open>
  Read as version 0, the magic \<^verbatim>\<open>meta\<close> is a string length of 6491: a shorter blob makes
  the reader of version 0 run off its end.
\<close>

definition meta_magic :: "byte list" where
  "meta_magic = [0x6D, 0x65, 0x74, 0x61]"

lemma decode_meta: "decodeCompactInteger (hex_bytes u [0x6D, 0x65] @ rest) = Inr (6491, rest)"
proof -
  have "le_bytes 2 (4 * 6491 + 1) = [0x6D, 0x65]" by code_simp
  then show ?thesis using decode_mode2 [of 6491 u rest] by simp
qed

lemma fillV0_meta:
  assumes "length bs < 6489"
  shows "fillV0Metadata (hex_bytes u (meta_magic @ bs)) = Inl (Throw OutOfRange)"
proof -
  have "nextString (hex_bytes u (meta_magic @ bs)) = extractString_loop 6491 [] (hex_bytes u ([0x74, 0x61] @ bs))"
    using decode_meta [of u "hex_bytes u ([0x74, 0x61] @ bs)"]
    by (simp add: nextString_def pbind_Inr meta_magic_def extractString_def to_int32_def)
  also have "\<dots> = Inl (Throw OutOfRange)"
    using assms by (intro extractString_loop_short) simp
  finally have "nextCString (hex_bytes u (meta_magic @ bs)) = Inl (Throw OutOfRange)"
    by (simp add: nextCString_def pbind_Inl)
  then show ?thesis by (simp add: fillV0Metadata_def pbind_Inl)
qed

section \<open>Properties\<close>

text \<open>
  The version a fresh factory reports is -1, 0, 5, 6 or 7, whatever the buffer holds;
  version 4 is never tried.
\<close>

theorem getVersion_range:
  assumes "getVersion (setInputData hex (new_MetadataFactory log)) = Inr (v, mf)"
  shows "v \<in> {-1, 0, 5, 6, 7} \<and> v = mf_version mf"
  using assms
  by (auto simp: getVersion_def unless_detected_def setInputData_def new_MetadataFactory_def split: if_splits
      dest!: getMetadata_version)

theorem getVersion_range_witness:
  "getVersion (setInputData ''00'' (new_MetadataFactory [])) =
     Inr (-1, \<lparr>mf_buffer = ''00'', mf_version = -1, mf_log = [''Metadata version is not V0'',
       ''Metadata version is not V5'', ''Metadata version is not V6'', ''Metadata version is not V7'']\<rparr>) \<and>
   (-1 :: int) \<in> {-1, 0, 5, 6, 7}"
proof -
  have "getVersion (setInputData ''00'' (new_MetadataFactory [])) =
     Inr (-1, \<lparr>mf_buffer = ''00'', mf_version = -1, mf_log = [''Metadata version is not V0'',
       ''Metadata version is not V5'', ''Metadata version is not V6'', ''Metadata version is not V7'']\<rparr>)"
    by code_simp
  then show ?thesis using getVersion_range [of "''00''" "[]"] by blast
qed

text \<open>
  C26: the wire format of version 5 is reported as version 5, whatever its version byte
  says, for blobs of fewer than 6493 bytes: version 0 fails on the magic and the version
  byte is skipped unread.
\<close>

theorem getVersion_V5:
  assumes "wf_vec COLLECTION_SIZE (wf_module wf_type) ms"
    and "length (enc_vec (enc_module enc_type) ms) < 6488"
  shows "\<exists>mf. getVersion (setInputData (hex_bytes u (meta_magic @ [version] @ enc_vec (enc_module enc_type) ms))
      (new_MetadataFactory log)) = Inr (5, mf)"
proof -
  let ?blob = "hex_bytes u (meta_magic @ [version] @ enc_vec (enc_module enc_type) ms)"
  have "fillV0Metadata ?blob = Inl (Throw OutOfRange)"
    by (rule fillV0_meta) (use assms(2) in simp)
  moreover have "fillV5Metadata ?blob = Inr (map (view_moduleV5 u) ms)"
    using fill_reads [OF moduleV5_reader.reader_axioms _ assms(1), of "meta_magic @ [version]" u "[]"]
    by (simp add: fillV5Metadata_def meta_magic_def del: hex_bytes_simps)
  ultimately show ?thesis
    by (simp add: getVersion_def getMetadataV0_def getMetadataV5_def unless_detected_def setInputData_def
        new_MetadataFactory_def log_info_def del: hex_bytes_simps)
qed

theorem getVersion_V5_witness:
  "\<exists>mf. getVersion (setInputData (hex_bytes False (meta_magic @ [7] @ enc_vec (enc_module enc_type) [sample_module]))
      (new_MetadataFactory [])) = Inr (5, mf)"
  by (rule getVersion_V5; code_simp)

end
