(* ===== verification/Converters.thy ===== *)
theory Converters
  imports Scale
begin

unbundle bit_operations_syntax

text \<open>
  The number and hex conversions of \<^verbatim>\<open>src/utils/converters.cpp\<close>. Strings are shorter than
  $2^{31}$ characters, so the \<^verbatim>\<open>int\<close> offsets cannot overflow.
\<close>

section \<open>Hexadecimal bytes\<close>

definition fromHexDigit :: "byte \<Rightarrow> byte" where
  "fromHexDigit digit =
     (if 97 \<le> digit \<and> digit \<le> 102 then digit - 97 + 10
      else if 65 \<le> digit \<and> digit \<le> 70 then digit - 65 + 10
      else if 48 \<le> digit \<and> digit \<le> 57 then digit - 48
      else digit)"

definition fromHexByte :: "char \<Rightarrow> char \<Rightarrow> byte" where
  "fromHexByte c1 c2 =
     push_bit 4 (fromHexDigit (word_of_int (of_char c1))) OR fromHexDigit (word_of_int (of_char c2))"

text \<open>\<^verbatim>\<open>if ((hexStr[0] == '0') && (hexStr[1] == 'x')) offset = 2\<close>.\<close>

definition hex_start :: "string \<Rightarrow> nat" where
  "hex_start hexStr = (case hexStr of c # d # _ \<Rightarrow> if c = CHR ''0'' \<and> d = CHR ''x'' then 2 else 0 | _ \<Rightarrow> 0)"

text \<open>
  The template for an unsigned type: the loop over what is left of the string, which reads
  the terminating NUL as second digit when the length is odd.
\<close>

fun fromHex_loop :: "bool \<Rightarrow> string \<Rightarrow> nat \<Rightarrow> 'a :: len word \<Rightarrow> 'a word result" where
  "fromHex_loop bigEndianBytes [] byteOffset result = Inr result"
| "fromHex_loop bigEndianBytes (c # cs) byteOffset result =
     (let byte = fromHexByte c (case cs of [] \<Rightarrow> NUL | d # _ \<Rightarrow> d) in
      if bigEndianBytes then fromHex_loop bigEndianBytes (tl cs) byteOffset (push_bit 8 result OR ucast byte)
      else if byteOffset < LENGTH('a)
      then fromHex_loop bigEndianBytes (tl cs) (byteOffset + 8) (push_bit byteOffset (ucast byte) OR result)
      else Inl (Undefined BadShift))"

definition fromHex :: "string \<Rightarrow> bool \<Rightarrow> 'a :: len word result" where
  "fromHex hexStr bigEndianBytes = fromHex_loop bigEndianBytes (drop (hex_start hexStr) hexStr) 0 0"

text \<open>
  The template for \<^verbatim>\<open>long long\<close>: a shift of a negative value, or one whose result does not
  fit 64 bits, is undefined.
\<close>

definition shl64 :: "int \<Rightarrow> nat \<Rightarrow> int result" where
  "shl64 x n =
     (if 64 \<le> n then Inl (Undefined BadShift)
      else if x < 0 \<or> 2 ^ 64 \<le> x * 2 ^ n then Inl (Undefined SignedOverflow)
      else Inr (to_int64 (x * 2 ^ n)))"

fun fromHex_ll_loop :: "bool \<Rightarrow> string \<Rightarrow> nat \<Rightarrow> int \<Rightarrow> int result" where
  "fromHex_ll_loop bigEndianBytes [] byteOffset result = Inr result"
| "fromHex_ll_loop bigEndianBytes (c # cs) byteOffset result =
     (let byte = fromHexByte c (case cs of [] \<Rightarrow> NUL | d # _ \<Rightarrow> d) in
      if bigEndianBytes then
        rbind (shl64 result 8) (\<lambda>r. fromHex_ll_loop bigEndianBytes (tl cs) byteOffset (r OR uint byte))
      else
        rbind (shl64 (uint byte) byteOffset) (\<lambda>w.
          fromHex_ll_loop bigEndianBytes (tl cs) (byteOffset + 8) (w OR result)))"

definition fromHex_ll :: "string \<Rightarrow> bool \<Rightarrow> int result" where
  "fromHex_ll hexStr bigEndianBytes = fromHex_ll_loop bigEndianBytes (drop (hex_start hexStr) hexStr) 0 0"

text \<open>
  The specialisation for \<^verbatim>\<open>vector<uint8_t>\<close>. It reads at least one byte; \<open>hex_at\<close> is the byte
  at an offset, which may use the terminating NUL but nothing beyond.
\<close>

definition hex_at :: "string \<Rightarrow> int \<Rightarrow> byte result" where
  "hex_at s offset =
     (if 0 \<le> offset \<and> offset < int (length s)
      then Inr (fromHexByte (s ! nat offset) (if nat offset + 1 < length s then s ! (nat offset + 1) else NUL))
      else Inl (Undefined OutOfBounds))"

function fromHex_vec_up :: "string \<Rightarrow> int \<Rightarrow> byte list result" where
  "fromHex_vec_up s offset =
     rbind (hex_at s offset) (\<lambda>byte.
       if int (length s) \<le> offset + 2 then Inr [byte]
       else rbind (fromHex_vec_up s (offset + 2)) (\<lambda>result. Inr (byte # result)))"
  by pat_completeness auto
termination
  by (relation "measure (\<lambda>(s, offset). nat (int (length s) - offset))") auto

function fromHex_vec_down :: "string \<Rightarrow> int \<Rightarrow> int \<Rightarrow> byte list result" where
  "fromHex_vec_down s start offset =
     rbind (hex_at s offset) (\<lambda>byte.
       if offset - 2 < start then Inr [byte]
       else rbind (fromHex_vec_down s start (offset - 2)) (\<lambda>result. Inr (byte # result)))"
  by pat_completeness auto
termination
  by (relation "measure (\<lambda>(s, start, offset). nat (offset - start))") auto

declare fromHex_vec_up.simps [simp del] fromHex_vec_down.simps [simp del]

definition fromHex_vec :: "string \<Rightarrow> bool \<Rightarrow> byte list result" where
  "fromHex_vec hexStr bigEndianBytes =
     (let start = int (hex_start hexStr) in
      if bigEndianBytes then fromHex_vec_up hexStr start
      else fromHex_vec_down hexStr start (int (length hexStr) - 2))"

section \<open>Decimal numbers\<close>

text \<open>
  \<^verbatim>\<open>atoi128\<close>: the digits are halved in place, most significant first, and the bits that
  fall out build the result. The list is the part of \<^verbatim>\<open>scratch\<close> from \<^verbatim>\<open>scanstart\<close> on: what
  lies before it is never read again.
\<close>

definition atoi_space :: "char \<Rightarrow> bool" where
  "atoi_space c \<longleftrightarrow> c \<in> {CHR '' '', CHR 0x09, CHR 0x0A, CHR ''+''}"

definition is_digit :: "char \<Rightarrow> bool" where
  "is_digit c \<longleftrightarrow> 48 \<le> (of_char c :: int) \<and> (of_char c :: int) \<le> 57"

text \<open>One right shift of the digits; the flag says that the digit to the left was odd.\<close>

fun atoi_shift :: "bool \<Rightarrow> int list \<Rightarrow> int list" where
  "atoi_shift left_odd [] = []"
| "atoi_shift left_odd (d # ds) =
     (if left_odd then drop_bit 1 d OR 8 else drop_bit 1 d) # atoi_shift (d AND 1 = 1) ds"

definition atoi_correct :: "int \<Rightarrow> int" where
  "atoi_correct d = (if d > 7 then d - 3 else d)"

partial_function (option) atoi_loop :: "int list \<Rightarrow> uint128 \<Rightarrow> uint128 \<Rightarrow> uint128 option" where
  "atoi_loop scratch result msk =
     (if scratch = [] then Some result
      else atoi_loop (map atoi_correct (dropWhile (\<lambda>d. d = 0) (atoi_shift False scratch)))
             (if last scratch AND 1 = 1 then result OR msk else result) (push_bit 1 msk))"

definition atoi128 :: "string \<Rightarrow> uint128 option result" where
  "atoi128 str =
     (let s = dropWhile atoi_space (c_str str);
          (sign, s') = (case s of c # cs \<Rightarrow> if c = CHR ''-'' then (-1, cs) else (1, s) | [] \<Rightarrow> (1, s));
          digits = takeWhile is_digit s'
      in if length digits \<le> 255
         then Inr (map_option (\<lambda>r. r * word_of_int sign) (atoi_loop (map (\<lambda>c. of_char c - 48) digits) 0 1))
         else Inl (Undefined OutOfBounds))"

section \<open>Lemmas\<close>

lemma fromHexDigit_hex_digit:
  assumes "nibble n"
  shows "fromHexDigit (word_of_int (of_char (hex_digit u n))) = word_of_int n"
proof -
  have "n \<in> set [0..15]" using assms by (simp add: nibble_def)
  then have "n \<in> set [0, 1, 2, 3, 4, 5, 6, 7, 8, 9, 10, 11, 12, 13, 14, 15]" by (simp add: upto_rec1)
  then show ?thesis using of_char_hex_digit [OF assms, of u]
    by (simp only: list.set insert_iff empty_iff) (elim disjE; simp add: fromHexDigit_def word_le_def)
qed

lemma push_or_nibbles: "push_bit 4 (word_of_int (uint b div 16)) OR word_of_int (uint b mod 16) = (b :: byte)"
proof -
  have "word_of_int (uint b div 16) = drop_bit 4 b"
    by (rule word_uint_eqI) (use uint_drop_bit [of 4 b] byte_nibbles(1) [of b] in
      \<open>simp add: uint_word_of_int mod_pos_pos_trivial nibble_def\<close>)
  moreover have "word_of_int (uint b mod 16) = take_bit 4 b"
    by (rule word_uint_eqI) (use byte_nibbles(2) [of b] in
      \<open>simp add: uint_take_bit uint_word_of_int mod_pos_pos_trivial nibble_def\<close>)
  ultimately show ?thesis
    by (simp only:) (rule bit_word_eqI, auto simp: bit_simps)
qed

lemma fromHexByte_hex [codec_simps]: "fromHexByte (hex_digit u (uint b div 16)) (hex_digit u (uint b mod 16)) = b"
  by (simp only: fromHexByte_def fromHexDigit_hex_digit byte_nibbles push_or_nibbles)

lemma hex_start_prefix [simp]: "hex_start (CHR ''0'' # CHR ''x'' # s) = 2"
  by (simp add: hex_start_def)

lemma hex_start_hex_bytes [simp]: "hex_start (hex_bytes u bs) = 0"
  by (cases bs) (simp_all add: hex_start_def hex_byte_def)

definition be_int :: "byte list \<Rightarrow> int" where
  "be_int bs = foldl (\<lambda>a b. 256 * a + uint b) 0 bs"

fun le_int :: "byte list \<Rightarrow> int" where
  "le_int [] = 0"
| "le_int (b # bs) = uint b + 256 * le_int bs"

lemma push_8_or: "push_bit 8 w OR ucast (b :: byte) = 256 * w + (ucast b :: 'a :: len word)"
proof -
  have "push_bit 8 w AND ucast b = (0 :: 'a word)"
    by (rule bit_word_eqI) (auto simp: bit_simps dest: bit_imp_le_length)
  then show ?thesis by (simp add: disjunctive_add_eq_or [symmetric] push_bit_eq_mult mult.commute)
qed

lemma fromHex_loop_be:
  "fromHex_loop True (hex_bytes u bs) k (word_of_int a :: 'a :: len word) =
     Inr (word_of_int (foldl (\<lambda>a b. 256 * a + uint b) a bs))"
proof (induction bs arbitrary: a)
  case (Cons b bs)
  have "push_bit 8 (word_of_int a) OR ucast b = (word_of_int (256 * a + uint b) :: 'a word)"
    unfolding push_8_or by (simp only: ucast_eq of_int_add of_int_mult of_int_numeral)
  with Cons show ?case by (simp add: hex_byte_def fromHexByte_hex Let_def del: of_int_add of_int_mult)
qed simp

lemma le_int_nonneg [simp]: "0 \<le> le_int bs"
  by (induction bs) simp_all

lemma le_int_less: "le_int bs < 256 ^ length bs"
proof (induction bs)
  case (Cons b bs)
  then show ?case using uint_byte_less [of b] by (simp; linarith)
qed simp

lemma push_bit_or_below:
  assumes "uint w < 2 ^ k"
  shows "push_bit k v OR w = push_bit k v + (w :: 'a :: len word)"
proof -
  have "take_bit k w = w" using assms by (simp add: word_uint_eq_iff uint_take_bit)
  then have "i < k" if "bit w i" for i using that by (metis bit_take_bit_iff)
  then have "push_bit k v AND w = 0"
    by (intro bit_word_eqI) (force simp: bit_simps dest: not_less [THEN iffD2])
  then show ?thesis by (simp add: disjunctive_add_eq_or)
qed

lemma fromHex_loop_le:
  "8 * (j + length bs) \<le> LENGTH('a) \<Longrightarrow> uint r < 256 ^ j \<Longrightarrow>
    fromHex_loop False (hex_bytes u bs) (8 * j) (r :: 'a :: len word) =
      Inr (word_of_int (uint r + 256 ^ j * le_int bs))"
proof (induction bs arbitrary: j r)
  case (Cons b bs)
  define r' where "r' = push_bit (8 * j) (ucast b) OR r"
  have p: "(256 :: int) ^ j = 2 ^ (8 * j)" by (simp add: power_mult)
  have "r' = push_bit (8 * j) (ucast b) + r"
    unfolding r'_def by (rule push_bit_or_below) (use Cons.prems p in simp)
  also have "\<dots> = word_of_int (uint r + 256 ^ j * uint b)"
    unfolding p by (simp only: push_bit_eq_mult ucast_eq of_int_add of_int_mult of_int_power of_int_numeral word_of_int_uint)
      (simp add: mult.commute)
  finally have r': "r' = word_of_int (uint r + 256 ^ j * uint b)" .
  have "(256::int) ^ j * uint b \<le> 256 ^ j * 255" using uint_byte_less [of b] by (intro mult_left_mono) auto
  then have s: "uint r + 256 ^ j * uint b < 256 ^ Suc j" using Cons.prems(2) unfolding power_Suc by linarith
  have "(2::int) ^ (8 * Suc j) \<le> 2 ^ LENGTH('a)" using Cons.prems(1) by (intro power_increasing) auto
  moreover have "(256::int) ^ Suc j = 2 ^ (8 * Suc j)" by (simp only: power_mult) simp
  ultimately have "uint r + 256 ^ j * uint b < 2 ^ LENGTH('a)" using s by linarith
  then have u: "uint r' = uint r + 256 ^ j * uint b"
    unfolding r' uint_word_of_int by (intro mod_pos_pos_trivial) simp_all
  have "fromHex_loop False (hex_bytes u bs) (8 * Suc j) r' = Inr (word_of_int (uint r' + 256 ^ Suc j * le_int bs))"
    using Cons.prems s u by (intro Cons.IH) simp_all
  moreover have "uint r' + 256 ^ Suc j * le_int bs = uint r + 256 ^ j * le_int (b # bs)"
    unfolding u by (simp add: algebra_simps)
  ultimately show ?case
    using Cons.prems by (simp add: hex_byte_def fromHexByte_hex Let_def r'_def add.commute del: of_int_add of_int_mult)
qed simp

lemma hex_at_hex_bytes:
  assumes "i < length bs" "length pre = k"
  shows "hex_at (pre @ hex_bytes u bs) (int k + 2 * int i) = Inr (bs ! i)"
proof -
  define l r where "l = pre @ hex_bytes u (take i bs)" and "r = hex_bytes u (drop (Suc i) bs)"
  have "bs = take i bs @ bs ! i # drop (Suc i) bs" using assms by (simp add: id_take_nth_drop)
  then have s: "pre @ hex_bytes u bs = l @ hex_byte u (bs ! i) @ r"
    by (metis append.assoc hex_bytes_simps(2,3) l_def r_def)
  have l: "nat (int k + 2 * int i) = length l" using assms by (simp add: l_def nat_add_distrib nat_mult_distrib)
  show ?thesis unfolding hex_at_def l s
    using assms l by (simp add: hex_byte_def nth_append fromHexByte_hex)
qed

lemma fromHex_vec_up_hex:
  assumes "i < length bs" "length pre = k"
  shows "fromHex_vec_up (pre @ hex_bytes u bs) (int k + 2 * int i) = Inr (drop i bs)"
  using assms
proof (induction "length bs - i" arbitrary: i)
  case (Suc n)
  have b: "hex_at (pre @ hex_bytes u bs) (int k + 2 * int i) = Inr (bs ! i)" using Suc.prems by (rule hex_at_hex_bytes)
  have d: "drop i bs = bs ! i # drop (Suc i) bs" using Suc.prems by (simp add: Cons_nth_drop_Suc)
  show ?case
  proof (cases "Suc i < length bs")
    case True
    then have "fromHex_vec_up (pre @ hex_bytes u bs) (int k + 2 * int (Suc i)) = Inr (drop (Suc i) bs)"
      using Suc by (intro Suc.hyps) simp_all
    with True b d Suc.prems(2) show ?thesis by (subst fromHex_vec_up.simps) (simp add: algebra_simps)
  next
    case False
    with b d Suc.prems show ?thesis by (subst fromHex_vec_up.simps) simp
  qed
qed simp

lemma fromHex_vec_down_hex:
  assumes "i < length bs" "length pre = k"
  shows "fromHex_vec_down (pre @ hex_bytes u bs) (int k) (int k + 2 * int i) = Inr (rev (take (Suc i) bs))"
  using assms
proof (induction i)
  case (Suc i)
  have b: "hex_at (pre @ hex_bytes u bs) (int k + 2 * int (Suc i)) = Inr (bs ! Suc i)" using Suc.prems by (rule hex_at_hex_bytes)
  have "fromHex_vec_down (pre @ hex_bytes u bs) (int k) (int k + 2 * int i) = Inr (rev (take (Suc i) bs))"
    using Suc by simp
  with b Suc.prems show ?case
    by (subst fromHex_vec_down.simps) (simp add: take_Suc_conv_app_nth algebra_simps)
next
  case 0
  then show ?case using hex_at_hex_bytes [of 0 bs pre k u]
    by (subst fromHex_vec_down.simps) (simp add: take_Suc_conv_app_nth)
qed

subsection \<open>Decimal digits\<close>

definition digits_ok :: "int list \<Rightarrow> bool" where
  "digits_ok ds \<longleftrightarrow> list_all (\<lambda>d. 0 \<le> d \<and> d \<le> 9) ds"

fun decimal :: "int list \<Rightarrow> int" where
  "decimal [] = 0"
| "decimal (d # ds) = d * 10 ^ length ds + decimal ds"

lemma decimal_nonneg: "digits_ok ds \<Longrightarrow> 0 \<le> decimal ds"
  by (induction ds) (simp_all add: digits_ok_def)

lemma decimal_dropWhile_0 [simp]: "decimal (dropWhile (\<lambda>d. d = 0) ds) = decimal ds"
  by (induction ds) simp_all

lemma decimal_odd: "ds \<noteq> [] \<Longrightarrow> odd (decimal ds) = odd (last ds)"
  by (induction ds) (auto simp: odd_pos)

lemma length_atoi_shift [simp]: "length (atoi_shift c ds) = length ds"
  by (induction ds arbitrary: c) simp_all

text \<open>One shifted and corrected digit: half of the digit, plus five if the digit to the left was odd.\<close>

lemma atoi_digit:
  assumes "0 \<le> d" "d \<le> 9"
  shows "atoi_correct (if c then drop_bit 1 d OR 8 else drop_bit 1 d) = (if c then 5 else 0) + d div 2"
proof -
  have "d \<in> {0, 1, 2, 3, 4, 5, 6, 7, 8, 9}" unfolding insert_iff empty_iff using assms by presburger
  then show ?thesis by (auto simp: atoi_correct_def)
qed

lemma and_1_odd: "(d AND 1 = 1) = odd (d :: int)"
  by (simp add: and_one_eq odd_iff_mod_2_eq_one)

lemma atoi_shift_half:
  assumes "digits_ok ds"
  shows "decimal (map atoi_correct (atoi_shift c ds)) = ((if c then 10 ^ length ds else 0) + decimal ds) div 2"
  using assms
proof (induction ds arbitrary: c)
  case (Cons d ds)
  define n where "n = length ds"
  have IH: "decimal (map atoi_correct (atoi_shift (odd d) ds)) = ((if odd d then 10 ^ n else 0) + decimal ds) div 2"
    using Cons unfolding n_def by (simp add: digits_ok_def)
  have d: "0 \<le> d" "d \<le> 9" using Cons.prems by (simp_all add: digits_ok_def)
  have "decimal (map atoi_correct (atoi_shift c (d # ds))) =
      ((if c then 5 else 0) + d div 2) * 10 ^ n + ((if odd d then 10 ^ n else 0) + decimal ds) div 2"
    using atoi_digit [OF d, of c] IH by (simp add: and_1_odd n_def)
  also have "\<dots> = (2 * (((if c then 5 else 0) + d div 2) * 10 ^ n) + ((if odd d then 10 ^ n else 0) + decimal ds)) div 2"
    by (simp only: div_mult_self4)
  also have "2 * (((if c then 5 else 0) + d div 2) * 10 ^ n) + ((if odd d then 10 ^ n else 0) + decimal ds) =
      (if c then 10 ^ length (d # ds) else 0) + decimal (d # ds)"
  proof -
    have "d = 2 * (d div 2) + (if odd d then 1 else 0)" by (auto elim: oddE evenE)
    then have "d * 10 ^ n = (2 * (d div 2) + (if odd d then 1 else 0)) * 10 ^ n" by (rule arg_cong)
    also have "\<dots> = 2 * (d div 2 * 10 ^ n) + (if odd d then 10 ^ n else 0)" by (simp add: distrib_right)
    finally have "d * 10 ^ n = 2 * (d div 2 * 10 ^ n) + (if odd d then 10 ^ n else 0)" .
    moreover have "2 * (((if c then 5 else 0) + d div 2) * 10 ^ n) =
        (if c then 10 * 10 ^ n else 0) + 2 * (d div 2 * 10 ^ n)" by (simp add: distrib_right)
    ultimately show ?thesis by (simp add: n_def)
  qed
  finally show ?case .
qed simp

lemma digits_ok_step:
  assumes "digits_ok ds"
  shows "digits_ok (map atoi_correct (atoi_shift c ds))"
  using assms
proof (induction ds arbitrary: c)
  case (Cons d ds)
  then have "0 \<le> d" "d \<le> 9" by (simp_all add: digits_ok_def)
  then show ?case using Cons by (simp add: digits_ok_def atoi_digit) linarith
qed (simp add: digits_ok_def)

lemma digits_ok_dropWhile: "digits_ok ds \<Longrightarrow> digits_ok (dropWhile P ds)"
  by (induction ds) (simp_all add: digits_ok_def)

text \<open>Skipping zeros commutes with the correction, which keeps zero.\<close>

lemma correct_dropWhile:
  assumes "\<forall>d \<in> set ds. 0 \<le> d"
  shows "map atoi_correct (dropWhile (\<lambda>d. d = 0) ds) = dropWhile (\<lambda>d. d = 0) (map atoi_correct ds)"
  using assms by (induction ds) (auto simp: atoi_correct_def)

lemma atoi_shift_nonneg: "digits_ok ds \<Longrightarrow> \<forall>d \<in> set (atoi_shift c ds). 0 \<le> d"
  by (induction ds arbitrary: c) (auto simp: digits_ok_def)

lemma decimal_zero: "digits_ok ds \<Longrightarrow> decimal ds = 0 \<Longrightarrow> dropWhile (\<lambda>d. d = 0) ds = []"
proof (induction ds)
  case (Cons d ds)
  have n: "0 \<le> decimal ds" "0 \<le> d" using Cons.prems by (auto intro: decimal_nonneg simp: digits_ok_def)
  have z: "d * 10 ^ length ds + decimal ds = 0" using Cons.prems by simp
  moreover have "0 \<le> d * 10 ^ length ds" using n by simp
  ultimately have "d * 10 ^ length ds = 0" "decimal ds = 0" using n by linarith+
  then show ?case using Cons by (simp add: digits_ok_def)
qed simp

lemma atoi_loop_decimal:
  assumes "digits_ok ds" "\<forall>i. bit result i \<longrightarrow> i < k"
  shows "atoi_loop ds result (push_bit k 1) = Some (result + push_bit k (word_of_int (decimal ds)))"
  using assms
proof (induction "nat (decimal ds) + length ds" arbitrary: ds result k rule: less_induct)
  case less
  show ?case
  proof (cases "ds = []")
    case True
    then show ?thesis by (simp add: atoi_loop.simps)
  next
    case False
    define ds' where "ds' = map atoi_correct (dropWhile (\<lambda>d. d = 0) (atoi_shift False ds))"
    define result' where "result' = (if last ds AND 1 = 1 then result OR push_bit k 1 else result)"
    have ds': "ds' = dropWhile (\<lambda>d. d = 0) (map atoi_correct (atoi_shift False ds))"
      unfolding ds'_def by (rule correct_dropWhile [OF atoi_shift_nonneg [OF less.prems(1)]])
    have ok': "digits_ok ds'" unfolding ds' by (intro digits_ok_dropWhile digits_ok_step less.prems)
    have dec: "decimal ds' = decimal ds div 2" unfolding ds' using atoi_shift_half [OF less.prems(1), of False] by simp
    have len: "length ds' \<le> length ds" unfolding ds' by (metis length_atoi_shift length_dropWhile_le length_map)
    have nn: "0 \<le> decimal ds" using less.prems by (simp add: decimal_nonneg)
    have "nat (decimal ds') + length ds' < nat (decimal ds) + length ds"
    proof (cases "decimal ds = 0")
      case True
      then have "ds' = []" unfolding ds' using decimal_zero [OF digits_ok_step [OF less.prems(1), of False]] dec
        by (simp add: atoi_shift_half [OF less.prems(1)])
      then show ?thesis using False by simp
    next
      case False
      then have "decimal ds div 2 < decimal ds" using nn by simp
      then show ?thesis using dec len nn by simp
    qed
    moreover have disj: "result AND push_bit k 1 = 0"
      by (rule bit_word_eqI) (use less.prems(2) in \<open>auto simp: bit_simps\<close>)
    moreover have "\<forall>i. bit result' i \<longrightarrow> i < Suc k"
      using less.prems(2) by (auto simp: result'_def bit_simps less_Suc_eq)
    ultimately have loop: "atoi_loop ds' result' (push_bit (Suc k) 1) =
        Some (result' + push_bit (Suc k) (word_of_int (decimal ds')))"
      using ok' by (intro less.hyps)
    have "result' = result + push_bit k (word_of_int (decimal ds mod 2))"
    proof (cases "odd (decimal ds)")
      case True
      then have "decimal ds mod 2 = 1" by presburger
      with True show ?thesis using decimal_odd [OF False] disj by (simp add: result'_def and_1_odd disjunctive_add_eq_or)
    next
      case even: False
      then have "decimal ds mod 2 = 0" by presburger
      with even show ?thesis using decimal_odd [OF False] by (simp add: result'_def and_1_odd)
    qed
    then have "result' + push_bit (Suc k) (word_of_int (decimal ds')) =
        result + push_bit k (word_of_int (decimal ds mod 2) + word_of_int (2 * (decimal ds div 2)))"
      by (simp add: dec push_bit_eq_mult algebra_simps)
    also have "word_of_int (decimal ds mod 2) + word_of_int (2 * (decimal ds div 2)) = (word_of_int (decimal ds) :: uint128)"
      by (simp only: of_int_add [symmetric] mod_mult_div_eq)
    finally have "result' + push_bit (Suc k) (word_of_int (decimal ds')) = result + push_bit k (word_of_int (decimal ds))" .
    moreover have "atoi_loop ds result (push_bit k 1) = atoi_loop ds' result' (push_bit (Suc k) 1)"
      using False by (subst atoi_loop.simps) (simp only: ds'_def result'_def if_False push_bit_push_bit plus_1_eq_Suc)
    ultimately show ?thesis using loop by simp
  qed
qed

lemma is_digit_cases:
  assumes "is_digit c"
  shows "c \<noteq> NUL" "\<not> atoi_space c" "c \<noteq> CHR ''-''"
  using assms by (auto simp: is_digit_def atoi_space_def)

lemma atoi128_digits:
  assumes "list_all atoi_space sp" "list_all is_digit ds" "length ds \<le> 255"
  shows "atoi128 (sp @ (if neg then ''-'' else []) @ ds) =
    Inr (Some (word_of_int (if neg then -1 else 1) * word_of_int (decimal (map (\<lambda>c. of_char c - 48) ds))))"
proof -
  have "digits_ok (map (\<lambda>c. of_char c - 48) ds)"
    using assms(2) by (auto simp: digits_ok_def list_all_iff is_digit_def)
  then have loop: "atoi_loop (map (\<lambda>c. of_char c - 48) ds) 0 1 =
      Some (word_of_int (decimal (map (\<lambda>c. of_char c - 48) ds)))"
    using atoi_loop_decimal [of "map (\<lambda>c. of_char c - 48) ds" 0 0] by simp
  let ?t = "(if neg then ''-'' else []) @ ds"
  have "\<not> atoi_space NUL" by (simp add: atoi_space_def)
  then have "NUL \<notin> set sp" using assms(1) by (auto simp: list_all_iff)
  moreover have "NUL \<notin> set ds" using assms(2) is_digit_cases(1) [of NUL] by (auto simp: list_all_iff)
  ultimately have "NUL \<notin> set (sp @ ?t)" by simp
  then have c: "c_str (sp @ ?t) = sp @ ?t" by (rule c_str_id)
  have d: "dropWhile atoi_space (sp @ ?t) = ?t"
  proof -
    have "dropWhile atoi_space ?t = ?t"
      using assms(2) is_digit_cases(2) [of "hd ds"] by (cases ds) (simp_all add: atoi_space_def [of "CHR ''-''"])
    then show ?thesis using assms(1) by (simp add: list_all_iff dropWhile_append)
  qed
  have t: "takeWhile is_digit ds = ds" using assms(2) by (simp add: takeWhile_eq_all_conv list_all_iff)
  have m: "(case ds of [] \<Rightarrow> (1, ds) | c # cs \<Rightarrow> if c = CHR ''-'' then (-1, cs) else (1, ds)) = (1 :: int, ds)"
    using assms(2) is_digit_cases(3) [of "hd ds"] by (cases ds) simp_all
  show ?thesis
  proof (cases neg)
    case True
    then show ?thesis unfolding atoi128_def c d Let_def using assms(3) by (simp add: t loop mult.commute)
  next
    case False
    then have e: "?t = ds" by simp
    show ?thesis unfolding atoi128_def c d Let_def unfolding e using assms(3) False by (simp add: t m loop)
  qed
qed

text \<open>The values of the two templates on hexadecimal text, with or without prefix.\<close>

lemma fromHex_hex:
  assumes "pre = [] \<or> pre = ''0x''"
  shows "fromHex (pre @ hex_bytes u bs) True = Inr (word_of_int (be_int bs) :: 'a :: len word) \<and>
    (8 * length bs \<le> LENGTH('a) \<longrightarrow>
      fromHex (pre @ hex_bytes u bs) False = Inr (word_of_int (le_int bs) :: 'a word))"
proof -
  have "drop (hex_start (pre @ hex_bytes u bs)) (pre @ hex_bytes u bs) = hex_bytes u bs"
    using assms by auto
  then show ?thesis
    using fromHex_loop_be [where ?'a = 'a, of u bs 0 0] fromHex_loop_le [where ?'a = 'a, of 0 bs 0 u]
    by (simp add: fromHex_def be_int_def)
qed

lemma fromHex_vec_hex:
  assumes "pre = [] \<or> pre = ''0x''" "bs \<noteq> []"
  shows "fromHex_vec (pre @ hex_bytes u bs) bigEndianBytes = Inr (if bigEndianBytes then bs else rev bs)"
proof -
  obtain k where k: "length pre = k" by simp
  have h: "hex_start (pre @ hex_bytes u bs) = k" using assms k by auto
  obtain n where n: "length bs = Suc n" using assms(2) by (cases bs) auto
  then have l: "int (length (pre @ hex_bytes u bs)) - 2 = int k + 2 * int n" by (simp add: k)
  show ?thesis
    using fromHex_vec_up_hex [of 0 bs pre k u] fromHex_vec_down_hex [of n bs pre k u] n k
    by (simp add: fromHex_vec_def h l [simplified])
qed

section \<open>Properties\<close>





text \<open>
  Reading hex into a byte vector returns the bytes for \<^verbatim>\<open>bigEndianBytes\<close> and the
  bytes reversed otherwise, with or without prefix, if there is at least one byte.
\<close>

theorem fromHex_vec_bytes:
  assumes "pre = [] \<or> pre = ''0x''" "bs \<noteq> []"
  shows "fromHex_vec (pre @ hex_bytes u bs) bigEndianBytes = Inr (if bigEndianBytes then bs else rev bs)"
  using assms by (rule fromHex_vec_hex)

theorem fromHex_vec_bytes_witness:
  "fromHex_vec ''0x0a01'' False = Inr [1, 10]"
proof -
  have "hex_bytes False [10, 1] = ''0a01''" by code_simp
  then show ?thesis using fromHex_vec_bytes [of "''0x''" "[10, 1]" False False] by simp
qed

end
