(* ===== verification/Blake2b.thy ===== *)
theory Blake2b
  imports Prelude
begin

unbundle bit_operations_syntax

text \<open>
  The BLAKE2b hash of \<^verbatim>\<open>src/libs/blake/blake2b.cpp\<close> and \<^verbatim>\<open>blake2-impl.h\<close>, which the
  address checksums and storage keys use: the compression function, the streaming state and
  its operations. The main lemmas show that the buffered, streaming implementation computes
  the plain block-by-block definition of the hash, and that splitting the input over several
  updates makes no difference.
\<close>

section \<open>Bytes and words\<close>

type_synonym uint64 = "64 word"

fun load64 :: "byte list \<Rightarrow> uint64" where
  "load64 [p0, p1, p2, p3, p4, p5, p6, p7] =
     ucast p0 OR push_bit 8 (ucast p1) OR push_bit 16 (ucast p2) OR push_bit 24 (ucast p3) OR
     push_bit 32 (ucast p4) OR push_bit 40 (ucast p5) OR push_bit 48 (ucast p6) OR push_bit 56 (ucast p7)"
| "load64 _ = 0"

definition store64 :: "uint64 \<Rightarrow> byte list" where
  "store64 w = [ucast w, ucast (drop_bit 8 w), ucast (drop_bit 16 w), ucast (drop_bit 24 w),
     ucast (drop_bit 32 w), ucast (drop_bit 40 w), ucast (drop_bit 48 w), ucast (drop_bit 56 w)]"

definition rotr64 :: "uint64 \<Rightarrow> nat \<Rightarrow> uint64" where
  "rotr64 w c = drop_bit c w OR push_bit (64 - c) w"

text \<open>\<^verbatim>\<open>load64(p + 8 * i)\<close> and \<^verbatim>\<open>memcpy(buf + off, src, n)\<close>.\<close>

definition load64_at :: "byte list \<Rightarrow> nat \<Rightarrow> uint64" where
  "load64_at p i = load64 (take 8 (drop (8 * i) p))"

definition memcpy_at :: "byte list \<Rightarrow> nat \<Rightarrow> byte list \<Rightarrow> byte list" where
  "memcpy_at buf off src = take off buf @ src @ drop (off + length src) buf"

section \<open>Parameters and state\<close>

abbreviation BLAKE2B_BLOCKBYTES :: nat where "BLAKE2B_BLOCKBYTES \<equiv> 128"
abbreviation BLAKE2B_OUTBYTES :: nat where "BLAKE2B_OUTBYTES \<equiv> 64"
abbreviation BLAKE2B_KEYBYTES :: nat where "BLAKE2B_KEYBYTES \<equiv> 64"

record blake2b_state =
  b_h :: "uint64 list"
  b_t0 :: uint64
  b_t1 :: uint64
  b_f0 :: uint64
  b_f1 :: uint64
  b_buf :: "byte list"
  b_buflen :: nat
  b_outlen :: nat
  b_last_node :: byte

definition blake2b_IV :: "uint64 list" where
  "blake2b_IV = [0x6a09e667f3bcc908, 0xbb67ae8584caa73b, 0x3c6ef372fe94f82b, 0xa54ff53a5f1d36f1,
     0x510e527fade682d1, 0x9b05688c2b3e6c1f, 0x1f83d9abfb41bd6b, 0x5be0cd19137e2179]"

definition blake2b_sigma :: "nat list list" where
  "blake2b_sigma = [
     [0, 1, 2, 3, 4, 5, 6, 7, 8, 9, 10, 11, 12, 13, 14, 15], [14, 10, 4, 8, 9, 15, 13, 6, 1, 12, 0, 2, 11, 7, 5, 3],
     [11, 8, 12, 0, 5, 2, 15, 13, 10, 14, 3, 6, 7, 1, 9, 4], [7, 9, 3, 1, 13, 12, 11, 14, 2, 6, 5, 10, 4, 0, 15, 8],
     [9, 0, 5, 7, 2, 4, 10, 15, 14, 1, 11, 12, 6, 8, 3, 13], [2, 12, 6, 10, 0, 11, 8, 3, 4, 13, 7, 5, 15, 14, 1, 9],
     [12, 5, 1, 15, 14, 13, 4, 10, 0, 7, 6, 3, 9, 2, 8, 11], [13, 11, 7, 14, 12, 1, 3, 9, 5, 0, 15, 4, 8, 6, 2, 10],
     [6, 15, 14, 9, 11, 3, 0, 8, 12, 2, 13, 7, 1, 4, 10, 5], [10, 2, 8, 4, 7, 6, 1, 5, 15, 11, 9, 14, 3, 12, 13, 0],
     [0, 1, 2, 3, 4, 5, 6, 7, 8, 9, 10, 11, 12, 13, 14, 15], [14, 10, 4, 8, 9, 15, 13, 6, 1, 12, 0, 2, 11, 7, 5, 3]]"

definition blake2b_set_lastnode :: "blake2b_state \<Rightarrow> blake2b_state" where
  "blake2b_set_lastnode S = S\<lparr>b_f1 := -1\<rparr>"

definition blake2b_is_lastblock :: "blake2b_state \<Rightarrow> bool" where
  "blake2b_is_lastblock S \<longleftrightarrow> b_f0 S \<noteq> 0"

definition blake2b_set_lastblock :: "blake2b_state \<Rightarrow> blake2b_state" where
  "blake2b_set_lastblock S =
     (let S' = (if b_last_node S \<noteq> 0 then blake2b_set_lastnode S else S) in S'\<lparr>b_f0 := -1\<rparr>)"

definition blake2b_increment_counter :: "uint64 \<Rightarrow> blake2b_state \<Rightarrow> blake2b_state" where
  "blake2b_increment_counter inc S =
     (let t0 = b_t0 S + inc in S\<lparr>b_t0 := t0, b_t1 := b_t1 S + (if t0 < inc then 1 else 0)\<rparr>)"

definition blake2b_init0 :: blake2b_state where
  "blake2b_init0 = \<lparr>b_h = blake2b_IV, b_t0 = 0, b_t1 = 0, b_f0 = 0, b_f1 = 0,
     b_buf = replicate BLAKE2B_BLOCKBYTES 0, b_buflen = 0, b_outlen = 0, b_last_node = 0\<rparr>"

text \<open>The parameter block: 64 bytes, of which the code sets the first four and clears the rest.\<close>

definition blake2b_param :: "byte \<Rightarrow> byte \<Rightarrow> byte list" where
  "blake2b_param digest_length key_length = [digest_length, key_length, 1, 1] @ replicate 60 0"

definition blake2b_init_param :: "byte list \<Rightarrow> blake2b_state" where
  "blake2b_init_param P =
     blake2b_init0\<lparr>b_h := map (\<lambda>i. blake2b_IV ! i XOR load64_at P i) [0..<8], b_outlen := unat (P ! 0)\<rparr>"

section \<open>Compression\<close>

definition blake2b_G ::
  "uint64 list \<Rightarrow> nat \<Rightarrow> nat \<Rightarrow> nat \<Rightarrow> nat \<Rightarrow> nat \<Rightarrow> nat \<Rightarrow> uint64 list \<Rightarrow> uint64 list" where
  "blake2b_G m r i ai bi ci di v =
     (let a = v ! ai + v ! bi + m ! (blake2b_sigma ! r ! (2 * i + 0));
          d = rotr64 (v ! di XOR a) 32;
          c = v ! ci + d;
          b = rotr64 (v ! bi XOR c) 24;
          a = a + b + m ! (blake2b_sigma ! r ! (2 * i + 1));
          d = rotr64 (d XOR a) 16;
          c = c + d;
          b = rotr64 (b XOR c) 63
      in v[ai := a, bi := b, ci := c, di := d])"

definition blake2b_ROUND :: "uint64 list \<Rightarrow> nat \<Rightarrow> uint64 list \<Rightarrow> uint64 list" where
  "blake2b_ROUND m r v =
     (let v = blake2b_G m r 0 0 4 8 12 v;
          v = blake2b_G m r 1 1 5 9 13 v;
          v = blake2b_G m r 2 2 6 10 14 v;
          v = blake2b_G m r 3 3 7 11 15 v;
          v = blake2b_G m r 4 0 5 10 15 v;
          v = blake2b_G m r 5 1 6 11 12 v;
          v = blake2b_G m r 6 2 7 8 13 v;
          v = blake2b_G m r 7 3 4 9 14 v
      in v)"

definition blake2b_compress :: "byte list \<Rightarrow> blake2b_state \<Rightarrow> blake2b_state" where
  "blake2b_compress block S =
     (let m = map (load64_at block) [0..<16];
          v = b_h S @ take 4 blake2b_IV @
            [blake2b_IV ! 4 XOR b_t0 S, blake2b_IV ! 5 XOR b_t1 S, blake2b_IV ! 6 XOR b_f0 S, blake2b_IV ! 7 XOR b_f1 S];
          v = fold (blake2b_ROUND m) [0..<12] v
      in S\<lparr>b_h := map (\<lambda>i. b_h S ! i XOR v ! i XOR v ! (i + 8)) [0..<8]\<rparr>)"

section \<open>Streaming\<close>

function blake2b_update_loop :: "byte list \<Rightarrow> blake2b_state \<Rightarrow> blake2b_state \<times> byte list" where
  "blake2b_update_loop inp S =
     (if BLAKE2B_BLOCKBYTES < length inp then
        blake2b_update_loop (drop BLAKE2B_BLOCKBYTES inp)
          (blake2b_compress (take BLAKE2B_BLOCKBYTES inp) (blake2b_increment_counter (of_nat BLAKE2B_BLOCKBYTES) S))
      else (S, inp))"
  by pat_completeness auto
termination
  by (relation "measure (\<lambda>(inp, S). length inp)") auto

declare blake2b_update_loop.simps [simp del]

definition blake2b_update :: "byte list \<Rightarrow> blake2b_state \<Rightarrow> blake2b_state" where
  "blake2b_update inp S =
     (if 0 < length inp then
        (let left = b_buflen S;
             fill = BLAKE2B_BLOCKBYTES - left;
             (S, inp) =
               (if fill < length inp then
                  (let S = S\<lparr>b_buflen := 0, b_buf := memcpy_at (b_buf S) left (take fill inp)\<rparr>;
                       S = blake2b_increment_counter (of_nat BLAKE2B_BLOCKBYTES) S;
                       S = blake2b_compress (b_buf S) S
                   in blake2b_update_loop (drop fill inp) S)
                else (S, inp))
         in S\<lparr>b_buf := memcpy_at (b_buf S) (b_buflen S) inp, b_buflen := b_buflen S + length inp\<rparr>)
      else S)"

definition blake2b_final :: "nat \<Rightarrow> blake2b_state \<Rightarrow> byte list option \<times> blake2b_state" where
  "blake2b_final outlen S =
     (if outlen < b_outlen S then (None, S)
      else if blake2b_is_lastblock S then (None, S)
      else
        (let S = blake2b_increment_counter (of_nat (b_buflen S)) S;
             S = blake2b_set_lastblock S;
             S = S\<lparr>b_buf := memcpy_at (b_buf S) (b_buflen S) (replicate (BLAKE2B_BLOCKBYTES - b_buflen S) 0)\<rparr>;
             S = blake2b_compress (b_buf S) S
         in (Some (take (b_outlen S) (concat (map store64 (b_h S)))), S)))"

definition blake2b_init :: "nat \<Rightarrow> blake2b_state option" where
  "blake2b_init outlen =
     (if outlen = 0 \<or> BLAKE2B_OUTBYTES < outlen then None
      else Some (blake2b_init_param (blake2b_param (of_nat outlen) 0)))"

definition blake2b_init_key :: "nat \<Rightarrow> byte list \<Rightarrow> blake2b_state option" where
  "blake2b_init_key outlen key =
     (if outlen = 0 \<or> BLAKE2B_OUTBYTES < outlen then None
      else if key = [] \<or> BLAKE2B_KEYBYTES < length key then None
      else
        (let S = blake2b_init_param (blake2b_param (of_nat outlen) (of_nat (length key)));
             block = memcpy_at (replicate BLAKE2B_BLOCKBYTES 0) 0 key
         in Some (blake2b_update block S)))"

text \<open>
  The hash of an input under a key, \<^term>\<open>[]\<close> for none; \<^term>\<open>None\<close> for the return value -1.
  Neither the input nor the output pointer is null in any call of the program.
\<close>

definition blake2b :: "nat \<Rightarrow> byte list \<Rightarrow> byte list \<Rightarrow> byte list option" where
  "blake2b outlen inp key =
     (if outlen = 0 \<or> BLAKE2B_OUTBYTES < outlen then None
      else if BLAKE2B_KEYBYTES < length key then None
      else case (if 0 < length key then blake2b_init_key outlen key else blake2b_init outlen) of
          None \<Rightarrow> None
        | Some S \<Rightarrow> fst (blake2b_final outlen (blake2b_update inp S)))"

definition blake2 :: "nat \<Rightarrow> byte list \<Rightarrow> byte list \<Rightarrow> byte list option" where
  "blake2 outlen inp key = blake2b outlen inp key"

section \<open>The hash without a buffer\<close>

text \<open>
  The reference: the compression function as a function of the chaining value, a 128-bit
  byte counter, the flag of the last block and a block; the message cut into blocks, the
  last one padded; the key, padded to a block, in front of the message.
\<close>

definition blake2b_F :: "uint64 list \<Rightarrow> 128 word \<Rightarrow> bool \<Rightarrow> byte list \<Rightarrow> uint64 list" where
  "blake2b_F h t final block =
     b_h (blake2b_compress block (blake2b_init0\<lparr>b_h := h, b_t0 := ucast t, b_t1 := ucast (drop_bit 64 t),
       b_f0 := (if final then -1 else 0)\<rparr>))"

definition pad_block :: "byte list \<Rightarrow> byte list" where
  "pad_block bs = bs @ replicate (BLAKE2B_BLOCKBYTES - length bs) 0"

function blake2b_blocks :: "uint64 list \<Rightarrow> 128 word \<Rightarrow> byte list \<Rightarrow> uint64 list" where
  "blake2b_blocks h t msg =
     (if BLAKE2B_BLOCKBYTES < length msg
      then blake2b_blocks (blake2b_F h (t + 128) False (take BLAKE2B_BLOCKBYTES msg)) (t + 128) (drop BLAKE2B_BLOCKBYTES msg)
      else blake2b_F h (t + of_nat (length msg)) True (pad_block msg))"
  by pat_completeness auto
termination
  by (relation "measure (\<lambda>(h, t, msg). length msg)") auto

declare blake2b_blocks.simps [simp del]

definition blake2b_spec :: "nat \<Rightarrow> byte list \<Rightarrow> byte list \<Rightarrow> byte list" where
  "blake2b_spec nn key msg =
     (let h = blake2b_IV[0 := blake2b_IV ! 0 XOR (0x01010000 OR push_bit 8 (of_nat (length key)) OR of_nat nn)];
          msg' = (if key = [] then msg else pad_block key @ msg)
      in take nn (concat (map store64 (blake2b_blocks h 0 msg'))))"

section \<open>Invariant and abstraction\<close>

definition blake2b_valid :: "blake2b_state \<Rightarrow> bool" where
  "blake2b_valid S \<longleftrightarrow> length (b_h S) = 8 \<and> length (b_buf S) = BLAKE2B_BLOCKBYTES \<and> b_buflen S \<le> BLAKE2B_BLOCKBYTES"

text \<open>What counts of a state: everything but the buffer, and the bytes pending in it.\<close>

definition core :: "blake2b_state \<Rightarrow> blake2b_state" where
  "core S = S\<lparr>b_buf := [], b_buflen := 0\<rparr>"

definition pending :: "blake2b_state \<Rightarrow> byte list" where
  "pending S = take (b_buflen S) (b_buf S)"

lemma core_simps [simp]:
  "core (blake2b_compress blk S) = blake2b_compress blk (core S)"
  "core (blake2b_increment_counter n S) = blake2b_increment_counter n (core S)"
  "core (blake2b_set_lastblock S) = blake2b_set_lastblock (core S)"
  "core (core S) = core S"
  "core (S\<lparr>b_buf := x\<rparr>) = core S"
  "core (S\<lparr>b_buflen := k\<rparr>) = core S"
  "b_h (core S) = b_h S" "b_outlen (core S) = b_outlen S" "b_f0 (core S) = b_f0 S"
  by (simp_all add: core_def blake2b_compress_def blake2b_increment_counter_def blake2b_set_lastblock_def
      blake2b_set_lastnode_def Let_def)

lemma buffer_kept [simp]:
  "b_buf (blake2b_compress blk S) = b_buf S" "b_buflen (blake2b_compress blk S) = b_buflen S"
  "b_buf (blake2b_increment_counter n S) = b_buf S" "b_buflen (blake2b_increment_counter n S) = b_buflen S"
  "b_buf (blake2b_set_lastblock S) = b_buf S" "b_buflen (blake2b_set_lastblock S) = b_buflen S"
  "b_outlen (blake2b_compress blk S) = b_outlen S" "b_outlen (blake2b_increment_counter n S) = b_outlen S"
  "b_outlen (blake2b_set_lastblock S) = b_outlen S"
  "length (b_h (blake2b_compress blk S)) = 8"
  "b_h (blake2b_increment_counter n S) = b_h S" "b_h (blake2b_set_lastblock S) = b_h S"
  by (simp_all add: blake2b_compress_def blake2b_increment_counter_def blake2b_set_lastblock_def
      blake2b_set_lastnode_def Let_def)

lemma update_loop_core:
  "blake2b_update_loop inp (core S) = (core (fst (blake2b_update_loop inp S)), snd (blake2b_update_loop inp S))"
proof (induction inp S rule: blake2b_update_loop.induct)
  case (1 inp S)
  then show ?case
    by (subst (1 2 3) blake2b_update_loop.simps) (simp split: if_splits)
qed

lemma update_loop_buffer:
  "b_buf (fst (blake2b_update_loop inp S)) = b_buf S \<and> b_buflen (fst (blake2b_update_loop inp S)) = b_buflen S
    \<and> (length (b_h S) = 8 \<longrightarrow> length (b_h (fst (blake2b_update_loop inp S))) = 8)
    \<and> length (snd (blake2b_update_loop inp S)) \<le> BLAKE2B_BLOCKBYTES"
proof (induction inp S rule: blake2b_update_loop.induct)
  case (1 inp S)
  then show ?case
    by (subst (1 2 3 4) blake2b_update_loop.simps) (auto split: if_splits)
qed

lemma update_loop_short: "length inp \<le> BLAKE2B_BLOCKBYTES \<Longrightarrow> blake2b_update_loop inp S = (S, inp)"
  by (subst blake2b_update_loop.simps) simp

lemma update_loop_long: "BLAKE2B_BLOCKBYTES < length inp \<Longrightarrow> blake2b_update_loop inp S =
    blake2b_update_loop (drop BLAKE2B_BLOCKBYTES inp)
      (blake2b_compress (take BLAKE2B_BLOCKBYTES inp) (blake2b_increment_counter 128 S))"
  by (subst blake2b_update_loop.simps) simp

lemma update_loop_append:
  "blake2b_update_loop (a @ b) S =
     blake2b_update_loop (snd (blake2b_update_loop a S) @ b) (fst (blake2b_update_loop a S))"
proof (induction a S rule: blake2b_update_loop.induct)
  case (1 a S)
  show ?case
  proof (cases "BLAKE2B_BLOCKBYTES < length a")
    case True
    then have "blake2b_update_loop (a @ b) S = blake2b_update_loop (drop BLAKE2B_BLOCKBYTES a @ b)
        (blake2b_compress (take BLAKE2B_BLOCKBYTES a) (blake2b_increment_counter 128 S))"
      by (simp add: update_loop_long)
    with 1 True show ?thesis by (simp add: update_loop_long [OF True])
  next
    case False
    then show ?thesis by (simp add: update_loop_short)
  qed
qed

text \<open>An update is the loop over the pending bytes and the new input.\<close>

lemma update_abs:
  assumes "blake2b_valid S"
  shows "blake2b_valid (blake2b_update inp S) \<and>
    (core (blake2b_update inp S), pending (blake2b_update inp S)) = blake2b_update_loop (pending S @ inp) (core S)"
proof -
  have len: "length (pending S) = b_buflen S" using assms by (simp add: pending_def blake2b_valid_def)
  show ?thesis
  proof (cases "BLAKE2B_BLOCKBYTES - b_buflen S < length inp")
    case True
    define fill where "fill = BLAKE2B_BLOCKBYTES - b_buflen S"
    define S1 where "S1 = S\<lparr>b_buflen := 0, b_buf := memcpy_at (b_buf S) (b_buflen S) (take fill inp)\<rparr>"
    define S2 where "S2 = blake2b_compress (b_buf S1) (blake2b_increment_counter 128 S1)"
    define L where "L = blake2b_update_loop (drop fill inp) S2"
    have f: "fill < length inp" using True by (simp add: fill_def)
    have b: "b_buflen S + fill = BLAKE2B_BLOCKBYTES" using assms by (simp add: fill_def blake2b_valid_def)
    have buf: "b_buf S1 = pending S @ take fill inp" "length (b_buf S1) = BLAKE2B_BLOCKBYTES"
      using assms f b by (simp_all add: S1_def memcpy_at_def pending_def blake2b_valid_def)
    have upd: "blake2b_update inp S =
        (fst L)\<lparr>b_buf := memcpy_at (b_buf (fst L)) (b_buflen (fst L)) (snd L), b_buflen := b_buflen (fst L) + length (snd L)\<rparr>"
      using f by (cases L) (auto simp: blake2b_update_def Let_def fill_def S1_def S2_def L_def split: prod.splits)
    have L: "b_buflen (fst L) = 0" "b_buf (fst L) = b_buf S1" "length (b_h (fst L)) = 8" "length (snd L) \<le> BLAKE2B_BLOCKBYTES"
      using update_loop_buffer [of "drop fill inp" S2] by (simp_all add: L_def S2_def S1_def)
    have "blake2b_update_loop (pending S @ inp) (core S) =
        blake2b_update_loop (drop fill inp) (blake2b_compress (b_buf S1) (blake2b_increment_counter 128 (core S)))"
      using f b len buf by (subst update_loop_long) (simp_all flip: fill_def)
    also have "blake2b_compress (b_buf S1) (blake2b_increment_counter 128 (core S)) = core S2"
      by (simp add: S2_def S1_def)
    finally have "blake2b_update_loop (pending S @ inp) (core S) = (core (fst L), snd L)"
      by (simp add: update_loop_core L_def)
    moreover have "pending (blake2b_update inp S) = snd L"
      using L buf by (simp add: upd pending_def memcpy_at_def)
    moreover have "blake2b_valid (blake2b_update inp S)"
      using L buf by (simp add: upd blake2b_valid_def memcpy_at_def)
    ultimately show ?thesis by (simp add: upd)
  next
    case False
    then have "blake2b_update inp S = S\<lparr>b_buf := memcpy_at (b_buf S) (b_buflen S) inp, b_buflen := b_buflen S + length inp\<rparr>"
      by (cases inp) (simp_all add: blake2b_update_def Let_def memcpy_at_def)
    with False assms len show ?thesis
      by (auto simp: update_loop_short blake2b_valid_def memcpy_at_def pending_def)
  qed
qed

text \<open>The final step from the core and the pending bytes.\<close>

definition finish :: "blake2b_state \<Rightarrow> byte list \<Rightarrow> uint64 list" where
  "finish C p = b_h (blake2b_compress (pad_block p) (blake2b_set_lastblock (blake2b_increment_counter (of_nat (length p)) C)))"

lemma final_abs:
  assumes "blake2b_valid S"
  shows "fst (blake2b_final outlen S) =
    (if outlen < b_outlen S \<or> b_f0 S \<noteq> 0 then None
     else Some (take (b_outlen S) (concat (map store64 (finish (core S) (pending S))))))"
proof -
  have len: "length (pending S) = b_buflen S" using assms by (simp add: pending_def blake2b_valid_def)
  have "memcpy_at (b_buf S) (b_buflen S) (replicate (BLAKE2B_BLOCKBYTES - b_buflen S) 0) = pad_block (pending S)"
    using assms len by (simp add: memcpy_at_def pad_block_def pending_def blake2b_valid_def)
  moreover have "b_h (blake2b_compress x (T\<lparr>b_buf := y\<rparr>)) = b_h (blake2b_compress x (core T))" for x y T
    using core_simps(1) [of x "T\<lparr>b_buf := y\<rparr>"] by (metis core_simps(5,7))
  ultimately show ?thesis
    using len by (simp add: blake2b_final_def blake2b_is_lastblock_def finish_def Let_def)
qed

section \<open>Refinement\<close>

text \<open>The two counter words as one 128-bit counter.\<close>

definition counter :: "blake2b_state \<Rightarrow> 128 word" where
  "counter S = word_of_int (uint (b_t0 S) + 2 ^ 64 * uint (b_t1 S))"

lemma uint64_less: "uint (w :: uint64) < 2 ^ 64"
  using uint_lt2p [of w] by simp

lemma uint_counter: "uint (counter S) = uint (b_t0 S) + 2 ^ 64 * uint (b_t1 S)"
proof -
  have "uint (b_t0 S) + 2 ^ 64 * uint (b_t1 S) < 2 ^ 128"
    using uint64_less [of "b_t0 S"] uint64_less [of "b_t1 S"] by simp
  then show ?thesis unfolding counter_def uint_word_of_int by (intro mod_pos_pos_trivial) simp_all
qed

lemma counter_words: "ucast (counter S) = b_t0 S" "ucast (drop_bit 64 (counter S)) = b_t1 S"
proof -
  show "ucast (counter S) = b_t0 S"
    using uint64_less [of "b_t0 S"]
    by (intro word_uint_eqI) (simp add: unsigned_ucast_eq take_bit_eq_mod uint_counter)
  have "uint (drop_bit 64 (counter S)) = uint (b_t1 S)"
    unfolding uint_drop_bit uint_counter using uint64_less [of "b_t0 S"] by simp
  then show "ucast (drop_bit 64 (counter S)) = b_t1 S"
    using uint64_less [of "b_t1 S"]
    by (intro word_uint_eqI) (simp add: unsigned_ucast_eq take_bit_eq_mod)
qed

lemma increment_fields:
  "b_t0 (blake2b_increment_counter n S) = b_t0 S + n"
  "b_t1 (blake2b_increment_counter n S) = b_t1 S + (if b_t0 S + n < n then 1 else 0)"
  by (simp_all add: blake2b_increment_counter_def Let_def)

lemma counter_increment: "counter (blake2b_increment_counter n S) = counter S + ucast n"
proof (cases "uint (b_t0 S) + uint n < 2 ^ 64")
  case True
  then have u: "uint (b_t0 S + n) = uint (b_t0 S) + uint n" by (simp add: uint_word_ariths)
  then have "\<not> b_t0 S + n < n" by (simp add: word_less_def)
  with u show ?thesis
    unfolding counter_def increment_fields
    by (simp only: if_False add_0_right add_0_left ucast_eq of_int_add ac_simps)
next
  case False
  have u: "uint (b_t0 S + n) = uint (b_t0 S) + uint n - 2 ^ 64"
  proof -
    have "uint (b_t0 S + n) = (uint (b_t0 S) + uint n - 2 ^ 64) mod 2 ^ 64"
      by (simp add: uint_word_ariths minus_mod_self2)
    also have "\<dots> = uint (b_t0 S) + uint n - 2 ^ 64"
      using False uint64_less [of "b_t0 S"] uint64_less [of n] by (intro mod_pos_pos_trivial) linarith+
    finally show ?thesis .
  qed
  then have c: "b_t0 S + n < n" using uint64_less [of "b_t0 S"] by (simp add: word_less_def)
  define k where "k = (uint (b_t1 S) + 1) div 2 ^ 64"
  have "uint (b_t1 S + 1) = (uint (b_t1 S) + 1) mod 2 ^ 64" by (simp add: uint_word_ariths)
  then have k: "uint (b_t1 S + 1) = uint (b_t1 S) + 1 - 2 ^ 64 * k"
    unfolding k_def by (simp only: minus_mult_div_eq_mod)
  have "uint (b_t0 S + n) + 2 ^ 64 * uint (b_t1 S + 1) =
      uint (b_t0 S) + 2 ^ 64 * uint (b_t1 S) + uint n - k * 2 ^ 128"
    unfolding u k by (simp add: algebra_simps)
  then have "counter (blake2b_increment_counter n S) =
      word_of_int (uint (b_t0 S) + 2 ^ 64 * uint (b_t1 S) + uint n - k * 2 ^ 128)"
    unfolding counter_def increment_fields using c by (simp only: if_True)
  also have "\<dots> = counter S + word_of_int (uint n) - word_of_int (k * 2 ^ 128)"
    by (simp only: counter_def of_int_add of_int_diff)
  also have "(word_of_int (k * 2 ^ 128) :: 128 word) = 0"
    by (rule word_uint_eqI) (simp only: uint_word_of_int unsigned_0, simp)
  finally show ?thesis by (simp only: ucast_eq diff_0_right)
qed

text \<open>The states that hash a message of the sequential mode.\<close>

definition plain :: "blake2b_state \<Rightarrow> bool" where
  "plain S \<longleftrightarrow> b_f0 S = 0 \<and> b_f1 S = 0 \<and> b_last_node S = 0"

lemma plain_simps [simp]:
  "plain (blake2b_compress blk S) = plain S" "plain (blake2b_increment_counter n S) = plain S"
  "plain (core S) = plain S"
  by (simp_all add: plain_def blake2b_compress_def blake2b_increment_counter_def core_def Let_def)

lemma counter_simps [simp]:
  "counter (blake2b_compress blk S) = counter S" "counter (core S) = counter S"
  "counter (blake2b_set_lastblock S) = counter S"
  by (simp_all add: counter_def blake2b_compress_def core_def blake2b_set_lastblock_def blake2b_set_lastnode_def Let_def)

lemma compress_F:
  assumes "plain S"
  shows "b_h (blake2b_compress blk S) = blake2b_F (b_h S) (counter S) False blk"
    and "b_h (blake2b_compress blk (blake2b_set_lastblock S)) = blake2b_F (b_h S) (counter S) True blk"
proof -
  have "b_h (blake2b_compress blk S) = b_h (blake2b_compress blk (blake2b_init0\<lparr>b_h := b_h S, b_t0 := b_t0 S,
      b_t1 := b_t1 S, b_f0 := b_f0 S\<rparr>))" if "b_f1 S = 0" for S
    using that by (simp add: blake2b_compress_def blake2b_init0_def Let_def)
  then show "b_h (blake2b_compress blk S) = blake2b_F (b_h S) (counter S) False blk"
    "b_h (blake2b_compress blk (blake2b_set_lastblock S)) = blake2b_F (b_h S) (counter S) True blk"
    using assms by (simp_all add: blake2b_F_def counter_words plain_def blake2b_set_lastblock_def Let_def)
qed

lemma finish_loop:
  "plain C \<Longrightarrow> finish (fst (blake2b_update_loop msg C)) (snd (blake2b_update_loop msg C)) =
    blake2b_blocks (b_h C) (counter C) msg"
proof (induction msg C rule: blake2b_update_loop.induct)
  case (1 msg C)
  have n: "ucast (of_nat k :: uint64) = (of_nat k :: 128 word)" if "k \<le> 128" for k
    using that by (intro word_uint_eqI) (simp add: unsigned_ucast_eq unsigned_of_nat take_bit_nat_eq_self)
  show ?case
  proof (cases "BLAKE2B_BLOCKBYTES < length msg")
    case True
    define C' where "C' = blake2b_compress (take BLAKE2B_BLOCKBYTES msg) (blake2b_increment_counter 128 C)"
    have "counter C' = counter C + 128" using n [of 128] by (simp add: C'_def counter_increment)
    moreover have "b_h C' = blake2b_F (b_h C) (counter C + 128) False (take BLAKE2B_BLOCKBYTES msg)"
      using 1 n [of 128] by (simp add: C'_def compress_F counter_increment)
    moreover have "finish (fst (blake2b_update_loop (drop BLAKE2B_BLOCKBYTES msg) C'))
        (snd (blake2b_update_loop (drop BLAKE2B_BLOCKBYTES msg) C')) =
        blake2b_blocks (b_h C') (counter C') (drop BLAKE2B_BLOCKBYTES msg)"
      using 1 True by (simp add: C'_def)
    ultimately show ?thesis
      using True by (subst blake2b_blocks.simps) (simp add: update_loop_long [OF True] flip: C'_def)
  next
    case False
    then show ?thesis
      using 1 n [of "length msg"]
      by (subst blake2b_blocks.simps) (simp add: update_loop_short finish_def compress_F counter_increment)
  qed
qed

lemma update_loop_plain:
  "plain (fst (blake2b_update_loop msg C)) = plain C \<and> b_outlen (fst (blake2b_update_loop msg C)) = b_outlen C"
proof (induction msg C rule: blake2b_update_loop.induct)
  case (1 msg C)
  then show ?case by (subst (1 2) blake2b_update_loop.simps) simp
qed

lemma update_core:
  assumes "blake2b_valid S"
  shows "blake2b_valid (blake2b_update inp S)"
    and "core (blake2b_update inp S) = fst (blake2b_update_loop (pending S @ inp) (core S))"
    and "pending (blake2b_update inp S) = snd (blake2b_update_loop (pending S @ inp) (core S))"
  using update_abs [OF assms, of inp] by (metis fst_conv snd_conv)+

lemma update_plain:
  assumes "blake2b_valid S"
  shows "plain (blake2b_update inp S) = plain S" "b_outlen (blake2b_update inp S) = b_outlen S"
  using update_core(2) [OF assms, of inp] update_loop_plain [of "pending S @ inp" "core S"]
  by (metis plain_simps(3) core_simps(8))+

lemma hash_state:
  assumes "blake2b_valid S" "plain S" "b_outlen S \<le> outlen"
  shows "fst (blake2b_final outlen (blake2b_update inp S)) =
    Some (take (b_outlen S) (concat (map store64 (blake2b_blocks (b_h S) (counter S) (pending S @ inp)))))"
proof -
  have "plain (blake2b_update inp S)" "\<not> outlen < b_outlen (blake2b_update inp S)"
    using assms by (simp_all add: update_plain)
  then show ?thesis
    using final_abs [OF update_core(1) [OF assms(1)], of outlen inp] finish_loop [of "core S" "pending S @ inp"] assms
    by (simp add: update_core [OF assms(1)] update_plain plain_def [of "blake2b_update inp S"])
qed

text \<open>The parameter block and the initial states.\<close>

lemma init_param:
  assumes "outlen \<le> 64" "n \<le> 64"
  shows "blake2b_init_param (blake2b_param (of_nat outlen) (of_nat n)) = blake2b_init0\<lparr>
    b_h := blake2b_IV[0 := blake2b_IV ! 0 XOR (0x01010000 OR push_bit 8 (of_nat n) OR of_nat outlen)],
    b_outlen := outlen\<rparr>"
proof -
  have u: "ucast (of_nat k :: byte) = (of_nat k :: uint64)" "unat (of_nat k :: byte) = k" if "k \<le> 64" for k
    using that by (auto intro!: word_uint_eqI simp: unsigned_ucast_eq unsigned_of_nat take_bit_nat_eq_self)
  define p where "p = blake2b_param (of_nat outlen) (of_nat n)"
  have p: "load64_at p 0 = 0x01010000 OR push_bit 8 (of_nat n) OR of_nat outlen"
    using u assms by (simp add: p_def load64_at_def blake2b_param_def numeral_eq_Suc) (simp add: ac_simps)
  have z: "load64_at p i = 0" if "i \<in> {1, 2, 3, 4, 5, 6, 7}" for i
  proof -
    have "take 8 (drop (8 * i) p) = replicate 8 0" using that by (auto simp: p_def blake2b_param_def)
    then show ?thesis by (simp add: load64_at_def numeral_eq_Suc)
  qed
  have "map (\<lambda>i. blake2b_IV ! i XOR load64_at p i) [0..<8] = blake2b_IV[0 := blake2b_IV ! 0 XOR load64_at p 0]"
    using z by (simp add: upt_rec blake2b_IV_def)
  then show ?thesis
    using u assms p by (simp add: blake2b_init_param_def flip: p_def) (simp add: p_def blake2b_param_def)
qed

lemma init0_valid:
  "blake2b_valid (blake2b_init0\<lparr>b_h := blake2b_IV[0 := x], b_outlen := n\<rparr>)"
  "plain (blake2b_init0\<lparr>b_h := h, b_outlen := n\<rparr>)"
  "counter (blake2b_init0\<lparr>b_h := h, b_outlen := n\<rparr>) = 0"
  "pending (blake2b_init0\<lparr>b_h := h, b_outlen := n\<rparr>) = []"
  by (simp_all add: blake2b_valid_def blake2b_init0_def plain_def counter_def pending_def blake2b_IV_def)

lemma blocks_update:
  assumes "blake2b_valid S" "plain S" "b_outlen S \<le> outlen"
  shows "fst (blake2b_final outlen (blake2b_update b (blake2b_update a S))) =
    fst (blake2b_final outlen (blake2b_update (a @ b) S))"
proof -
  define U where "U = blake2b_update b (blake2b_update a S)"
  define V where "V = blake2b_update (a @ b) S"
  note va = update_core [OF assms(1), of a]
  have "core U = core V" "pending U = pending V"
    unfolding U_def V_def update_core [OF va(1)] update_core [OF assms(1), of "a @ b"] va
    by (simp_all add: update_loop_append [of "pending S @ a", simplified])
  moreover have "blake2b_valid U" "blake2b_valid V" by (simp_all add: U_def V_def assms(1) update_core(1))
  ultimately show ?thesis
    using final_abs [of U] final_abs [of V] by (metis U_def V_def core_simps(8,9))
qed

lemma blake2b_value:
  "blake2b outlen inp key =
     (if outlen = 0 \<or> 64 < outlen \<or> 64 < length key then None else Some (blake2b_spec outlen key inp))"
proof (cases "outlen = 0 \<or> 64 < outlen \<or> 64 < length key")
  case True
  then show ?thesis by (auto simp: blake2b_def)
next
  case False
  define h where "h = blake2b_IV[0 := blake2b_IV ! 0 XOR (0x01010000 OR push_bit 8 (of_nat (length key)) OR of_nat outlen)]"
  define S where "S = blake2b_init0\<lparr>b_h := h, b_outlen := outlen\<rparr>"
  have S: "blake2b_valid S" "plain S" "counter S = 0" "pending S = []" "b_outlen S = outlen" "b_h S = h"
    unfolding S_def h_def by (simp_all add: init0_valid)
  have i: "blake2b_init_param (blake2b_param (of_nat outlen) (of_nat (length key))) = S"
    unfolding S_def h_def using False by (intro init_param) simp_all
  show ?thesis
  proof (cases "key = []")
    case True
    then show ?thesis
      using False i hash_state [OF S(1,2), of outlen inp] S
      by (simp add: blake2b_def blake2b_init_def blake2b_spec_def Let_def h_def)
  next
    case k: False
    have "memcpy_at (replicate 128 0) 0 key = pad_block key" by (simp add: memcpy_at_def pad_block_def)
    then have "blake2b_init_key outlen key = Some (blake2b_update (pad_block key) S)"
      using False k i by (simp add: blake2b_init_key_def Let_def)
    then have "blake2b outlen inp key = fst (blake2b_final outlen (blake2b_update (pad_block key @ inp) S))"
      using False k blocks_update [OF S(1,2), of outlen inp "pad_block key"] S by (simp add: blake2b_def)
    then show ?thesis
      using False k hash_state [OF S(1,2), of outlen "pad_block key @ inp"] S
      by (simp add: blake2b_spec_def Let_def h_def)
  qed
qed

text \<open>A hash has the length that was asked for.\<close>

lemma blake2b_F_length: "length (blake2b_F h t final block) = 8"
  by (simp add: blake2b_F_def blake2b_compress_def Let_def)

lemma blake2b_blocks_length: "length (blake2b_blocks h t msg) = 8"
proof (induction h t msg rule: blake2b_blocks.induct)
  case (1 h t msg)
  then show ?case by (subst blake2b_blocks.simps) (simp add: blake2b_F_length)
qed

lemma store64_words_length: "length (concat (map store64 ws)) = 8 * length ws"
  by (induction ws) (simp_all add: store64_def)

lemma blake2b_spec_length: "nn \<le> 64 \<Longrightarrow> length (blake2b_spec nn key msg) = nn"
  by (simp add: blake2b_spec_def Let_def store64_words_length blake2b_blocks_length)

lemma blake2b_hash:
  "0 < outlen \<Longrightarrow> outlen \<le> 64 \<Longrightarrow> blake2 outlen inp [] = Some (blake2b_spec outlen [] inp)"
  by (simp add: blake2_def blake2b_value)

section \<open>Properties\<close>

text \<open>
  C7: \<^verbatim>\<open>blake2b\<close> with its buffered, streaming state computes the block-by-block hash, for
  every input, key and output length, and refuses exactly the lengths the code refuses: an
  output of zero or more than 64 bytes, a key of more than 64.
\<close>

theorem blake2b_refines_spec:
  "blake2b outlen inp key =
     (if outlen = 0 \<or> 64 < outlen \<or> 64 < length key then None else Some (blake2b_spec outlen key inp))"
  by (rule blake2b_value)

text \<open>
  C29: feeding the hash in two updates or in one gives the same result, from every valid
  state that has not been finished.
\<close>

theorem blake2b_streaming:
  assumes "blake2b_valid S" "b_f0 S = 0" "b_f1 S = 0" "b_last_node S = 0" "b_outlen S \<le> outlen"
  shows "fst (blake2b_final outlen (blake2b_update b (blake2b_update a S))) =
    fst (blake2b_final outlen (blake2b_update (a @ b) S))"
  using assms by (intro blocks_update) (simp_all add: plain_def)

theorem blake2b_streaming_witness:
  "fst (blake2b_final 32 (blake2b_update [3] (blake2b_update [1, 2] (blake2b_init0\<lparr>b_outlen := 32\<rparr>)))) =
   fst (blake2b_final 32 (blake2b_update [1, 2, 3] (blake2b_init0\<lparr>b_outlen := 32\<rparr>)))"
  using blake2b_streaming [of "blake2b_init0\<lparr>b_outlen := 32\<rparr>" 32 "[3]" "[1, 2]"]
  by (simp add: blake2b_valid_def blake2b_init0_def blake2b_IV_def)

end
