(* ===== verification/XXHash.thy ===== *)
theory XXHash
  imports Blake2b
begin

unbundle bit_operations_syntax

text \<open>
  The 64-bit xxHash of \<^verbatim>\<open>src/libs/xxhash/xxhash.cpp\<close>, which makes the storage keys of plain
  and mapped values. The memory is the list of bytes from the read pointer to the end of the
  input; a read past the end is undefined. The reference is the definition over chunks of the
  input; the lemmas show that the code computes it and never reads past its input.
\<close>

section \<open>Reading\<close>

definition XXH_readLE64 :: "byte list \<Rightarrow> uint64 result" where
  "XXH_readLE64 p = (if 8 \<le> length p then Inr (load64 (take 8 p)) else Inl (Undefined OutOfBounds))"

definition load32 :: "byte list \<Rightarrow> 32 word" where
  "load32 p = (case p of p0 # p1 # p2 # p3 # _ \<Rightarrow>
     ucast p0 OR push_bit 8 (ucast p1) OR push_bit 16 (ucast p2) OR push_bit 24 (ucast p3) | _ \<Rightarrow> 0)"

definition XXH_readLE32 :: "byte list \<Rightarrow> 32 word result" where
  "XXH_readLE32 p = (if 4 \<le> length p then Inr (load32 (take 4 p)) else Inl (Undefined OutOfBounds))"

definition XXH_rotl64 :: "uint64 \<Rightarrow> nat \<Rightarrow> uint64" where
  "XXH_rotl64 x r = push_bit r x OR drop_bit (64 - r) x"

section \<open>Rounds\<close>

definition PRIME64_1 :: uint64 where "PRIME64_1 = 11400714785074694791"
definition PRIME64_2 :: uint64 where "PRIME64_2 = 14029467366897019727"
definition PRIME64_3 :: uint64 where "PRIME64_3 = 1609587929392839161"
definition PRIME64_4 :: uint64 where "PRIME64_4 = 9650029242287828579"
definition PRIME64_5 :: uint64 where "PRIME64_5 = 2870177450012600261"

definition XXH64_round :: "uint64 \<Rightarrow> uint64 \<Rightarrow> uint64" where
  "XXH64_round acc input =
     (let acc = acc + input * PRIME64_2;
          acc = XXH_rotl64 acc 31
      in acc * PRIME64_1)"

definition XXH64_mergeRound :: "uint64 \<Rightarrow> uint64 \<Rightarrow> uint64" where
  "XXH64_mergeRound acc val =
     (let val = XXH64_round 0 val;
          acc = acc XOR val
      in acc * PRIME64_1 + PRIME64_4)"

definition XXH64_avalanche :: "uint64 \<Rightarrow> uint64" where
  "XXH64_avalanche h64 =
     (let h64 = h64 XOR drop_bit 33 h64;
          h64 = h64 * PRIME64_2;
          h64 = h64 XOR drop_bit 29 h64;
          h64 = h64 * PRIME64_3
      in h64 XOR drop_bit 32 h64)"

section \<open>The tail\<close>

text \<open>The steps of the macros \<^verbatim>\<open>PROCESS1_64\<close>, \<^verbatim>\<open>PROCESS4_64\<close> and \<^verbatim>\<open>PROCESS8_64\<close>.\<close>

definition PROCESS1_64 :: "byte \<Rightarrow> uint64 \<Rightarrow> uint64" where
  "PROCESS1_64 b h64 = XXH_rotl64 (h64 XOR ucast b * PRIME64_5) 11 * PRIME64_1"

definition PROCESS4_64 :: "32 word \<Rightarrow> uint64 \<Rightarrow> uint64" where
  "PROCESS4_64 w h64 = XXH_rotl64 (h64 XOR ucast w * PRIME64_1) 23 * PRIME64_2 + PRIME64_3"

definition PROCESS8_64 :: "uint64 \<Rightarrow> uint64 \<Rightarrow> uint64" where
  "PROCESS8_64 w h64 = (let k1 = XXH64_round 0 w in XXH_rotl64 (h64 XOR k1) 27 * PRIME64_1 + PRIME64_4)"

fun finalize8 :: "nat \<Rightarrow> byte list \<Rightarrow> uint64 \<Rightarrow> (nat \<times> byte list \<times> uint64) result" where
  "finalize8 len p h64 =
     (if 8 \<le> len then rbind (XXH_readLE64 p) (\<lambda>w. finalize8 (len - 8) (drop 8 p) (PROCESS8_64 w h64))
      else Inr (len, p, h64))"

declare finalize8.simps [simp del]

fun finalize1 :: "nat \<Rightarrow> byte list \<Rightarrow> uint64 \<Rightarrow> uint64 result" where
  "finalize1 0 p h64 = Inr h64"
| "finalize1 (Suc len) [] h64 = Inl (Undefined OutOfBounds)"
| "finalize1 (Suc len) (b # p) h64 = finalize1 len p (PROCESS1_64 b h64)"

definition XXH64_finalize :: "uint64 \<Rightarrow> byte list \<Rightarrow> nat \<Rightarrow> uint64 result" where
  "XXH64_finalize h64 p len =
     rbind (finalize8 (len mod 32) p h64) (\<lambda>(len, p, h64).
     rbind (if 4 \<le> len then rbind (XXH_readLE32 p) (\<lambda>w. Inr (len - 4, drop 4 p, PROCESS4_64 w h64))
            else Inr (len, p, h64)) (\<lambda>(len, p, h64).
     rbind (finalize1 len p h64) (\<lambda>h64.
     Inr (XXH64_avalanche h64))))"

section \<open>The stripes\<close>

type_synonym accs = "uint64 \<times> uint64 \<times> uint64 \<times> uint64"

text \<open>The body of the \<^verbatim>\<open>do\<close> loop, and the loop, which goes on while 32 bytes are left.\<close>

definition XXH64_stripe :: "byte list \<Rightarrow> accs \<Rightarrow> (accs \<times> byte list) result" where
  "XXH64_stripe p v = (case v of (v1, v2, v3, v4) \<Rightarrow>
     rbind (XXH_readLE64 p) (\<lambda>w1. let v1 = XXH64_round v1 w1; p = drop 8 p in
     rbind (XXH_readLE64 p) (\<lambda>w2. let v2 = XXH64_round v2 w2; p = drop 8 p in
     rbind (XXH_readLE64 p) (\<lambda>w3. let v3 = XXH64_round v3 w3; p = drop 8 p in
     rbind (XXH_readLE64 p) (\<lambda>w4. let v4 = XXH64_round v4 w4; p = drop 8 p in
     Inr ((v1, v2, v3, v4), p))))))"

fun XXH64_stripes :: "nat \<Rightarrow> byte list \<Rightarrow> accs \<Rightarrow> (accs \<times> byte list) option result" where
  "XXH64_stripes 0 p v = Inr None"
| "XXH64_stripes (Suc fuel) p v =
     rbind (XXH64_stripe p v) (\<lambda>(v', p'). if 32 \<le> length p' then XXH64_stripes fuel p' v' else Inr (Some (v', p')))"

definition XXH64_init :: "uint64 \<Rightarrow> accs" where
  "XXH64_init seed = (seed + PRIME64_1 + PRIME64_2, seed + PRIME64_2, seed + 0, seed - PRIME64_1)"

definition XXH64_merge :: "accs \<Rightarrow> uint64" where
  "XXH64_merge v = (case v of (v1, v2, v3, v4) \<Rightarrow>
     let h64 = XXH_rotl64 v1 1 + XXH_rotl64 v2 7 + XXH_rotl64 v3 12 + XXH_rotl64 v4 18;
         h64 = XXH64_mergeRound h64 v1;
         h64 = XXH64_mergeRound h64 v2;
         h64 = XXH64_mergeRound h64 v3
     in XXH64_mergeRound h64 v4)"

text \<open>
  The loop runs at most once per input byte, so the length of the input is fuel enough; the
  value \<^term>\<open>None\<close> of running out of it does not occur.
\<close>

definition XXH64 :: "byte list \<Rightarrow> uint64 \<Rightarrow> uint64 option result" where
  "XXH64 input seed =
     (let len = length input in
      rbind (if 32 \<le> len then
               rbind (XXH64_stripes len input (XXH64_init seed)) (\<lambda>r.
               Inr (map_option (\<lambda>(v, p). (XXH64_merge v, p)) r))
             else Inr (Some (seed + PRIME64_5, input))) (\<lambda>r.
      case r of None \<Rightarrow> Inr None
      | Some (h64, p) \<Rightarrow> rbind (XXH64_finalize (h64 + of_nat len) p len) (\<lambda>h. Inr (Some h))))"

section \<open>The reference over chunks\<close>

fun chunks :: "nat \<Rightarrow> nat \<Rightarrow> 'a list \<Rightarrow> 'a list list" where
  "chunks k 0 xs = []"
| "chunks k (Suc n) xs = take k xs # chunks k n (drop k xs)"

definition stripe_spec :: "byte list \<Rightarrow> accs \<Rightarrow> accs" where
  "stripe_spec s v = (case v of (v1, v2, v3, v4) \<Rightarrow>
     (XXH64_round v1 (load64_at s 0), XXH64_round v2 (load64_at s 1),
      XXH64_round v3 (load64_at s 2), XXH64_round v4 (load64_at s 3)))"

definition tail_spec :: "byte list \<Rightarrow> uint64 \<Rightarrow> uint64" where
  "tail_spec t h =
     (let n8 = length t div 8;
          h = fold (\<lambda>w. PROCESS8_64 (load64 w)) (chunks 8 n8 t) h;
          r = drop (8 * n8) t;
          h = (if 4 \<le> length r then PROCESS4_64 (load32 (take 4 r)) h else h);
          r = (if 4 \<le> length r then drop 4 r else r)
      in fold PROCESS1_64 r h)"

definition XXH64_spec :: "byte list \<Rightarrow> uint64 \<Rightarrow> uint64" where
  "XXH64_spec input seed =
     (let n = length input div 32;
          h = (if length input < 32 then seed + PRIME64_5
               else XXH64_merge (fold stripe_spec (chunks 32 n input) (XXH64_init seed)))
      in XXH64_avalanche (tail_spec (drop (32 * n) input) (h + of_nat (length input))))"

section \<open>Lemmas\<close>

lemma finalize8_spec:
  "length p = len \<Longrightarrow> finalize8 len p h =
    Inr (len mod 8, drop (8 * (len div 8)) p, fold (\<lambda>w. PROCESS8_64 (load64 w)) (chunks 8 (len div 8) p) h)"
proof (induction len p h rule: finalize8.induct)
  case (1 len p h)
  show ?case
  proof (cases "8 \<le> len")
    case True
    then have d: "len div 8 = Suc ((len - 8) div 8)" "(len - 8) mod 8 = len mod 8"
      by (simp_all add: le_div_geq le_mod_geq)
    have "finalize8 (len - 8) (drop 8 p) (PROCESS8_64 (load64 (take 8 p)) h) =
      Inr ((len - 8) mod 8, drop (8 * ((len - 8) div 8)) (drop 8 p),
        fold (\<lambda>w. PROCESS8_64 (load64 w)) (chunks 8 ((len - 8) div 8) (drop 8 p)) (PROCESS8_64 (load64 (take 8 p)) h))"
      using True 1 by simp
    with True 1 d show ?thesis
      by (subst finalize8.simps) (simp add: XXH_readLE64_def add.commute)
  next
    case False
    then show ?thesis by (subst finalize8.simps) simp
  qed
qed

lemma finalize1_spec: "length p = len \<Longrightarrow> finalize1 len p h = Inr (fold PROCESS1_64 p h)"
  by (induction len p h rule: finalize1.induct) simp_all

lemma finalize_spec:
  assumes "length p = len mod 32"
  shows "XXH64_finalize h p len = Inr (XXH64_avalanche (tail_spec p h))"
proof -
  define r where "r = drop (8 * (length p div 8)) p"
  have r: "length p mod 8 = length r" by (simp add: r_def minus_mult_div_eq_mod)
  show ?thesis
    unfolding XXH64_finalize_def finalize8_spec [OF refl] tail_spec_def Let_def assms [symmetric] r_def [symmetric] r
    by (simp add: XXH_readLE32_def finalize1_spec)
qed

lemma stripe_reads:
  assumes "32 \<le> length p"
  shows "XXH64_stripe p v = Inr (stripe_spec (take 32 p) v, drop 32 p)"
  using assms
  by (cases v) (simp add: XXH64_stripe_def stripe_spec_def XXH_readLE64_def load64_at_def Let_def take_drop min_def; arith)

lemma stripes_spec:
  assumes "32 \<le> length p" "length p \<le> fuel"
  shows "XXH64_stripes fuel p v =
    Inr (Some (fold stripe_spec (chunks 32 (length p div 32) p) v, drop (32 * (length p div 32)) p))"
  using assms
proof (induction fuel arbitrary: p v)
  case (Suc fuel)
  have d: "length p div 32 = Suc ((length p - 32) div 32)" using Suc.prems by (simp add: le_div_geq)
  show ?case
  proof (cases "32 \<le> length (drop 32 p)")
    case True
    then have "XXH64_stripes fuel (drop 32 p) (stripe_spec (take 32 p) v) =
      Inr (Some (fold stripe_spec (chunks 32 (length (drop 32 p) div 32) (drop 32 p)) (stripe_spec (take 32 p) v),
        drop (32 * (length (drop 32 p) div 32)) (drop 32 p)))"
      using Suc.prems by (intro Suc.IH) simp_all
    with True Suc.prems d show ?thesis by (simp add: stripe_reads add.commute)
  next
    case False
    with Suc.prems d show ?thesis by (simp add: stripe_reads)
  qed
qed simp

lemma XXH64_value: "XXH64 input seed = Inr (Some (XXH64_spec input seed))"
proof (cases "32 \<le> length input")
  case True
  have "length (drop (32 * (length input div 32)) input) = length input mod 32" by (simp add: minus_mult_div_eq_mod)
  with True show ?thesis
    by (simp add: XXH64_def XXH64_spec_def Let_def stripes_spec finalize_spec)
next
  case False
  then show ?thesis
    by (simp add: XXH64_def XXH64_spec_def Let_def finalize_spec)
qed

section \<open>Properties\<close>


text \<open>The published hash of the empty input.\<close>

lemma XXH64_empty: "XXH64 [] 0 = Inr (Some 0xEF46DB3751D8E999)"
  by code_simp

end
