(* ===== verification/Radix.thy ===== *)
theory Radix
  imports Prelude
begin

text \<open>
  Numbers in a base, least significant digit first, and the two-loop step of a base
  conversion: multiply the digits by a factor and add a carry, then push what is left of the
  carry. The contract \<open>radix_step\<close> is what both conversions of \<^verbatim>\<open>src/utils/address.cpp\<close> meet.
\<close>

fun radix_val :: "int \<Rightarrow> int list \<Rightarrow> int" where
  "radix_val B [] = 0"
| "radix_val B (d # ds) = d + B * radix_val B ds"

definition in_base :: "int \<Rightarrow> int list \<Rightarrow> bool" where
  "in_base B ds \<longleftrightarrow> list_all (\<lambda>d. 0 \<le> d \<and> d < B) ds"

text \<open>The digits of a number, at least one and no leading zero otherwise.\<close>

function radix_digits :: "int \<Rightarrow> int \<Rightarrow> int list" where
  "radix_digits B v = (if 1 < B \<and> B \<le> v then v mod B # radix_digits B (v div B) else [v])"
  by pat_completeness auto
termination
proof (relation "measure (\<lambda>(B, v). nat v)")
  fix B v :: int
  assume "1 < B \<and> B \<le> v"
  then have "v div B < v" by (intro int_div_less_self) auto
  with \<open>1 < B \<and> B \<le> v\<close> show "((B, v div B), B, v) \<in> measure (\<lambda>(B, v). nat v)" by simp
qed simp

declare radix_digits.simps [simp del]

lemma in_base_simps [simp]:
  "in_base B []" "in_base B (d # ds) \<longleftrightarrow> (0 \<le> d \<and> d < B) \<and> in_base B ds"
  "in_base B (ds @ es) \<longleftrightarrow> in_base B ds \<and> in_base B es" "in_base B (rev ds) \<longleftrightarrow> in_base B ds"
  by (auto simp: in_base_def list_all_iff)

lemma in_base_replicate [simp]: "in_base B (replicate n d) \<longleftrightarrow> n = 0 \<or> 0 \<le> d \<and> d < B"
  by (auto simp: in_base_def list_all_iff)

lemma takeWhile_replicate: "P x \<Longrightarrow> takeWhile P (replicate n x @ xs) = replicate n x @ takeWhile P xs"
  by (induction n) simp_all

lemma radix_val_append: "radix_val B (ds @ es) = radix_val B ds + B ^ length ds * radix_val B es"
  by (induction ds) (simp_all add: algebra_simps)

lemma radix_val_nonneg: "0 \<le> B \<Longrightarrow> in_base B ds \<Longrightarrow> 0 \<le> radix_val B ds"
  by (induction ds) simp_all

lemma radix_val_less: "in_base B ds \<Longrightarrow> radix_val B ds < B ^ length ds"
proof (induction ds)
  case (Cons d ds)
  then have "radix_val B ds + 1 \<le> B ^ length ds" "0 \<le> d" "d < B" by auto
  then have "B * (radix_val B ds + 1) \<le> B * B ^ length ds" by (intro mult_left_mono) auto
  with \<open>d < B\<close> show ?case by (simp add: algebra_simps)
qed simp

lemma radix_digits_val: "0 \<le> v \<Longrightarrow> radix_val B (radix_digits B v) = v"
proof (induction B v rule: radix_digits.induct)
  case (1 B v)
  then show ?case by (subst radix_digits.simps) (auto simp: pos_imp_zdiv_nonneg_iff)
qed

lemma radix_digits_in_base: "1 < B \<Longrightarrow> 0 \<le> v \<Longrightarrow> in_base B (radix_digits B v)"
proof (induction B v rule: radix_digits.induct)
  case (1 B v)
  then show ?case by (subst radix_digits.simps) (auto simp: pos_imp_zdiv_nonneg_iff)
qed

lemma radix_digits_nonempty [simp]: "radix_digits B v \<noteq> []"
  by (subst radix_digits.simps) simp

text \<open>A list of digits that is not longer than its value needs is the list of digits of its value.\<close>

lemma radix_digits_unique:
  assumes "1 < B"
  shows "in_base B ds \<Longrightarrow> ds \<noteq> [] \<Longrightarrow> length ds = 1 \<or> B ^ (length ds - 1) \<le> radix_val B ds \<Longrightarrow>
    radix_digits B (radix_val B ds) = ds"
proof (induction ds)
  case (Cons d ds)
  show ?case
  proof (cases ds)
    case Nil
    with Cons.prems show ?thesis by (subst radix_digits.simps) simp
  next
    case (Cons e es)
    define v where "v = radix_val B ds"
    have d: "0 \<le> d" "d < B" "in_base B ds" using Cons.prems by simp_all
    have "B ^ length ds \<le> d + B * v" using Cons.prems Cons by (simp add: v_def)
    then have "B ^ length ds \<le> B * v + (B - 1)" using d by linarith
    then have "B ^ length ds div B \<le> (B * v + (B - 1)) div B" using assms by (intro zdiv_mono1) auto
    moreover have "(B * v + (B - 1)) div B = v" using assms by (simp add: div_pos_pos_trivial)
    moreover have "B ^ length ds div B = B ^ (length ds - 1)" using assms Cons by simp
    ultimately have le: "B ^ (length ds - 1) \<le> v" by simp
    then have IH: "radix_digits B v = ds" using Cons.IH d Cons by (simp add: v_def)
    have "1 \<le> v" using le assms by (metis less_le_trans int_one_le_iff_zero_less zero_less_power zero_less_one order_less_trans)
    then have "B \<le> d + B * v" using d assms by (metis add_increasing mult.right_neutral mult_left_mono order_less_imp_le order_less_trans zero_less_one)
    moreover have "(d + B * v) mod B = d" "(d + B * v) div B = v" using d assms by simp_all
    ultimately show ?thesis using assms IH
      by (subst radix_digits.simps) (simp flip: v_def)
  qed
qed simp

lemma radix_digits_longer:
  assumes "1 < B" "B ^ n \<le> v"
  shows "n < length (radix_digits B v)"
proof (rule ccontr)
  assume "\<not> n < length (radix_digits B v)"
  then have "B ^ length (radix_digits B v) \<le> B ^ n" using assms(1) by (intro power_increasing) auto
  moreover have "0 \<le> v" using assms by (meson order_trans zero_le_power order_less_imp_le zero_less_one order_less_trans)
  moreover from this have "v < B ^ length (radix_digits B v)"
    using radix_val_less [OF radix_digits_in_base [OF assms(1)], of v] by (simp add: radix_digits_val)
  ultimately show False using assms(2) by linarith
qed

lemma radix_digits_length:
  assumes "1 < B" "0 < v"
  shows "B ^ (length (radix_digits B v) - 1) \<le> v"
  using assms
proof (induction B v rule: radix_digits.induct)
  case (1 B v)
  show ?case
  proof (cases "B \<le> v")
    case True
    then have q: "0 < v div B" using 1 by (simp add: pos_imp_zdiv_pos_iff)
    obtain n where n: "length (radix_digits B (v div B)) = Suc n"
      by (metis radix_digits_nonempty length_0_conv not0_implies_Suc)
    have "B ^ n \<le> v div B" using 1 True q n by simp
    then have "B * B ^ n \<le> B * (v div B)" using 1 by (intro mult_left_mono) auto
    also have "\<dots> \<le> v" using 1 by (simp add: mult_div_mod_eq [symmetric] minus_mod_eq_mult_div [symmetric])
    finally show ?thesis using True 1 n by (subst radix_digits.simps) simp
  next
    case False
    then show ?thesis using 1 by (subst radix_digits.simps) simp
  qed
qed

lemma radix_digits_last: "1 < B \<Longrightarrow> 0 < v \<Longrightarrow> last (radix_digits B v) \<noteq> 0"
proof (induction B v rule: radix_digits.induct)
  case (1 B v)
  then show ?case by (subst radix_digits.simps) (auto simp: pos_imp_zdiv_pos_iff)
qed

section \<open>The step of a conversion\<close>

text \<open>
  A conversion to base \<open>B\<close> of numbers given in base \<open>M\<close>. Its inner loop runs a carry below
  \<open>M\<close> through the digits; its second loop pushes the digits of the carry to an array that
  holds \<open>cap\<close> digits.
\<close>

locale radix_step =
  fixes B M :: int
    and carry :: "int \<Rightarrow> int list \<Rightarrow> int list \<times> int"
    and push :: "nat \<Rightarrow> int list \<Rightarrow> int \<Rightarrow> int list result"
  assumes base: "1 < B" "1 < M"
    and carry_Nil: "carry c [] = ([], c)"
    and carry_Cons: "0 \<le> c \<Longrightarrow> c < M \<Longrightarrow> 0 \<le> d \<Longrightarrow> d < B \<Longrightarrow>
      carry c (d # ds) = ((c + d * M) mod B # fst (carry ((c + d * M) div B) ds), snd (carry ((c + d * M) div B) ds))"
    and push_0: "push cap ds 0 = Inr ds"
    and push_pos: "0 < c \<Longrightarrow> c < M \<Longrightarrow> push cap ds c =
      (if length ds < cap then push cap (ds @ [c mod B]) (c div B) else Inl (Undefined OutOfBounds))"
begin

lemma carry_spec:
  assumes "0 \<le> c" "c < M" "in_base B ds"
  shows "radix_val B (fst (carry c ds)) + B ^ length ds * snd (carry c ds) = c + M * radix_val B ds
    \<and> in_base B (fst (carry c ds)) \<and> length (fst (carry c ds)) = length ds
    \<and> 0 \<le> snd (carry c ds) \<and> snd (carry c ds) < M"
  using assms
proof (induction ds arbitrary: c)
  case (Cons d ds)
  define x where "x = c + d * M"
  have d: "0 \<le> d" "d < B" "in_base B ds" using Cons.prems by simp_all
  have x0: "0 \<le> x" using Cons.prems d base by (simp add: x_def)
  have "d * M \<le> (B - 1) * M" using d base by (intro mult_right_mono) auto
  then have "x < M * B" using Cons.prems(2) by (simp add: x_def algebra_simps)
  moreover have "B * (x div B) \<le> x" using mult_div_mod_eq [of B x] pos_mod_sign [of B x] base by linarith
  ultimately have "B * (x div B) < B * M" by (simp add: mult.commute)
  then have q: "0 \<le> x div B" "x div B < M" using x0 base by (simp_all add: pos_imp_zdiv_nonneg_iff)
  have "radix_val B (fst (carry (x div B) ds)) + B ^ length ds * snd (carry (x div B) ds) = x div B + M * radix_val B ds
    \<and> in_base B (fst (carry (x div B) ds)) \<and> length (fst (carry (x div B) ds)) = length ds
    \<and> 0 \<le> snd (carry (x div B) ds) \<and> snd (carry (x div B) ds) < M"
    using q d(3) by (rule Cons.IH)
  note IH = this
  have c: "carry c (d # ds) = (x mod B # fst (carry (x div B) ds), snd (carry (x div B) ds))"
    unfolding x_def by (rule carry_Cons [OF Cons.prems(1,2) d(1,2)])
  have "x mod B + B * radix_val B (fst (carry (x div B) ds)) + B ^ Suc (length ds) * snd (carry (x div B) ds) =
      x mod B + B * (radix_val B (fst (carry (x div B) ds)) + B ^ length ds * snd (carry (x div B) ds))"
    by (simp add: algebra_simps)
  also have "\<dots> = (x mod B + B * (x div B)) + M * (B * radix_val B ds)"
    using IH by (simp add: algebra_simps)
  also have "\<dots> = c + M * radix_val B (d # ds)"
    by (simp add: mod_mult_div_eq x_def algebra_simps)
  finally show ?case using IH base unfolding c by simp
qed (simp_all add: carry_Nil)

text \<open>Pushing yields the digits of the value, unless the array is too small for them.\<close>

lemma push_spec:
  assumes "0 \<le> c" "c < M" "in_base B ds" "length ds \<le> cap"
    and "c = 0 \<Longrightarrow> ds = radix_digits B (radix_val B ds)"
  shows "push cap ds c =
    (let r = radix_digits B (radix_val B ds + B ^ length ds * c)
     in if length r \<le> cap then Inr r else Inl (Undefined OutOfBounds))"
  using assms
proof (induction "nat c" arbitrary: c ds rule: less_induct)
  case less
  show ?case
  proof (cases "c = 0")
    case True
    then show ?thesis using less.prems by (simp add: push_0 Let_def)
  next
    case False
    then have c: "0 < c" using less.prems by simp
    show ?thesis
    proof (cases "length ds < cap")
      case True
      define ds' where "ds' = ds @ [c mod B]"
      define c' where "c' = c div B"
      have c': "0 \<le> c'" "c' < c" using c base by (simp_all add: c'_def pos_imp_zdiv_nonneg_iff int_div_less_self)
      have v: "radix_val B ds' + B ^ length ds' * c' = radix_val B ds + B ^ length ds * c"
      proof -
        have "radix_val B (ds @ [m]) + B ^ length (ds @ [m]) * q = radix_val B ds + B ^ length ds * (m + B * q)" for m q
          by (simp add: radix_val_append algebra_simps)
        then show ?thesis unfolding ds'_def c'_def by (simp only: mod_mult_div_eq)
      qed
      have b': "in_base B ds'" using less.prems base by (simp add: ds'_def)
      have "ds' = radix_digits B (radix_val B ds')" if "c' = 0"
      proof -
        have "c = B * (c div B) + c mod B" by simp
        then have "c mod B = c" using that unfolding c'_def by (metis add_0 mult_zero_right)
        moreover have "B ^ length ds * 1 \<le> B ^ length ds * c" using c base by (intro mult_left_mono) auto
        moreover have "0 \<le> radix_val B ds" using radix_val_nonneg [of B ds] less.prems(3) base by simp
        ultimately have "B ^ length ds \<le> radix_val B ds'" by (simp add: ds'_def radix_val_append)
        then show ?thesis using radix_digits_unique [OF base(1) b'] by (simp add: ds'_def)
      qed
      then have "push cap ds' c' = (let r = radix_digits B (radix_val B ds' + B ^ length ds' * c')
          in if length r \<le> cap then Inr r else Inl (Undefined OutOfBounds))"
        using c c' less.prems b' True by (intro less.hyps) (simp_all add: ds'_def)
      then show ?thesis using v True c less.prems push_pos [of c cap ds] by (simp add: ds'_def c'_def)
    next
      case False
      then have l: "length ds = cap" using less.prems by simp
      have "B ^ cap * 1 \<le> B ^ cap * c" using c base by (intro mult_left_mono) auto
      moreover have "0 \<le> radix_val B ds" using radix_val_nonneg [of B ds] less.prems(3) base by simp
      ultimately have "B ^ cap \<le> radix_val B ds + B ^ length ds * c" unfolding l by linarith
      then have "cap < length (radix_digits B (radix_val B ds + B ^ length ds * c))"
        by (rule radix_digits_longer [OF base(1)])
      then show ?thesis using False c less.prems push_pos [of c cap ds] by (simp add: Let_def)
    qed
  qed
qed

lemma step_spec:
  assumes "0 \<le> c" "c < M" "0 \<le> v" "length (radix_digits B v) \<le> cap"
  shows "push cap (fst (carry c (radix_digits B v))) (snd (carry c (radix_digits B v))) =
    (let r = radix_digits B (v * M + c) in if length r \<le> cap then Inr r else Inl (Undefined OutOfBounds))"
proof -
  define ds where "ds = radix_digits B v"
  define es where "es = fst (carry c ds)"
  have b: "in_base B ds" using assms base by (simp add: ds_def radix_digits_in_base)
  have val: "radix_val B ds = v" using assms by (simp add: ds_def radix_digits_val)
  have sp: "radix_val B es + B ^ length ds * snd (carry c ds) = c + M * v" "in_base B es" "length es = length ds"
    "0 \<le> snd (carry c ds)" "snd (carry c ds) < M"
    using carry_spec [OF assms(1,2) b] val by (simp_all add: es_def)
  have "es = radix_digits B (radix_val B es)" if z: "snd (carry c ds) = 0"
  proof -
    have ne: "es \<noteq> []" using sp(3) by (metis ds_def length_0_conv radix_digits_nonempty)
    have "length es = 1 \<or> B ^ (length es - 1) \<le> radix_val B es"
    proof (cases "v = 0")
      case True
      then have "length ds = 1" using base by (simp add: ds_def radix_digits.simps)
      then show ?thesis using sp by simp
    next
      case False
      then have "B ^ (length ds - 1) \<le> v" using radix_digits_length [OF base(1)] assms by (simp add: ds_def)
      also have "v \<le> M * v" using assms base mult_right_mono [of 1 M v] by simp
      finally show ?thesis using sp z assms by simp
    qed
    then show ?thesis using radix_digits_unique [OF base(1) sp(2) ne] by simp
  qed
  then have "push cap es (snd (carry c ds)) = (let r = radix_digits B (radix_val B es + B ^ length es * snd (carry c ds))
      in if length r \<le> cap then Inr r else Inl (Undefined OutOfBounds))"
    using sp assms(4) by (intro push_spec) (simp_all add: ds_def)
  then show ?thesis using sp by (simp add: es_def ds_def algebra_simps)
qed

end

section \<open>The loop over the input\<close>

text \<open>A conversion reads its input symbols, most significant first; \<open>dig\<close> is a symbol's value.\<close>

lemma radix_digits_mono:
  assumes "1 < B" "0 \<le> v" "v \<le> w"
  shows "length (radix_digits B v) \<le> length (radix_digits B w)"
proof (cases "v = 0")
  case True
  then have "length (radix_digits B v) = 1" using assms by (subst radix_digits.simps) simp
  moreover have "radix_digits B w \<noteq> []" by simp
  then have "1 \<le> length (radix_digits B w)" by (simp add: Suc_le_eq)
  ultimately show ?thesis by simp
next
  case False
  then have "B ^ (length (radix_digits B v) - 1) \<le> w" using radix_digits_length [of B v] assms by simp
  from radix_digits_longer [OF assms(1) this] show ?thesis by simp
qed

locale radix_loop = radix_step B M carry push
  for B M :: int
    and carry :: "int \<Rightarrow> int list \<Rightarrow> int list \<times> int"
    and push :: "nat \<Rightarrow> int list \<Rightarrow> int \<Rightarrow> int list result" +
  fixes loop :: "nat \<Rightarrow> 'b list \<Rightarrow> int list \<Rightarrow> int list result"
    and dig :: "'b \<Rightarrow> int"
    and symbol :: "'b \<Rightarrow> bool"
  assumes dig: "symbol b \<Longrightarrow> 0 \<le> dig b \<and> dig b < M"
    and loop_Nil: "loop cap [] ds = Inr ds"
    and loop_Cons: "symbol b \<Longrightarrow> loop cap (b # bs) ds =
      rbind (push cap (fst (carry (dig b) ds)) (snd (carry (dig b) ds))) (loop cap bs)"
begin

definition msb_val :: "int \<Rightarrow> 'b list \<Rightarrow> int" where
  "msb_val = foldl (\<lambda>v b. v * M + dig b)"

lemma msb_val_simps [simp]: "msb_val v [] = v" "msb_val v (b # bs) = msb_val (v * M + dig b) bs"
  by (simp_all add: msb_val_def)

lemma msb_val_ge: "list_all symbol bs \<Longrightarrow> 0 \<le> v \<Longrightarrow> v * M ^ length bs \<le> msb_val v bs"
proof (induction bs arbitrary: v)
  case (Cons b bs)
  have d: "0 \<le> dig b" using Cons.prems dig by simp
  have "v * M * M ^ length bs \<le> (v * M + dig b) * M ^ length bs"
    using d base by (intro mult_right_mono) auto
  also have "\<dots> \<le> msb_val (v * M + dig b) bs" using Cons d base by (intro Cons.IH) auto
  finally show ?case by (simp add: algebra_simps)
qed simp

lemma msb_val_less: "list_all symbol bs \<Longrightarrow> 0 \<le> v \<Longrightarrow> msb_val v bs < (v + 1) * M ^ length bs"
proof (induction bs arbitrary: v)
  case (Cons b bs)
  have d: "0 \<le> dig b" "dig b < M" using Cons.prems dig by simp_all
  have "msb_val (v * M + dig b) bs < (v * M + dig b + 1) * M ^ length bs" using Cons d base by (intro Cons.IH) auto
  also have "\<dots> \<le> ((v + 1) * M) * M ^ length bs"
    using d base by (intro mult_right_mono) (auto simp: algebra_simps)
  finally show ?case by (simp add: algebra_simps)
qed simp

lemma msb_val_nonneg: "list_all symbol bs \<Longrightarrow> 0 \<le> v \<Longrightarrow> v \<le> msb_val v bs"
proof (induction bs arbitrary: v)
  case (Cons b bs)
  have d: "0 \<le> dig b" using Cons.prems dig by simp
  have "v * 1 \<le> v * M" using base Cons.prems by (intro mult_left_mono) auto
  then have le: "v \<le> v * M + dig b" using d by linarith
  then have "v * M + dig b \<le> msb_val (v * M + dig b) bs" using Cons by (intro Cons.IH) auto
  with le show ?case by simp
qed simp

lemma loop_spec:
  assumes "list_all symbol bs" "0 \<le> v" "length (radix_digits B v) \<le> cap"
  shows "loop cap bs (radix_digits B v) =
    (let r = radix_digits B (msb_val v bs) in if length r \<le> cap then Inr r else Inl (Undefined OutOfBounds))"
  using assms
proof (induction bs arbitrary: v)
  case (Cons b bs)
  define w where "w = v * M + dig b"
  have d: "0 \<le> dig b" "dig b < M" "symbol b" using Cons.prems dig by simp_all
  have w: "0 \<le> w" using d base Cons.prems by (simp add: w_def)
  have step: "loop cap (b # bs) (radix_digits B v) =
      (if length (radix_digits B w) \<le> cap then loop cap bs (radix_digits B w) else Inl (Undefined OutOfBounds))"
    using step_spec [OF d(1,2) Cons.prems(2,3)] loop_Cons [OF d(3)] by (simp add: w_def Let_def)
  show ?case
  proof (cases "length (radix_digits B w) \<le> cap")
    case True
    then show ?thesis using step Cons w by (simp add: w_def)
  next
    case False
    have "w \<le> msb_val w bs" using Cons.prems w msb_val_nonneg by simp
    from radix_digits_mono [OF base(1) w this] False
    have "\<not> length (radix_digits B (msb_val w bs)) \<le> cap" by simp
    then show ?thesis using step False by (simp add: w_def)
  qed
qed (simp add: loop_Nil Let_def)

text \<open>The base-\<open>M\<close> digits of the input are the digits of its value.\<close>

lemma msb_val_radix: "msb_val v bs = radix_val M (rev (map dig bs)) + M ^ length bs * v"
  by (induction bs arbitrary: v) (simp_all add: radix_val_append algebra_simps)

lemma in_base_dig: "list_all symbol bs \<Longrightarrow> in_base M (rev (map dig bs))"
  using dig by (simp add: in_base_def list_all_iff)

lemma digits_of_input:
  assumes "list_all symbol (b # bs)" "dig b \<noteq> 0"
  shows "radix_digits M (msb_val 0 (b # bs)) = rev (map dig (b # bs))"
proof -
  have d: "0 < dig b" using assms dig [of b] by simp
  have "1 * M ^ length bs \<le> dig b * M ^ length bs" using d base by (intro mult_right_mono) auto
  also have "\<dots> \<le> msb_val (dig b) bs" using assms d by (intro msb_val_ge) auto
  finally have "M ^ length bs \<le> msb_val 0 (b # bs)" by simp
  then show ?thesis
    using radix_digits_unique [OF base(2) in_base_dig [OF assms(1)]] by (simp add: msb_val_radix)
qed

end

end
