(* ===== verification/Address.thy ===== *)
theory Address
  imports Radix Blake2b Scale Converters
begin

text \<open>
  The SS58 addresses of \<^verbatim>\<open>src/utils/address.cpp\<close>: base-58 encoding and decoding in place,
  and the conversion between addresses and public keys with its BLAKE2b checksum. Digits and
  carries are integers; a carry is an \<^verbatim>\<open>unsigned int\<close>, so additions are modulo $2^{32}$.
\<close>

abbreviation PUBLIC_KEY_LENGTH :: nat where "PUBLIC_KEY_LENGTH \<equiv> 32"
abbreviation ADDRESS_LENGTH :: nat where "ADDRESS_LENGTH \<equiv> 48"

definition ALPHABET :: string where
  "ALPHABET = ''123456789ABCDEFGHJKLMNPQRSTUVWXYZabcdefghijkmnopqrstuvwxyz''"

definition ALPHABET_MAP :: "int list" where
  "ALPHABET_MAP = [
    -1, -1, -1, -1, -1, -1, -1, -1, -1, -1, -1, -1, -1, -1, -1, -1, -1, -1, -1, -1, -1, -1, -1, -1, -1, -1,
    -1, -1, -1, -1, -1, -1, -1, -1, -1, -1, -1, -1, -1, -1, -1, -1, -1, -1, -1, -1, -1, -1, -1, 0,  1,  2,
    3,  4,  5,  6,  7,  8,  -1, -1, -1, -1, -1, -1, -1, 9,  10, 11, 12, 13, 14, 15, 16, -1, 17, 18, 19, 20,
    21, -1, 22, 23, 24, 25, 26, 27, 28, 29, 30, 31, 32, -1, -1, -1, -1, -1, -1, 33, 34, 35, 36, 37, 38, 39,
    40, 41, 42, 43, -1, 44, 45, 46, 47, 48, 49, 50, 51, 52, 53, 54, 55, 56, 57, -1, -1, -1, -1, -1]"

section \<open>Base 58\<close>

text \<open>The loop over the digits so far: their new values and the carry.\<close>

fun enc58_carry :: "int \<Rightarrow> int list \<Rightarrow> int list \<times> int" where
  "enc58_carry carry [] = ([], carry)"
| "enc58_carry carry (d # digits) =
     (let carry = (carry + d * 256) mod 2 ^ 32;
          (digits', carry') = enc58_carry (carry div 58) digits
      in (carry mod 58 # digits', carry'))"

text \<open>\<^verbatim>\<open>while (carry > 0) digits[digitslen++] = ...\<close>, to an array of \<open>cap\<close> digits.\<close>

function enc58_push :: "nat \<Rightarrow> int list \<Rightarrow> int \<Rightarrow> int list result" where
  "enc58_push cap digits carry =
     (if 0 < carry then
        if length digits < cap then enc58_push cap (digits @ [carry mod 58]) (carry div 58)
        else Inl (Undefined OutOfBounds)
      else Inr digits)"
  by pat_completeness auto
termination
  by (relation "measure (\<lambda>(cap, digits, carry). nat carry)") auto

declare enc58_push.simps [simp del]

fun enc58_loop :: "nat \<Rightarrow> byte list \<Rightarrow> int list \<Rightarrow> int list result" where
  "enc58_loop cap [] digits = Inr digits"
| "enc58_loop cap (b # bytes) digits =
     (let (digits', carry) = enc58_carry (uint b) digits in
      rbind (enc58_push cap digits' carry) (\<lambda>digits''. enc58_loop cap bytes digits''))"

text \<open>
  The encoding with a digit array of \<open>cap\<close> bytes into a result of \<open>res_cap\<close> bytes: the
  string, without its NUL, that ends up in the result.
\<close>

definition EncodeBase58_cap :: "nat \<Rightarrow> nat \<Rightarrow> byte list \<Rightarrow> string result" where
  "EncodeBase58_cap cap res_cap bytes =
     (if cap = 0 then Inl (Undefined OutOfBounds)
      else
        rbind (enc58_loop cap bytes [0]) (\<lambda>digits.
        (let ones = takeWhile (\<lambda>b. b = 0) bytes;
             result = map (\<lambda>_. CHR ''1'') ones @ map (\<lambda>d. ALPHABET ! nat d) (rev digits)
         in if length result < res_cap then Inr result else Inl (Undefined OutOfBounds))))"

definition EncodeBase58 :: "nat \<Rightarrow> byte list \<Rightarrow> string result" where
  "EncodeBase58 res_cap bytes = EncodeBase58_cap (length bytes * 137 div 100) res_cap bytes"

fun dec58_carry :: "int \<Rightarrow> int list \<Rightarrow> int list \<times> int" where
  "dec58_carry carry [] = ([], carry)"
| "dec58_carry carry (d # res) =
     (let carry = (carry + d * 58) mod 2 ^ 32;
          (res', carry') = dec58_carry (carry div 256) res
      in (carry mod 256 # res', carry'))"

function dec58_push :: "nat \<Rightarrow> int list \<Rightarrow> int \<Rightarrow> int list result" where
  "dec58_push cap res carry =
     (if 0 < carry then
        if length res < cap then dec58_push cap (res @ [carry mod 256]) (carry div 256)
        else Inl (Undefined OutOfBounds)
      else Inr res)"
  by pat_completeness auto
termination
  by (relation "measure (\<lambda>(cap, res, carry). nat carry)") auto

declare dec58_push.simps [simp del]

text \<open>A symbol outside the alphabet counts as $2^{32}-1$, one above 127 reads past the map.\<close>

fun dec58_loop :: "nat \<Rightarrow> byte list \<Rightarrow> int list \<Rightarrow> int list result" where
  "dec58_loop cap [] res = Inr res"
| "dec58_loop cap (b # str) res =
     (if unat b < length ALPHABET_MAP then
        (let (res', carry) = dec58_carry (ALPHABET_MAP ! unat b mod 2 ^ 32) res in
         rbind (dec58_push cap res' carry) (\<lambda>res''. dec58_loop cap str res''))
      else Inl (Undefined OutOfBounds))"

text \<open>The swaps that reverse the result: \<^verbatim>\<open>i\<close> from the last index down to the middle.\<close>

definition swap58 :: "int list \<Rightarrow> nat \<Rightarrow> int list" where
  "swap58 res i = res[i := res ! (length res - i - 1), length res - i - 1 := res ! i]"

definition reverse58 :: "int list \<Rightarrow> int list" where
  "reverse58 res = foldl swap58 res (rev [length res div 2 + length res mod 2..<length res])"

definition DecodeBase58 :: "nat \<Rightarrow> byte list \<Rightarrow> byte list result" where
  "DecodeBase58 cap str =
     (if cap = 0 then Inl (Undefined OutOfBounds)
      else
        rbind (dec58_loop cap str [0]) (\<lambda>res.
        (let zeros = takeWhile (\<lambda>b. b = word_of_int (of_char (CHR ''1''))) str;
             res' = res @ map (\<lambda>_. 0) zeros
         in if length res' \<le> cap then Inr (map word_of_int (reverse58 res')) else Inl (Undefined OutOfBounds))))"

section \<open>Addresses and keys\<close>

definition SS58_PREFIX :: "byte list" where
  "SS58_PREFIX = [0x53, 0x53, 0x35, 0x38, 0x50, 0x52, 0x45]"

text \<open>
  The first two bytes of the hash of the prefixed address type and key. The call passes
  valid lengths, so \<^verbatim>\<open>blake2\<close> never refuses; its output array starts as zeros.
\<close>

definition ss58_checksum :: "byte list \<Rightarrow> byte list" where
  "ss58_checksum typed_key = (case blake2 64 (SS58_PREFIX @ typed_key) [] of
     Some hash \<Rightarrow> take 2 hash | None \<Rightarrow> [0, 0])"

text \<open>The overload for \<^verbatim>\<open>Address\<close>: 48 symbols to 32 key bytes.\<close>

definition getPublicKeyFromAddr :: "byte list \<Rightarrow> byte list result" where
  "getPublicKeyFromAddr symbols =
     rbind (DecodeBase58 ADDRESS_LENGTH symbols) (\<lambda>bs58decoded.
     if length bs58decoded = 35 then
       if take 2 (drop (1 + PUBLIC_KEY_LENGTH) bs58decoded) \<noteq> ss58_checksum (take (PUBLIC_KEY_LENGTH + 1) bs58decoded)
       then Inl (Throw (ApplicationException ''Address checksum is wrong.''))
       else Inr (take PUBLIC_KEY_LENGTH (drop 1 bs58decoded))
     else Inr (replicate PUBLIC_KEY_LENGTH 0))"

definition char_bytes :: "string \<Rightarrow> byte list" where
  "char_bytes s = map (\<lambda>c. word_of_int (of_char c)) s"

text \<open>The overloads for C strings: 48 bytes are copied, the terminating NUL included.\<close>

definition getPublicKeyFromAddr_str :: "string \<Rightarrow> byte list result" where
  "getPublicKeyFromAddr_str addrStr =
     (if ADDRESS_LENGTH \<le> length addrStr + 1
      then getPublicKeyFromAddr (char_bytes (take ADDRESS_LENGTH (addrStr @ [NUL])))
      else Inl (Undefined OutOfBounds))"

definition plainAddr :: "byte list \<Rightarrow> byte list" where
  "plainAddr pubKey = [0x2A] @ pubKey @ ss58_checksum ([0x2A] @ pubKey)"

definition getAddrFromPublicKey :: "byte list \<Rightarrow> string result" where
  "getAddrFromPublicKey pubKey = EncodeBase58 1024 (plainAddr pubKey)"

section \<open>Base conversion lemmas\<close>

lemma swaps_reverse:
  "k \<le> length res div 2 \<Longrightarrow> foldl swap58 res (rev [length res - k..<length res]) =
     map (\<lambda>j. if j < k \<or> length res - k \<le> j then res ! (length res - j - 1) else res ! j) [0..<length res]"
proof (induction k)
  case 0
  show ?case by (rule nth_equalityI) simp_all
next
  case (Suc k)
  define n where "n = length res"
  have k: "k < n" "n - Suc k < n" "Suc (n - Suc k) = n - k" using Suc.prems by (auto simp: n_def)
  then have "rev [n - Suc k..<n] = rev [n - k..<n] @ [n - Suc k]" by (simp add: upt_conv_Cons)
  then have "foldl swap58 res (rev [n - Suc k..<n]) = swap58 (foldl swap58 res (rev [n - k..<n])) (n - Suc k)" by simp
  also have "\<dots> = map (\<lambda>j. if j < Suc k \<or> n - Suc k \<le> j then res ! (n - j - 1) else res ! j) [0..<n]"
    using Suc k unfolding swap58_def
    by (intro nth_equalityI) (auto simp: nth_list_update simp flip: n_def)
  finally show ?case by (simp add: n_def)
qed

lemma reverse58_rev: "reverse58 res = rev res"
proof -
  define n where "n = length res"
  have m: "n div 2 + n mod 2 = n - n div 2" by presburger
  have "foldl swap58 res (rev [n - n div 2..<n]) = rev res"
    unfolding n_def swaps_reverse [OF order_refl]
    by (intro nth_equalityI) (auto simp: rev_nth intro!: arg_cong [of _ _ "nth res"])
  then show ?thesis by (simp only: reverse58_def flip: n_def m)
qed

definition is_base58 :: "byte \<Rightarrow> bool" where
  "is_base58 b \<longleftrightarrow> unat b < 128 \<and> 0 \<le> ALPHABET_MAP ! unat b"

lemma alphabet_lengths [simp]: "length ALPHABET = 58" "length ALPHABET_MAP = 128"
  by (simp_all add: ALPHABET_def ALPHABET_MAP_def)

lemma ALPHABET_MAP_less: "list_all (\<lambda>i. i < 58) ALPHABET_MAP"
  by (simp add: ALPHABET_MAP_def)

text \<open>The two tables are inverse to each other.\<close>

lemma alphabet_inverse:
  "list_all (\<lambda>i. unat (word_of_int (of_char (ALPHABET ! i)) :: byte) < 128
     \<and> ALPHABET_MAP ! unat (word_of_int (of_char (ALPHABET ! i)) :: byte) = int i) [0..<58]"
  by code_simp

lemma ALPHABET_MAP_ALPHABET:
  assumes "0 \<le> d" "d < 58"
  shows "is_base58 (word_of_int (of_char (ALPHABET ! nat d)))"
    and "ALPHABET_MAP ! unat (word_of_int (of_char (ALPHABET ! nat d)) :: byte) = d"
proof -
  have "nat d \<in> set [0..<58]" using assms by simp
  then show "is_base58 (word_of_int (of_char (ALPHABET ! nat d)))"
    and "ALPHABET_MAP ! unat (word_of_int (of_char (ALPHABET ! nat d)) :: byte) = d"
    using alphabet_inverse assms unfolding list_all_iff is_base58_def by auto
qed

lemma enc58_push_simps:
  "enc58_push cap ds 0 = Inr ds"
  "0 < c \<Longrightarrow> enc58_push cap ds c =
     (if length ds < cap then enc58_push cap (ds @ [c mod 58]) (c div 58) else Inl (Undefined OutOfBounds))"
  by (subst enc58_push.simps, simp)+

interpretation enc58: radix_loop 58 256 enc58_carry enc58_push enc58_loop uint "\<lambda>b. True"
proof
  fix c d :: int and ds
  assume "0 \<le> c" "c < 256" "0 \<le> d" "d < 58"
  then show "enc58_carry c (d # ds) = ((c + d * 256) mod 58 # fst (enc58_carry ((c + d * 256) div 58) ds),
      snd (enc58_carry ((c + d * 256) div 58) ds))"
    by (simp add: Let_def split_def mod_pos_pos_trivial)
next
  fix b :: byte
  show "0 \<le> uint b \<and> uint b < 256" using uint_bounded [of b] by simp
qed (simp_all add: enc58_push_simps split_def Let_def)

lemma dec58_push_simps:
  "dec58_push cap ds 0 = Inr ds"
  "0 < c \<Longrightarrow> dec58_push cap ds c =
     (if length ds < cap then dec58_push cap (ds @ [c mod 256]) (c div 256) else Inl (Undefined OutOfBounds))"
  by (subst dec58_push.simps, simp)+

interpretation dec58: radix_loop 256 58 dec58_carry dec58_push dec58_loop "\<lambda>b. ALPHABET_MAP ! unat b" is_base58
proof
  fix c d :: int and ds
  assume "0 \<le> c" "c < 58" "0 \<le> d" "d < 256"
  then show "dec58_carry c (d # ds) = ((c + d * 58) mod 256 # fst (dec58_carry ((c + d * 58) div 256) ds),
      snd (dec58_carry ((c + d * 58) div 256) ds))"
    by (simp add: Let_def split_def mod_pos_pos_trivial)
next
  fix b :: byte
  assume "is_base58 b"
  then show "0 \<le> ALPHABET_MAP ! unat b \<and> ALPHABET_MAP ! unat b < 58"
    using ALPHABET_MAP_less by (simp add: is_base58_def list_all_length)
  fix cap bs ds
  show "dec58_loop cap (b # bs) ds = rbind (dec58_push cap (fst (dec58_carry (ALPHABET_MAP ! unat b) ds))
      (snd (dec58_carry (ALPHABET_MAP ! unat b) ds))) (dec58_loop cap bs)"
    using \<open>is_base58 b\<close> \<open>0 \<le> ALPHABET_MAP ! unat b \<and> ALPHABET_MAP ! unat b < 58\<close>
    by (simp add: is_base58_def split_def Let_def mod_pos_pos_trivial)
qed (simp_all add: dec58_push_simps split_def Let_def)

lemma digit_zero [simp]: "1 < B \<Longrightarrow> radix_digits B 0 = [0]"
  by (subst radix_digits.simps) simp

lemma enc58_loop_digits: "0 < cap \<Longrightarrow> enc58_loop cap bytes [0] =
    (let r = radix_digits 58 (enc58.msb_val 0 bytes) in if length r \<le> cap then Inr r else Inl (Undefined OutOfBounds))"
  using enc58.loop_spec [of bytes 0 cap] by (simp add: list_all_iff)

lemma dec58_loop_digits: "0 < cap \<Longrightarrow> list_all is_base58 str \<Longrightarrow> dec58_loop cap str [0] =
    (let r = radix_digits 256 (dec58.msb_val 0 str) in if length r \<le> cap then Inr r else Inl (Undefined OutOfBounds))"
  using dec58.loop_spec [of str 0 cap] by simp

text \<open>The symbol of a digit; the alphabet starts with \<^verbatim>\<open>'1'\<close>, the digit zero.\<close>

abbreviation symbol58 :: "int \<Rightarrow> byte" where
  "symbol58 d \<equiv> word_of_int (of_char (ALPHABET ! nat d))"

lemma symbol58_0: "symbol58 0 = word_of_int (of_char (CHR ''1''))"
  by (simp add: ALPHABET_def)

lemma symbol58_one: "0 \<le> d \<Longrightarrow> d < 58 \<Longrightarrow> symbol58 d = word_of_int (of_char (CHR ''1'')) \<longleftrightarrow> d = 0"
  using ALPHABET_MAP_ALPHABET(2) [of d] ALPHABET_MAP_ALPHABET(2) [of 0] symbol58_0 by (metis order_refl zero_less_numeral)

lemma symbols58:
  assumes "in_base 58 ds"
  shows "list_all is_base58 (map symbol58 ds)" "map (\<lambda>b. ALPHABET_MAP ! unat b) (map symbol58 ds) = ds"
  using assms ALPHABET_MAP_ALPHABET by (auto simp: in_base_def list_all_iff intro!: map_idI)

text \<open>The value of the symbols of leading zeros and the digits of a number.\<close>

lemma dec58_value:
  assumes "0 \<le> v"
  shows "dec58.msb_val 0 (map symbol58 (replicate n 0 @ rev (radix_digits 58 v))) = v"
proof -
  have b: "in_base 58 (replicate n 0 @ rev (radix_digits 58 v))"
    using radix_digits_in_base [of 58 v] assms by simp
  have "radix_val 58 (replicate n 0) = 0" by (induction n) simp_all
  then show ?thesis
    using assms by (simp only: dec58.msb_val_radix symbols58(2) [OF b]) (simp add: radix_val_append radix_digits_val)
qed

lemma leading_ones:
  assumes "0 < v"
  shows "takeWhile (\<lambda>b. b = word_of_int (of_char (CHR ''1''))) (map symbol58 (replicate n 0 @ rev (radix_digits 58 v))) =
    replicate n (symbol58 0)"
proof -
  define R where "R = rev (radix_digits 58 v)"
  have "R \<noteq> []" "hd R \<noteq> 0" "in_base 58 R"
    using radix_digits_last [of 58 v] radix_digits_in_base [of 58 v] assms by (simp_all add: R_def hd_rev)
  then obtain d ds where "R = d # ds" "d \<noteq> 0" "0 \<le> d" "d < 58" by (cases R) auto
  then have "takeWhile (\<lambda>b. b = word_of_int (of_char (CHR ''1''))) (map symbol58 R) = []"
    by (simp only: list.map takeWhile.simps symbol58_one) simp
  moreover have "takeWhile (\<lambda>b. b = word_of_int (of_char (CHR ''1''))) (map symbol58 (replicate n 0 @ R)) =
      replicate n (symbol58 0) @ takeWhile (\<lambda>b. b = word_of_int (of_char (CHR ''1''))) (map symbol58 R)"
    by (simp only: map_append map_replicate symbol58_0 takeWhile_replicate)
  ultimately show ?thesis by (simp only: R_def append_Nil2)
qed

text \<open>Decoding undoes encoding unless all bytes are zero, where a symbol too many is written.\<close>

lemma base58_inverse:
  assumes enc: "EncodeBase58_cap cap res_cap bytes = Inr s"
    and bytes: "bytes = replicate n 0 @ b # bs" "b \<noteq> 0" and c: "length bytes \<le> cap'"
  shows "DecodeBase58 cap' (char_bytes s) = Inr bytes"
proof -
  define v where "v = enc58.msb_val 0 (b # bs)"
  have b: "uint b \<noteq> 0" using bytes(2) by (simp add: uint_0_iff)
  have "uint b * 256 ^ length bs \<le> v" using enc58.msb_val_ge [of bs "uint b"] by (simp add: v_def list_all_iff)
  moreover have "0 < uint b * 256 ^ length bs" using b uint_ge_0 [of b] by (simp add: less_le)
  ultimately have v: "0 < v" by linarith
  have "enc58.msb_val 0 (replicate n 0 @ b # bs) = v" unfolding v_def by (induction n) simp_all
  moreover have "takeWhile (\<lambda>b. b = 0) bytes = replicate n 0" using bytes by (simp add: takeWhile_replicate)
  ultimately have "s = replicate n (CHR ''1'') @ map (\<lambda>d. ALPHABET ! nat d) (rev (radix_digits 58 v))"
    using enc bytes by (simp add: EncodeBase58_cap_def enc58_loop_digits Let_def map_replicate_const split: if_splits)
  then have s: "char_bytes s = map symbol58 (replicate n 0 @ rev (radix_digits 58 v))"
    unfolding char_bytes_def map_append map_replicate symbol58_0 by (simp add: comp_def)
  have all: "list_all is_base58 (char_bytes s)"
    unfolding s using radix_digits_in_base [of 58 v] v by (intro symbols58(1)) simp
  have d: "radix_digits 256 v = rev (map uint (b # bs))"
    unfolding v_def by (rule enc58.digits_of_input) (simp_all add: list_all_iff b)
  have cap: "0 < cap'" "n + Suc (length bs) \<le> cap'" using bytes c by auto
  then have loop: "dec58_loop cap' (char_bytes s) [0] = Inr (rev (map uint (b # bs)))"
    using dec58_loop_digits [OF cap(1) all] dec58_value [of v n] v by (simp add: s d)
  have ones: "takeWhile (\<lambda>b. b = word_of_int (of_char (CHR ''1''))) (char_bytes s) = replicate n (symbol58 0)"
    unfolding s by (rule leading_ones [OF v])
  show ?thesis
    using cap unfolding DecodeBase58_def loop ones by (simp add: reverse58_rev map_replicate_const bytes Let_def comp_def)
qed

section \<open>Properties of base 58\<close>

text \<open>
  C13: Decoding the base-58 text of a byte string returns the byte string, for every length and
  every number of leading zero bytes, provided one byte is not zero and the result buffer has
  room for the bytes.
\<close>

theorem base58_roundtrip:
  assumes "EncodeBase58_cap cap res_cap bytes = Inr s" "list_ex (\<lambda>b. b \<noteq> 0) bytes" "length bytes \<le> cap'"
  shows "DecodeBase58 cap' (char_bytes s) = Inr bytes"
proof -
  have "\<exists>n b bs. bytes = replicate n 0 @ b # bs \<and> b \<noteq> 0"
    using assms(2)
  proof (induction bytes)
    case (Cons a bytes)
    show ?case
    proof (cases "a = 0")
      case True
      with Cons obtain n b bs where "bytes = replicate n 0 @ b # bs" "b \<noteq> 0" by auto
      then have "a # bytes = replicate (Suc n) 0 @ b # bs" using True by simp
      with \<open>b \<noteq> 0\<close> show ?thesis by blast
    next
      case False
      then show ?thesis by (metis append_Nil replicate_0)
    qed
  qed simp
  then obtain n b bs where "bytes = replicate n 0 @ b # bs" "b \<noteq> 0" by blast
  then show ?thesis using base58_inverse [OF assms(1) _ _ assms(3)] by blast
qed

lemma base58_roundtrip_sample: "EncodeBase58_cap 4 10 [0, 255, 7] = Inr ''1LQe''"
  by code_simp

theorem base58_roundtrip_witness: "DecodeBase58 5 (char_bytes ''1LQe'') = Inr [0, 255, 7]"
  by (rule base58_roundtrip [OF base58_roundtrip_sample]) simp_all

section \<open>Properties of addresses\<close>

lemma address_value:
  assumes "length bytes = 34"
  shows "42 * 256 ^ 34 \<le> enc58.msb_val 0 (0x2A # bytes)" "enc58.msb_val 0 (0x2A # bytes) < 43 * 256 ^ 34"
  using enc58.msb_val_ge [of bytes 42] enc58.msb_val_less [of bytes 42] assms by (simp_all add: list_all_iff)

lemma address_digits:
  assumes "length bytes = 34"
  shows "length (radix_digits 58 (enc58.msb_val 0 (0x2A # bytes))) = 48"
proof -
  define v where "v = enc58.msb_val 0 (0x2A # bytes)"
  have "58 ^ 47 \<le> v" using address_value(1) [OF assms] by (simp add: v_def)
  then have "47 < length (radix_digits 58 v)" by (intro radix_digits_longer) simp_all
  moreover have "\<not> 48 < length (radix_digits 58 v)"
  proof
    assume "48 < length (radix_digits 58 v)"
    then have "(58 :: int) ^ 48 \<le> 58 ^ (length (radix_digits 58 v) - 1)" by (intro power_increasing) auto
    also have "\<dots> \<le> v" using \<open>58 ^ 47 \<le> v\<close> by (intro radix_digits_length) auto
    finally show False using address_value(2) [OF assms] by (simp add: v_def)
  qed
  ultimately show ?thesis by (simp add: v_def)
qed

lemma ss58_checksum_length: "length (ss58_checksum typed_key) = 2"
  by (simp add: ss58_checksum_def blake2b_hash blake2b_spec_length)

lemma EncodeBase58_address:
  assumes "length bytes = 34"
  shows "EncodeBase58_cap cap 1024 (0x2A # bytes) =
    (if cap < 48 then Inl (Undefined OutOfBounds)
     else Inr (map (\<lambda>d. ALPHABET ! nat d) (rev (radix_digits 58 (enc58.msb_val 0 (0x2A # bytes))))))"
  using address_digits [OF assms] unfolding EncodeBase58_cap_def
  by (cases "cap = 0") (simp_all add: enc58_loop_digits Let_def del: enc58.msb_val_simps enc58_loop.simps)

text \<open>
  C30: \<^verbatim>\<open>getAddrFromPublicKey\<close> writes past the end of the digit array of \<^verbatim>\<open>EncodeBase58\<close> on
  every key: the 35 bytes of an address with the type byte \<^verbatim>\<open>0x2A\<close> have 48 base-58 digits, the
  array has room for 47.
\<close>

theorem getAddrFromPublicKey_overflow:
  assumes "length pubKey = PUBLIC_KEY_LENGTH"
  shows "getAddrFromPublicKey pubKey = Inl (Undefined OutOfBounds)"
  using EncodeBase58_address [of "pubKey @ ss58_checksum (0x2A # pubKey)" 47] assms
  by (simp add: getAddrFromPublicKey_def EncodeBase58_def plainAddr_def ss58_checksum_length)

theorem getAddrFromPublicKey_overflow_witness:
  "length (replicate 32 (7 :: byte)) = PUBLIC_KEY_LENGTH \<and>
   getAddrFromPublicKey (replicate 32 7) = Inl (Undefined OutOfBounds)"
  using getAddrFromPublicKey_overflow [of "replicate 32 7"] by simp

lemma address_of_key:
  assumes "length pubKey = PUBLIC_KEY_LENGTH" "length check = 2" "48 \<le> cap"
  shows "\<exists>addr. EncodeBase58_cap cap 1024 (0x2A # pubKey @ check) = Inr addr \<and> length addr = ADDRESS_LENGTH \<and>
    getPublicKeyFromAddr (char_bytes addr) =
      (if check = ss58_checksum (0x2A # pubKey) then Inr pubKey
       else Inl (Throw (ApplicationException ''Address checksum is wrong.'')))"
proof -
  define bytes where "bytes = pubKey @ check"
  have len: "length bytes = 34" using assms by (simp add: bytes_def)
  define addr where "addr = map (\<lambda>d. ALPHABET ! nat d) (rev (radix_digits 58 (enc58.msb_val 0 (0x2A # bytes))))"
  have enc: "EncodeBase58_cap cap 1024 (0x2A # bytes) = Inr addr"
    unfolding addr_def using EncodeBase58_address [OF len] assms by simp
  have "length addr = 48" unfolding addr_def using address_digits [OF len] by simp
  moreover have "DecodeBase58 48 (char_bytes addr) = Inr (0x2A # bytes)"
    by (rule base58_inverse [OF enc, of 0 "0x2A" bytes]) (simp_all add: len)
  ultimately show ?thesis
    using enc assms by (auto simp: getPublicKeyFromAddr_def bytes_def)
qed

text \<open>
  C14: with a digit array of 48 bytes or more every key and every pair of check bytes has a
  48-symbol address, and \<^verbatim>\<open>getPublicKeyFromAddr\<close> returns the key from it if the check bytes are
  the first two bytes of the BLAKE2b hash of the prefixed key, and throws otherwise.
\<close>

theorem getPublicKeyFromAddr_address:
  assumes "length pubKey = PUBLIC_KEY_LENGTH" "length check = 2" "48 \<le> cap"
  shows "\<exists>addr. EncodeBase58_cap cap 1024 (0x2A # pubKey @ check) = Inr addr \<and> length addr = ADDRESS_LENGTH \<and>
    getPublicKeyFromAddr (char_bytes addr) =
      (if check = ss58_checksum (0x2A # pubKey) then Inr pubKey
       else Inl (Throw (ApplicationException ''Address checksum is wrong.'')))"
  using assms by (rule address_of_key)

theorem getPublicKeyFromAddr_address_witness:
  "\<exists>addr. EncodeBase58_cap 48 1024 (0x2A # replicate 32 1 @ [2, 3]) = Inr addr \<and> length addr = ADDRESS_LENGTH \<and>
    getPublicKeyFromAddr (char_bytes addr) =
      (if [2, 3] = ss58_checksum (0x2A # replicate 32 1) then Inr (replicate 32 1)
       else Inl (Throw (ApplicationException ''Address checksum is wrong.'')))"
  by (rule getPublicKeyFromAddr_address) simp_all

text \<open>
  Decoding the 48 symbols \<^verbatim>\<open>1\<close> writes past the 48-byte array of \<^verbatim>\<open>getPublicKeyFromAddr\<close>.
\<close>

theorem getPublicKeyFromAddr_ones:
  "getPublicKeyFromAddr_str (replicate 48 (CHR ''1'')) = Inl (Undefined OutOfBounds)"
  by code_simp

end
