(* ===== verification/Numbers.thy ===== *)
theory Numbers
  imports Radix
begin

text \<open>
  The decimal conversions of the C library that the JSON code calls: \<^verbatim>\<open>printf\<close> with \<^verbatim>\<open>"%d"\<close>
  and \<^verbatim>\<open>"%.17g"\<close>, \<^verbatim>\<open>atoi\<close> and \<^verbatim>\<open>strtod\<close>. A \<^verbatim>\<open>double\<close> is an IEEE binary64 number: a sign, a
  significand below $2^{53}$ and an exponent, or an infinity. Both conversions round to the
  nearest, ties to even. No operation of the program makes a NaN.
\<close>

section \<open>Decimal integers\<close>

definition digit_char :: "int \<Rightarrow> char" where
  "digit_char d = char_of (48 + d)"

definition digit_of :: "char \<Rightarrow> int" where
  "digit_of c = of_char c - 48"

definition isdigit :: "char \<Rightarrow> bool" where
  "isdigit c \<longleftrightarrow> 48 \<le> (of_char c :: int) \<and> (of_char c :: int) \<le> 57"

definition print_nat :: "int \<Rightarrow> string" where
  "print_nat n = map digit_char (rev (radix_digits 10 n))"

text \<open>\<^verbatim>\<open>"%d"\<close>.\<close>

definition print_int :: "int \<Rightarrow> string" where
  "print_int n = (if n < 0 then CHR ''-'' # print_nat (- n) else print_nat n)"

definition read_nat :: "string \<Rightarrow> int" where
  "read_nat s = radix_val 10 (map digit_of (rev s))"

text \<open>\<^verbatim>\<open>atoi\<close> of a text that starts with a sign or a digit, as long as the value fits.\<close>

definition atoi :: "string \<Rightarrow> int" where
  "atoi s = (if take 1 s = ''-'' then - read_nat (takeWhile isdigit (tl s)) else read_nat (takeWhile isdigit s))"

lemma digit_char [simp]:
  assumes "0 \<le> d" "d < 10"
  shows "isdigit (digit_char d)" "digit_of (digit_char d) = d"
  using assms by (simp_all add: isdigit_def digit_of_def digit_char_def of_char_of)

lemma print_nat_digits: "0 \<le> n \<Longrightarrow> list_all isdigit (print_nat n)"
  using radix_digits_in_base [of 10 n] by (auto simp: print_nat_def in_base_def list_all_iff)

lemma print_nat_nonempty [simp]: "print_nat n \<noteq> []"
  by (simp add: print_nat_def)

lemma read_print_nat [simp]:
  assumes "0 \<le> n"
  shows "read_nat (print_nat n) = n"
proof -
  have "map digit_of (map digit_char (radix_digits 10 n)) = radix_digits 10 n"
    using radix_digits_in_base [of 10 n] assms by (auto simp: in_base_def list_all_iff intro!: map_idI)
  then show ?thesis using assms by (simp add: read_nat_def print_nat_def rev_map radix_digits_val del: map_map)
qed

lemma print_nat_hd:
  assumes "0 \<le> n"
  obtains c s where "print_nat n = c # s" "isdigit c" "c = CHR ''0'' \<longleftrightarrow> n = 0" "n = 0 \<Longrightarrow> s = []"
proof -
  obtain c s where cs: "print_nat n = c # s" by (cases "print_nat n") auto
  have c: "isdigit c" using print_nat_digits [OF assms] cs by simp
  have "c = hd (print_nat n)" using cs by simp
  then have hd: "c = digit_char (last (radix_digits 10 n))" by (simp add: print_nat_def hd_map hd_rev)
  have l: "in_base 10 (radix_digits 10 n)" using assms by (simp add: radix_digits_in_base)
  have m: "last (radix_digits 10 n) \<in> set (radix_digits 10 n)" by simp
  have "digit_char 0 = CHR ''0''" by code_simp
  then have z: "digit_char d = CHR ''0'' \<longleftrightarrow> d = 0" if "0 \<le> d" "d < 10" for d
    using digit_char(2) [OF that] digit_char(2) [of 0] by (metis order_refl zero_less_numeral)
  have "c = CHR ''0'' \<longleftrightarrow> last (radix_digits 10 n) = 0"
    unfolding hd using l m by (intro z) (auto simp: in_base_def list_all_iff)
  moreover have "last (radix_digits 10 n) = 0 \<longleftrightarrow> n = 0"
    using radix_digits_last [of 10 n] assms by (cases "n = 0") (auto simp: radix_digits.simps)
  moreover have "s = []" if "n = 0" using cs that by (simp add: print_nat_def radix_digits.simps)
  ultimately show ?thesis using that cs c by blast
qed

section \<open>Doubles\<close>

text \<open>\<open>Double s m e\<close> is $\pm m \cdot 2^e$, negative if \<open>s\<close>.\<close>

datatype double = Double bool int int | Infinity bool

text \<open>The integer nearest to \<open>n / d\<close>, ties to even.\<close>

definition round_half_even :: "int \<Rightarrow> int \<Rightarrow> int" where
  "round_half_even n d =
     (let q = n div d; r = n mod d
      in if 2 * r < d \<or> 2 * r = d \<and> even q then q else q + 1)"

text \<open>\<open>scale b k (n, d)\<close> is the fraction \<open>(n / d) / b^k\<close>.\<close>

definition scale :: "int \<Rightarrow> int \<Rightarrow> int \<times> int \<Rightarrow> int \<times> int" where
  "scale b k = (\<lambda>(n, d). if 0 \<le> k then (n, d * b ^ nat k) else (n * b ^ nat (- k), d))"

text \<open>The last exponent of a range for which the scaled fraction is at least \<open>x\<close>, else the first.\<close>

definition exponent :: "int \<Rightarrow> int \<Rightarrow> int list \<Rightarrow> int \<times> int \<Rightarrow> int" where
  "exponent b x ks q =
     (case filter (\<lambda>k. case scale b k q of (n, d) \<Rightarrow> x * d \<le> n) ks of [] \<Rightarrow> hd ks | ks' \<Rightarrow> last ks')"

text \<open>The double nearest to \<open>n / d\<close>, for \<open>0 \<le> n\<close> and \<open>0 < d\<close>.\<close>

definition to_double :: "bool \<Rightarrow> int \<Rightarrow> int \<Rightarrow> double" where
  "to_double neg n d =
     (let e = exponent 2 (2 ^ 52) [-1074..971] (n, d);
          m = (case scale 2 e (n, d) of (n', d') \<Rightarrow> round_half_even n' d');
          (m, e) = (if m = 2 ^ 53 then (2 ^ 52, e + 1) else (m, e))
      in if 2 ^ 53 < m \<or> 971 < e then Infinity neg else Double neg m e)"

text \<open>
  \<^verbatim>\<open>strtod\<close> of a number in the syntax of JSON: sign, digits, and optionally a fraction and an
  exponent.
\<close>

definition strtod :: "string \<Rightarrow> double" where
  "strtod s =
     (let neg = (take 1 s = ''-'');
          s = (if neg then tl s else s);
          ip = takeWhile isdigit s; s = dropWhile isdigit s;
          fp = (if take 1 s = ''.'' then takeWhile isdigit (tl s) else []);
          s = (if take 1 s = ''.'' then dropWhile isdigit (tl s) else s);
          ex = (if take 1 s = ''e'' \<or> take 1 s = ''E''
                then (if take 1 (tl s) = ''+'' then atoi (tl (tl s)) else atoi (tl s)) else 0) - int (length fp);
          n = read_nat (ip @ fp)
      in if 0 \<le> ex then to_double neg (n * 10 ^ nat ex) 1 else to_double neg n (10 ^ nat (- ex)))"

text \<open>The fraction of a finite double.\<close>

definition fraction :: "int \<Rightarrow> int \<Rightarrow> int \<times> int" where
  "fraction m e = (if 0 \<le> e then (m * 2 ^ nat e, 1) else (m, 2 ^ nat (- e)))"

text \<open>\<^verbatim>\<open>static_cast<int>\<close>: the fraction is dropped; a value out of range is undefined behaviour.\<close>

definition double_to_int :: "double \<Rightarrow> int result" where
  "double_to_int x = (case x of
     Double neg m e \<Rightarrow> (case fraction m e of (n, d) \<Rightarrow> checked32 (if neg then - (n div d) else n div d))
   | Infinity neg \<Rightarrow> Inl (Undefined SignedOverflow))"

text \<open>Comparison, by the exact values over the common denominator $2^{1074}$.\<close>

fun double_key :: "double \<Rightarrow> int" where
  "double_key (Double neg m e) = (if neg then - 1 else 1) * m * 2 ^ nat (e + 1074)"
| "double_key (Infinity neg) = (if neg then - 1 else 1) * 2 ^ 2100"

definition double_eq :: "double \<Rightarrow> double \<Rightarrow> bool" where
  "double_eq x y \<longleftrightarrow> double_key x = double_key y"

definition double_less :: "double \<Rightarrow> double \<Rightarrow> bool" where
  "double_less x y \<longleftrightarrow> double_key x < double_key y"

text \<open>An \<^verbatim>\<open>int\<close> as a double.\<close>

definition double_of_int :: "int \<Rightarrow> double" where
  "double_of_int i = to_double (i < 0) \<bar>i\<bar> 1"

section \<open>The format \<^verbatim>\<open>"%.17g"\<close>\<close>

definition strip_zeros :: "string \<Rightarrow> string" where
  "strip_zeros s = rev (dropWhile (\<lambda>c. c = CHR ''0'') (rev s))"

definition with_point :: "string \<Rightarrow> string \<Rightarrow> string" where
  "with_point ip fp = (let fp = strip_zeros fp in if fp = [] then ip else ip @ ''.'' @ fp)"

text \<open>The 17 digits and the decimal exponent of a positive fraction.\<close>

definition digits17 :: "int \<times> int \<Rightarrow> int \<times> int" where
  "digits17 q =
     (let x = exponent 10 1 [-330..310] q;
          n = (case scale 10 (x - 16) q of (n, d) \<Rightarrow> round_half_even n d)
      in if n = 10 ^ 17 then (10 ^ 16, x + 1) else (n, x))"

definition print_exponent :: "int \<Rightarrow> string" where
  "print_exponent x =
     (if x < 0 then ''-'' else ''+'') @ (if \<bar>x\<bar> < 10 then ''0'' else []) @ print_nat \<bar>x\<bar>"

definition print_g17 :: "double \<Rightarrow> string" where
  "print_g17 x = (case x of
     Infinity neg \<Rightarrow> (if neg then ''-inf'' else ''inf'')
   | Double neg m e \<Rightarrow>
       (if neg then ''-'' else []) @
       (if m = 0 then ''0''
        else
          (let (n, x) = digits17 (fraction m e); ds = print_nat n
           in if -4 \<le> x \<and> x < 17 then
                (if 0 \<le> x then with_point (take (nat (x + 1)) ds) (drop (nat (x + 1)) ds)
                 else with_point ''0'' (replicate (nat (- x - 1)) (CHR ''0'') @ ds))
              else with_point (take 1 ds) (drop 1 ds) @ ''e'' @ print_exponent x)))"

section \<open>Integers as doubles\<close>

lemma exponent_last: "exponent b x ks q =
    (let ks' = filter (\<lambda>k. case scale b k q of (n, d) \<Rightarrow> x * d \<le> n) ks in if ks' = [] then hd ks else last ks')"
  by (simp add: exponent_def Let_def split: list.split)

lemma sorted_le_last: "sorted xs \<Longrightarrow> x \<in> set xs \<Longrightarrow> x \<le> last xs"
  by (induction xs) (auto split: if_splits)

lemma last_filter: "filter P xs \<noteq> [] \<Longrightarrow> last (filter P xs) \<in> set xs \<and> P (last (filter P xs))"
  using last_in_set [of "filter P xs"] by auto

lemma exponent_in: "ks \<noteq> [] \<Longrightarrow> exponent b x ks q \<in> set ks"
  by (simp add: exponent_last Let_def last_filter)

lemma exponent_cases:
  assumes "sorted ks" "ks \<noteq> []"
  shows "exponent b x ks q = hd ks \<or> (case scale b (exponent b x ks q) q of (n, d) \<Rightarrow> x * d \<le> n)"
    and "k \<in> set ks \<Longrightarrow> (case scale b k q of (n, d) \<Rightarrow> x * d \<le> n) \<Longrightarrow> k \<le> exponent b x ks q"
proof -
  define P where "P = (\<lambda>k. case scale b k q of (n, d) \<Rightarrow> x * d \<le> n)"
  have e: "exponent b x ks q = (if filter P ks = [] then hd ks else last (filter P ks))"
    by (simp add: exponent_last P_def Let_def)
  show "exponent b x ks q = hd ks \<or> (case scale b (exponent b x ks q) q of (n, d) \<Rightarrow> x * d \<le> n)"
    using last_filter [of P ks] e by (simp add: P_def)
  assume k: "k \<in> set ks" and "case scale b k q of (n, d) \<Rightarrow> x * d \<le> n"
  then have f: "k \<in> set (filter P ks)" by (simp add: P_def)
  moreover have "sorted (filter P ks)" using assms(1) by (rule sorted_wrt_filter)
  ultimately have "k \<le> last (filter P ks)" by (intro sorted_le_last)
  moreover have "filter P ks \<noteq> []" using f by force
  ultimately show "k \<le> exponent b x ks q" using e by simp
qed

lemma round_half_even_1 [simp]: "round_half_even n 1 = n"
  by (simp add: round_half_even_def)

lemma upto_facts: "lo \<le> hi \<Longrightarrow> sorted [lo..hi] \<and> [lo..hi] \<noteq> [] \<and> hd [lo..hi] = (lo :: int)"
  by (simp add: upto_rec1)

text \<open>An integer below $2^{53}$ is exact.\<close>

lemma to_double_int:
  assumes "0 \<le> n" "n < 2 ^ 53"
  shows "\<exists>e. to_double neg n 1 = Double neg (n * 2 ^ nat (- e)) e \<and> - 1074 \<le> e \<and> e \<le> 0"
proof -
  define ks where "ks = [- 1074..971 :: int]"
  define e where "e = exponent 2 (2 ^ 52) ks (n, 1)"
  have "sorted ks \<and> ks \<noteq> [] \<and> hd ks = - 1074" unfolding ks_def by (rule upto_facts) simp
  then have ks: "sorted ks" "ks \<noteq> []" "hd ks = - 1074" by simp_all
  have set: "set ks = {- 1074..971}" unfolding ks_def by (rule set_upto)
  have r: "- 1074 \<le> e" "e \<le> 971" using exponent_in [OF ks(2), of 2 "2 ^ 52" "(n, 1)"] by (simp_all add: e_def set)
  have e0: "e \<le> 0"
  proof (rule ccontr)
    assume "\<not> e \<le> 0"
    then have "2 ^ 52 * 2 ^ nat e \<le> n"
      using exponent_cases(1) [OF ks(1,2), of 2 "2 ^ 52" "(n, 1)"] unfolding e_def [symmetric] ks(3) by (simp add: scale_def)
    moreover have "(2 :: int) ^ 1 \<le> 2 ^ nat e" using \<open>\<not> e \<le> 0\<close> by (intro power_increasing) auto
    then have "(2 :: int) ^ 52 * 2 \<le> 2 ^ 52 * 2 ^ nat e" by simp
    ultimately show False using assms(2) by simp
  qed
  define m where "m = n * 2 ^ nat (- e)"
  have "(case scale 2 e (n, 1) of (n', d') \<Rightarrow> round_half_even n' d') = m"
    using e0 by (cases "e = 0") (simp_all add: scale_def m_def)
  moreover have "m < 2 ^ 53"
  proof (cases "e = 0")
    case True
    then show ?thesis using assms(2) by (simp add: m_def)
  next
    case False
    show ?thesis
    proof (rule ccontr)
      assume "\<not> m < 2 ^ 53"
      moreover have "nat (- e) = Suc (nat (- (e + 1)))" using False e0 by simp
      then have "m = 2 * (n * 2 ^ nat (- (e + 1)))" by (simp add: m_def)
      ultimately have ge: "2 ^ 52 \<le> n * 2 ^ nat (- (e + 1))" by simp
      have "e + 1 \<in> set ks" using r e0 by (simp add: set)
      moreover have "case scale 2 (e + 1) (n, 1) of (n', d) \<Rightarrow> 2 ^ 52 * d \<le> n'"
        using ge False e0 by (cases "e + 1 = 0") (simp_all add: scale_def)
      ultimately have "e + 1 \<le> e" unfolding e_def by (rule exponent_cases(2) [OF ks(1,2)])
      then show False by simp
    qed
  qed
  ultimately have "to_double neg n 1 = Double neg m e" using r unfolding to_double_def ks_def [symmetric] e_def [symmetric] by (simp add: Let_def)
  with r e0 show ?thesis by (auto simp: m_def)
qed

lemma double_to_int_of_int:
  assumes "in_int32 i"
  shows "double_to_int (double_of_int i) = Inr i"
proof -
  have "0 \<le> \<bar>i\<bar>" "\<bar>i\<bar> < 2 ^ 53" using assms unfolding in_int32_def by (simp_all, linarith)
  from to_double_int [OF this, of "i < 0"] obtain e
    where e: "double_of_int i = Double (i < 0) (\<bar>i\<bar> * 2 ^ nat (- e)) e" "e \<le> 0" by (auto simp: double_of_int_def)
  have "fst (fraction (\<bar>i\<bar> * 2 ^ nat (- e)) e) div snd (fraction (\<bar>i\<bar> * 2 ^ nat (- e)) e) = \<bar>i\<bar>"
    using e(2) by (cases "e = 0") (simp_all add: fraction_def)
  then show ?thesis using assms by (auto simp: double_to_int_def e(1) split_def checked32_def)
qed

end
