(* ===== verification/Json.thy ===== *)
theory Json
  imports Numbers "HOL-Library.Char_ord" "HOL-Library.List_Lexorder"
begin

text \<open>
  The JSON library \<^verbatim>\<open>src/libs/json11/json11.cpp\<close>: values, accessors, comparison, \<^verbatim>\<open>dump\<close> and
  \<^verbatim>\<open>parse\<close>. An object is the \<^verbatim>\<open>std::map\<close> as the list of its entries in key order. The parser's
  position is the rest of the input; a read at the end of the input gives NUL, as
  \<^verbatim>\<open>std::string::operator[]\<close> does. A parse that \<^verbatim>\<open>fail\<close>s keeps its first message and makes
  every caller return, so a failure is the left value of a sum.
\<close>

section \<open>Values\<close>

datatype json_tag = NUL_TYPE | NUMBER | BOOL | STRING | ARRAY | OBJECT

datatype json =
    JNull
  | JDouble double
  | JInt int
  | JBool bool
  | JString string
  | JArray "json list"
  | JObject "(string \<times> json) list"

text \<open>An object built from an initializer list of entries: the first of equal keys stays.\<close>

definition json_object :: "(string \<times> json) list \<Rightarrow> json" where
  "json_object kvs = JObject (foldr (\<lambda>(k, v). map_put k v) kvs [])"

section \<open>Accessors\<close>

fun json_type :: "json \<Rightarrow> json_tag" where
  "json_type JNull = NUL_TYPE"
| "json_type (JDouble d) = NUMBER"
| "json_type (JInt i) = NUMBER"
| "json_type (JBool b) = BOOL"
| "json_type (JString s) = STRING"
| "json_type (JArray js) = ARRAY"
| "json_type (JObject kvs) = OBJECT"

definition is_null :: "json \<Rightarrow> bool" where
  "is_null j \<longleftrightarrow> json_type j = NUL_TYPE"

definition is_object :: "json \<Rightarrow> bool" where
  "is_object j \<longleftrightarrow> json_type j = OBJECT"

fun number_value :: "json \<Rightarrow> double" where
  "number_value (JDouble d) = d"
| "number_value (JInt i) = double_of_int i"
| "number_value j = double_of_int 0"

fun int_value :: "json \<Rightarrow> int result" where
  "int_value (JDouble d) = double_to_int d"
| "int_value (JInt i) = Inr i"
| "int_value j = Inr 0"

fun bool_value :: "json \<Rightarrow> bool" where
  "bool_value (JBool b) = b"
| "bool_value j = False"

fun string_value :: "json \<Rightarrow> string" where
  "string_value (JString s) = s"
| "string_value j = []"

fun array_items :: "json \<Rightarrow> json list" where
  "array_items (JArray js) = js"
| "array_items j = []"

fun object_items :: "json \<Rightarrow> (string \<times> json) list" where
  "object_items (JObject kvs) = kvs"
| "object_items j = []"

text \<open>The two subscripts: null where the element or the key is missing.\<close>

fun at_index :: "json \<Rightarrow> nat \<Rightarrow> json" where
  "at_index (JArray js) i = (if length js \<le> i then JNull else js ! i)"
| "at_index j i = JNull"

fun at_key :: "json \<Rightarrow> string \<Rightarrow> json" where
  "at_key (JObject kvs) k = (case map_of kvs k of None \<Rightarrow> JNull | Some v \<Rightarrow> v)"
| "at_key j k = JNull"

section \<open>Comparison\<close>

text \<open>
  \<^verbatim>\<open>operator==\<close> and \<^verbatim>\<open>operator<\<close>: numbers by their value as a double, vectors and maps element by
  element. The shortcut for two pointers to the same value agrees with the comparison, since no
  value is a NaN.
\<close>

fun json_eq :: "json \<Rightarrow> json \<Rightarrow> bool"
  and json_eq_list :: "json list \<Rightarrow> json list \<Rightarrow> bool"
  and json_eq_entries :: "(string \<times> json) list \<Rightarrow> (string \<times> json) list \<Rightarrow> bool" where
  "json_eq JNull j = (json_type j = NUL_TYPE)"
| "json_eq (JDouble d) j = (json_type j = NUMBER \<and> double_eq d (number_value j))"
| "json_eq (JInt i) j = (json_type j = NUMBER \<and> double_eq (double_of_int i) (number_value j))"
| "json_eq (JBool b) j = (json_type j = BOOL \<and> b = bool_value j)"
| "json_eq (JString s) j = (json_type j = STRING \<and> s = string_value j)"
| "json_eq (JArray js) j = (case j of JArray js' \<Rightarrow> json_eq_list js js' | _ \<Rightarrow> False)"
| "json_eq (JObject kvs) j = (case j of JObject kvs' \<Rightarrow> json_eq_entries kvs kvs' | _ \<Rightarrow> False)"
| "json_eq_list [] js' = (js' = [])"
| "json_eq_list (j # js) js' = (case js' of [] \<Rightarrow> False | j' # js'' \<Rightarrow> json_eq j j' \<and> json_eq_list js js'')"
| "json_eq_entries [] kvs' = (kvs' = [])"
| "json_eq_entries ((k, v) # kvs) kvs' =
     (case kvs' of [] \<Rightarrow> False | (k', v') # kvs'' \<Rightarrow> k = k' \<and> json_eq v v' \<and> json_eq_entries kvs kvs'')"

fun type_rank :: "json_tag \<Rightarrow> nat" where
  "type_rank NUL_TYPE = 0"
| "type_rank NUMBER = 1"
| "type_rank BOOL = 2"
| "type_rank STRING = 3"
| "type_rank ARRAY = 4"
| "type_rank OBJECT = 5"

function json_less :: "json \<Rightarrow> json \<Rightarrow> bool"
  and json_less_list :: "json list \<Rightarrow> json list \<Rightarrow> bool"
  and json_less_entries :: "(string \<times> json) list \<Rightarrow> (string \<times> json) list \<Rightarrow> bool" where
  "json_less j j' =
     (if json_type j \<noteq> json_type j' then type_rank (json_type j) < type_rank (json_type j')
      else case (j, j') of
          (JBool b, JBool b') \<Rightarrow> b < b'
        | (JString s, JString s') \<Rightarrow> s < s'
        | (JArray js, JArray js') \<Rightarrow> json_less_list js js'
        | (JObject kvs, JObject kvs') \<Rightarrow> json_less_entries kvs kvs'
        | (JNull, JNull) \<Rightarrow> False
        | _ \<Rightarrow> double_less (number_value j) (number_value j'))"
| "json_less_list js js' = (case (js, js') of
     (_, []) \<Rightarrow> False
   | ([], _) \<Rightarrow> True
   | (j # js1, j' # js1') \<Rightarrow> json_less j j' \<or> \<not> json_less j' j \<and> json_less_list js1 js1')"
| "json_less_entries kvs kvs' = (case (kvs, kvs') of
     (_, []) \<Rightarrow> False
   | ([], _) \<Rightarrow> True
   | ((k, v) # kvs1, (k', v') # kvs1') \<Rightarrow>
       (k < k' \<or> \<not> k' < k \<and> json_less v v') \<or>
       \<not> (k' < k \<or> \<not> k < k' \<and> json_less v' v) \<and> json_less_entries kvs1 kvs1')"
  by pat_completeness auto
termination
  by (relation "measure (\<lambda>x. case x of Inl (j, j') \<Rightarrow> size j + size j'
        | Inr (Inl (js, js')) \<Rightarrow> size_list size js + size_list size js'
        | Inr (Inr (kvs, kvs')) \<Rightarrow> size_list (size_prod (\<lambda>_. 0) size) kvs + size_list (size_prod (\<lambda>_. 0) size) kvs')") auto

section \<open>Serialization\<close>

abbreviation BACKSLASH :: char where "BACKSLASH \<equiv> CHR 0x5C"
abbreviation QUOTE :: char where "QUOTE \<equiv> CHR 0x22"

definition dump_double :: "double \<Rightarrow> string" where
  "dump_double d = (case d of Infinity neg \<Rightarrow> ''null'' | Double neg m e \<Rightarrow> print_g17 d)"

definition dump_bool :: "bool \<Rightarrow> string" where
  "dump_bool b = (if b then ''true'' else ''false'')"

text \<open>The loop of \<^verbatim>\<open>dump\<close> for a string; \<^verbatim>\<open>value[i + 1]\<close> past the end reads NUL.\<close>

fun dump_chars :: "string \<Rightarrow> string" where
  "dump_chars [] = []"
| "dump_chars (ch # s) =
     (if ch = BACKSLASH then [BACKSLASH, BACKSLASH] @ dump_chars s
      else if ch = QUOTE then [BACKSLASH, QUOTE] @ dump_chars s
      else if ch = CHR 0x08 then [BACKSLASH, CHR ''b''] @ dump_chars s
      else if ch = CHR 0x0C then [BACKSLASH, CHR ''f''] @ dump_chars s
      else if ch = CHR 0x0A then [BACKSLASH, CHR ''n''] @ dump_chars s
      else if ch = CHR 0x0D then [BACKSLASH, CHR ''r''] @ dump_chars s
      else if ch = CHR 0x09 then [BACKSLASH, CHR ''t''] @ dump_chars s
      else if (of_char ch :: int) \<le> 0x1F then
        [BACKSLASH, CHR ''u'', CHR ''0'', CHR ''0'', hex_digit False (of_char ch div 16), hex_digit False (of_char ch mod 16)]
          @ dump_chars s
      else if ch = CHR 0xE2 \<and> take 2 s = [CHR 0x80, CHR 0xA8] then BACKSLASH # ''u2028'' @ dump_chars (drop 2 s)
      else if ch = CHR 0xE2 \<and> take 2 s = [CHR 0x80, CHR 0xA9] then BACKSLASH # ''u2029'' @ dump_chars (drop 2 s)
      else ch # dump_chars s)"

definition dump_string :: "string \<Rightarrow> string" where
  "dump_string s = [QUOTE] @ dump_chars s @ [QUOTE]"

fun dump :: "json \<Rightarrow> string"
  and dump_array :: "bool \<Rightarrow> json list \<Rightarrow> string"
  and dump_object :: "bool \<Rightarrow> (string \<times> json) list \<Rightarrow> string" where
  "dump JNull = ''null''"
| "dump (JDouble d) = dump_double d"
| "dump (JInt i) = print_int i"
| "dump (JBool b) = dump_bool b"
| "dump (JString s) = dump_string s"
| "dump (JArray values) = ''['' @ dump_array True values @ '']''"
| "dump (JObject values) = ''{'' @ dump_object True values @ ''}''"
| "dump_array first [] = []"
| "dump_array first (j # js) = (if first then [] else '', '') @ dump j @ dump_array False js"
| "dump_object first [] = []"
| "dump_object first ((k, v) # kvs) =
     (if first then [] else '', '') @ dump_string k @ '': '' @ dump v @ dump_object False kvs"

section \<open>Parsing: tokens\<close>

datatype JsonParse = STANDARD | COMMENTS

type_synonym 'a jresult = "string + 'a \<times> string"

abbreviation max_depth :: int where "max_depth \<equiv> 200"

definition peek :: "string \<Rightarrow> char" where
  "peek s = (case s of [] \<Rightarrow> CHR 0x00 | c # s' \<Rightarrow> c)"

text \<open>A \<^verbatim>\<open>char\<close> is signed.\<close>

definition signed_char :: "char \<Rightarrow> int" where
  "signed_char c = (if (of_char c :: int) < 128 then of_char c else of_char c - 256)"

definition esc :: "char \<Rightarrow> string" where
  "esc c = (if 0x20 \<le> (of_char c :: int) \<and> (of_char c :: int) \<le> 0x7F
     then [CHR 0x27, c, CHR 0x27] @ '' ('' @ print_int (signed_char c) @ '')''
     else ''('' @ print_int (signed_char c) @ '')'')"

definition is_json_space :: "char \<Rightarrow> bool" where
  "is_json_space c \<longleftrightarrow> c = CHR '' '' \<or> c = CHR 0x0D \<or> c = CHR 0x0A \<or> c = CHR 0x09"

definition consume_whitespace :: "string \<Rightarrow> string" where
  "consume_whitespace s = dropWhile is_json_space s"

text \<open>The rest of a multi-line comment, after its opening.\<close>

fun comment_end :: "string \<Rightarrow> string + string" where
  "comment_end s =
     (if length s < 2 then Inl ''unexpected end of input inside multi-line comment''
      else if take 2 s = ''*/'' then Inr (drop 2 s)
      else comment_end (tl s))"

declare comment_end.simps [simp del]

text \<open>Whether a comment was found, and the rest.\<close>

definition consume_comment :: "string \<Rightarrow> bool jresult" where
  "consume_comment s =
     (if peek s = CHR ''/'' then
        (let s = tl s
         in if s = [] then Inl ''unexpected end of input after start of comment''
            else if peek s = CHR ''/'' then Inr (True, dropWhile (\<lambda>c. c \<noteq> CHR 0x0A) (tl s))
            else if peek s = CHR ''*'' then
              (case comment_end (tl s) of Inl e \<Rightarrow> Inl e | Inr s \<Rightarrow> Inr (True, s))
            else Inl ''malformed comment'')
      else Inr (False, s))"

lemma comment_end_length: "comment_end s = Inr s' \<Longrightarrow> length s' < length s"
proof (induction s rule: comment_end.induct)
  case (1 s)
  then show ?case by (subst (asm) (2) comment_end.simps) (auto split: if_splits)
qed

lemma consume_comment_length: "consume_comment s = Inr (found, s') \<Longrightarrow> length s' + (if found then 1 else 0) \<le> length s"
proof -
  have d: "length (dropWhile P t) \<le> length t" for P and t :: string by (rule length_dropWhile_le)
  show "consume_comment s = Inr (found, s') \<Longrightarrow> length s' + (if found then 1 else 0) \<le> length s"
    using d [of "\<lambda>c. c \<noteq> CHR 0x0A" "tl (tl s)"]
    by (cases s) (auto simp: consume_comment_def Let_def peek_def split: if_splits sum.splits list.splits dest!: comment_end_length)
qed

function garbage_loop :: "string \<Rightarrow> string + string" where
  "garbage_loop s = (case consume_comment s of
     Inl e \<Rightarrow> Inl e
   | Inr (comment_found, s') \<Rightarrow>
       (let s'' = consume_whitespace s' in if comment_found then garbage_loop s'' else Inr s''))"
  by pat_completeness auto
termination
proof (relation "measure length")
  fix s x :: string and y comment_found s' and s'' :: string
  assume "consume_comment s = Inr y" "(comment_found, s') = y" "s'' = consume_whitespace s'" "comment_found"
  then have "length s' < length s" using consume_comment_length [of s comment_found s'] by auto
  moreover have "length s'' \<le> length s'" using \<open>s'' = _\<close> by (simp add: consume_whitespace_def length_dropWhile_le)
  ultimately show "(s'', s) \<in> measure length" by simp
qed simp

declare garbage_loop.simps [simp del]

definition consume_garbage :: "JsonParse \<Rightarrow> string \<Rightarrow> string + string" where
  "consume_garbage strategy s =
     (let s = consume_whitespace s in if strategy = COMMENTS then garbage_loop s else Inr s)"

definition get_next_token :: "JsonParse \<Rightarrow> string \<Rightarrow> char jresult" where
  "get_next_token strategy s = (case consume_garbage strategy s of
     Inl e \<Rightarrow> Inl e
   | Inr [] \<Rightarrow> Inl ''unexpected end of input''
   | Inr (c # s') \<Rightarrow> Inr (c, s'))"

section \<open>Parsing: strings\<close>

definition encode_utf8 :: "int \<Rightarrow> string" where
  "encode_utf8 pt =
     (if pt < 0 then []
      else if pt < 0x80 then [char_of pt]
      else if pt < 0x800 then [char_of (drop_bit 6 pt OR 0xC0), char_of ((pt AND 0x3F) OR 0x80)]
      else if pt < 0x10000 then
        [char_of (drop_bit 12 pt OR 0xE0), char_of ((drop_bit 6 pt AND 0x3F) OR 0x80), char_of ((pt AND 0x3F) OR 0x80)]
      else
        [char_of (drop_bit 18 pt OR 0xF0), char_of ((drop_bit 12 pt AND 0x3F) OR 0x80),
         char_of ((drop_bit 6 pt AND 0x3F) OR 0x80), char_of ((pt AND 0x3F) OR 0x80)])"

definition simple_escape :: "char \<Rightarrow> char option" where
  "simple_escape ch =
     (if ch = CHR ''b'' then Some (CHR 0x08)
      else if ch = CHR ''f'' then Some (CHR 0x0C)
      else if ch = CHR ''n'' then Some (CHR 0x0A)
      else if ch = CHR ''r'' then Some (CHR 0x0D)
      else if ch = CHR ''t'' then Some (CHR 0x09)
      else if ch = QUOTE \<or> ch = BACKSLASH \<or> ch = CHR ''/'' then Some ch
      else None)"

function parse_string_loop :: "int \<Rightarrow> string \<Rightarrow> string \<Rightarrow> string jresult" where
  "parse_string_loop last_cp out [] = Inl ''unexpected end of input in string''"
| "parse_string_loop last_cp out (ch # s) =
     (if ch = QUOTE then Inr (out @ encode_utf8 last_cp, s)
      else if 0 \<le> signed_char ch \<and> signed_char ch \<le> 0x1F then Inl (''unescaped '' @ esc ch @ '' in string'')
      else if ch \<noteq> BACKSLASH then parse_string_loop (- 1) (out @ encode_utf8 last_cp @ [ch]) s
      else case s of
          [] \<Rightarrow> Inl ''unexpected end of input in string''
        | ch # s \<Rightarrow>
            if ch = CHR ''u'' then
              (let esc4 = take 4 s
               in if length esc4 < 4 \<or> \<not> list_all is_hex esc4 then Inl (''bad '' @ [BACKSLASH] @ ''u escape: '' @ esc4)
                  else
                    (let codepoint = hex_number esc4
                     in if 0xD800 \<le> last_cp \<and> last_cp \<le> 0xDBFF \<and> 0xDC00 \<le> codepoint \<and> codepoint \<le> 0xDFFF
                        then parse_string_loop (- 1)
                          (out @ encode_utf8 ((push_bit 10 (last_cp - 0xD800) OR (codepoint - 0xDC00)) + 0x10000)) (drop 4 s)
                        else parse_string_loop codepoint (out @ encode_utf8 last_cp) (drop 4 s)))
            else case simple_escape ch of
                Some c \<Rightarrow> parse_string_loop (- 1) (out @ encode_utf8 last_cp @ [c]) s
              | None \<Rightarrow> Inl (''invalid escape character '' @ esc ch))"
  by pat_completeness auto
termination
  by (relation "measure (\<lambda>(last_cp, out, s). length s)") auto

definition parse_string :: "string \<Rightarrow> string jresult" where
  "parse_string s = parse_string_loop (- 1) [] s"

section \<open>Parsing: numbers\<close>

definition number_int :: "string \<Rightarrow> string + string" where
  "number_int s =
     (if peek s = CHR ''0'' then
        (if isdigit (peek (tl s)) then Inl ''leading 0s not permitted in numbers'' else Inr (tl s))
      else if isdigit (peek s) then Inr (dropWhile isdigit s)
      else Inl (''invalid '' @ esc (peek s) @ '' in number''))"

definition number_frac :: "string \<Rightarrow> string + string" where
  "number_frac s =
     (if peek s = CHR ''.'' then
        (if isdigit (peek (tl s)) then Inr (dropWhile isdigit (tl s))
         else Inl ''at least one digit required in fractional part'')
      else Inr s)"

definition number_exp :: "string \<Rightarrow> string + string" where
  "number_exp s =
     (if peek s = CHR ''e'' \<or> peek s = CHR ''E'' then
        (let s = tl s; s = (if peek s = CHR ''+'' \<or> peek s = CHR ''-'' then tl s else s)
         in if isdigit (peek s) then Inr (dropWhile isdigit s)
            else Inl ''at least one digit required in exponent'')
      else Inr s)"

text \<open>
  An integer of at most nine characters is an \<^verbatim>\<open>int\<close>, any other number a \<^verbatim>\<open>double\<close>. The
  conversions read the text that was accepted.
\<close>

definition parse_number :: "string \<Rightarrow> json jresult" where
  "parse_number s =
     (case number_int (if peek s = CHR ''-'' then tl s else s) of
        Inl e \<Rightarrow> Inl e
      | Inr s1 \<Rightarrow>
          if peek s1 \<noteq> CHR ''.'' \<and> peek s1 \<noteq> CHR ''e'' \<and> peek s1 \<noteq> CHR ''E'' \<and> length s - length s1 \<le> 9
          then Inr (JInt (atoi s), s1)
          else case number_frac s1 of
              Inl e \<Rightarrow> Inl e
            | Inr s2 \<Rightarrow> (case number_exp s2 of
                Inl e \<Rightarrow> Inl e
              | Inr s3 \<Rightarrow> Inr (JDouble (strtod (take (length s - length s3) s)), s3)))"

section \<open>Parsing: values\<close>

definition expect :: "string \<Rightarrow> json \<Rightarrow> string \<Rightarrow> json jresult" where
  "expect expected res s =
     (if take (length expected) s = expected then Inr (res, drop (length expected) s)
      else Inl (''parse error: expected '' @ expected @ '', got '' @ take (length expected) s))"

text \<open>
  The recursion on values and the loops over the members of an object and the elements of an
  array. Each body takes the recursive calls as arguments; the recursion itself is on a fuel
  and \<^term>\<open>None\<close> if it runs out. \<open>parse_elements\<close> starts at an element, after the \<^verbatim>\<open>i--\<close> of the
  source.
\<close>

type_synonym parse_result = "json jresult option"

definition json_body ::
  "((string \<times> json) list \<Rightarrow> char \<Rightarrow> string \<Rightarrow> parse_result) \<Rightarrow> (json list \<Rightarrow> string \<Rightarrow> parse_result) \<Rightarrow>
   JsonParse \<Rightarrow> int \<Rightarrow> string \<Rightarrow> parse_result" where
  "json_body members elements strategy depth s =
     (if max_depth < depth then Some (Inl ''exceeded maximum nesting depth'')
      else case get_next_token strategy s of
        Inl e \<Rightarrow> Some (Inl e)
      | Inr (ch, s) \<Rightarrow>
          if ch = CHR ''-'' \<or> isdigit ch then Some (parse_number (ch # s))
          else if ch = CHR ''t'' then Some (expect ''true'' (JBool True) (ch # s))
          else if ch = CHR ''f'' then Some (expect ''false'' (JBool False) (ch # s))
          else if ch = CHR ''n'' then Some (expect ''null'' JNull (ch # s))
          else if ch = QUOTE then
            Some (case parse_string s of Inl e \<Rightarrow> Inl e | Inr (str, s) \<Rightarrow> Inr (JString str, s))
          else if ch = CHR ''{'' then
            (case get_next_token strategy s of
               Inl e \<Rightarrow> Some (Inl e)
             | Inr (ch, s) \<Rightarrow> if ch = CHR ''}'' then Some (Inr (JObject [], s)) else members [] ch s)
          else if ch = CHR ''['' then
            (case get_next_token strategy s of
               Inl e \<Rightarrow> Some (Inl e)
             | Inr (ch, s) \<Rightarrow> if ch = CHR '']'' then Some (Inr (JArray [], s)) else elements [] (ch # s))
          else Some (Inl (''expected value, got '' @ esc ch)))"

text \<open>\<^verbatim>\<open>expected 'c' in ..., got ...\<close>.\<close>

definition expected_char :: "char \<Rightarrow> string \<Rightarrow> char \<Rightarrow> string" where
  "expected_char c place got = ''expected '' @ [CHR 0x27, c, CHR 0x27] @ '' in '' @ place @ '', got '' @ esc got"

definition members_body ::
  "(string \<Rightarrow> parse_result) \<Rightarrow> ((string \<times> json) list \<Rightarrow> char \<Rightarrow> string \<Rightarrow> parse_result) \<Rightarrow>
   JsonParse \<Rightarrow> (string \<times> json) list \<Rightarrow> char \<Rightarrow> string \<Rightarrow> parse_result" where
  "members_body parse members strategy data ch s =
     (if ch \<noteq> QUOTE then Some (Inl (expected_char QUOTE ''object'' ch))
      else case parse_string s of Inl e \<Rightarrow> Some (Inl e)
      | Inr (key, s) \<Rightarrow> (case get_next_token strategy s of Inl e \<Rightarrow> Some (Inl e)
      | Inr (ch, s) \<Rightarrow>
          if ch \<noteq> CHR '':'' then Some (Inl (expected_char (CHR '':'') ''object'' ch))
          else case parse s of None \<Rightarrow> None | Some (Inl e) \<Rightarrow> Some (Inl e)
          | Some (Inr (v, s)) \<Rightarrow> (case get_next_token strategy s of Inl e \<Rightarrow> Some (Inl e)
          | Inr (ch, s) \<Rightarrow>
              if ch = CHR ''}'' then Some (Inr (JObject (map_put key v data), s))
              else if ch \<noteq> CHR '','' then Some (Inl (expected_char (CHR '','') ''object'' ch))
              else case get_next_token strategy s of Inl e \<Rightarrow> Some (Inl e)
              | Inr (ch, s) \<Rightarrow> members (map_put key v data) ch s)))"

definition elements_body ::
  "(string \<Rightarrow> parse_result) \<Rightarrow> (json list \<Rightarrow> string \<Rightarrow> parse_result) \<Rightarrow>
   JsonParse \<Rightarrow> json list \<Rightarrow> string \<Rightarrow> parse_result" where
  "elements_body parse elements strategy data s =
     (case parse s of None \<Rightarrow> None | Some (Inl e) \<Rightarrow> Some (Inl e)
      | Some (Inr (v, s)) \<Rightarrow> (case get_next_token strategy s of Inl e \<Rightarrow> Some (Inl e)
      | Inr (ch, s) \<Rightarrow>
          if ch = CHR '']'' then Some (Inr (JArray (data @ [v]), s))
          else if ch \<noteq> CHR '','' then Some (Inl (expected_char (CHR '','') ''list'' ch))
          else case get_next_token strategy s of Inl e \<Rightarrow> Some (Inl e)
          | Inr (ch, s) \<Rightarrow> elements (data @ [v]) (ch # s)))"

fun parse_json :: "nat \<Rightarrow> JsonParse \<Rightarrow> int \<Rightarrow> string \<Rightarrow> parse_result"
  and parse_members :: "nat \<Rightarrow> JsonParse \<Rightarrow> int \<Rightarrow> (string \<times> json) list \<Rightarrow> char \<Rightarrow> string \<Rightarrow> parse_result"
  and parse_elements :: "nat \<Rightarrow> JsonParse \<Rightarrow> int \<Rightarrow> json list \<Rightarrow> string \<Rightarrow> parse_result" where
  "parse_json 0 strategy depth s = None"
| "parse_json (Suc fuel) strategy depth s =
     json_body (\<lambda>data ch s. parse_members fuel strategy depth data ch s)
       (\<lambda>data s. parse_elements fuel strategy depth data s) strategy depth s"
| "parse_members 0 strategy depth data ch s = None"
| "parse_members (Suc fuel) strategy depth data ch s =
     members_body (\<lambda>s. parse_json fuel strategy (depth + 1) s)
       (\<lambda>data ch s. parse_members fuel strategy depth data ch s) strategy data ch s"
| "parse_elements 0 strategy depth data s = None"
| "parse_elements (Suc fuel) strategy depth data s =
     elements_body (\<lambda>s. parse_json fuel strategy (depth + 1) s)
       (\<lambda>data s. parse_elements fuel strategy depth data s) strategy data s"

text \<open>Each level reads a character before it recurs, so twice the length of the input is enough fuel.\<close>

definition parse_fuel :: "string \<Rightarrow> nat" where
  "parse_fuel s = 2 * length s + 1"

text \<open>\<^verbatim>\<open>Json::parse\<close>: the value, or the message left in \<^verbatim>\<open>err\<close>.\<close>

definition Json_parse_opt :: "JsonParse \<Rightarrow> string \<Rightarrow> (string + json) option" where
  "Json_parse_opt strategy inp =
     (case parse_json (parse_fuel inp) strategy 0 inp of None \<Rightarrow> None
      | Some (Inl e) \<Rightarrow> Some (Inl e)
      | Some (Inr (j, s)) \<Rightarrow> Some (case consume_garbage strategy s of
          Inl e \<Rightarrow> Inl e
        | Inr s \<Rightarrow> if s \<noteq> [] then Inl (''unexpected trailing '' @ esc (peek s)) else Inr j))"

text \<open>The fuel never runs out, so the first case below is not reached.\<close>

definition Json_parse :: "JsonParse \<Rightarrow> string \<Rightarrow> string + json" where
  "Json_parse strategy inp = (case Json_parse_opt strategy inp of None \<Rightarrow> Inl [] | Some r \<Rightarrow> r)"

section \<open>Several values, and the shape of an object\<close>

text \<open>What a failed \<^verbatim>\<open>parse_json\<close> returns: an empty string inside a string, null anywhere else.\<close>

definition failed_value :: "JsonParse \<Rightarrow> string \<Rightarrow> json" where
  "failed_value strategy s = (case get_next_token strategy s of
     Inr (c, s') \<Rightarrow> if c = QUOTE then JString [] else JNull
   | Inl e \<Rightarrow> JNull)"

text \<open>
  The loop of \<^verbatim>\<open>parse_multi\<close>: the values read, the rest of the input at \<^verbatim>\<open>parser_stop_pos\<close> and the
  message. A value always consumes input, so the last branch is not reached.
\<close>

function parse_multi_loop :: "JsonParse \<Rightarrow> json list \<Rightarrow> string \<Rightarrow> string \<Rightarrow> json list \<times> string \<times> string option" where
  "parse_multi_loop strategy vec stop s =
     (if s = [] then (vec, stop, None)
      else case parse_json (parse_fuel s) strategy 0 s of
          None \<Rightarrow> (vec, stop, None)
        | Some (Inl e) \<Rightarrow> (vec @ [failed_value strategy s], stop, Some e)
        | Some (Inr (j, s')) \<Rightarrow> (case consume_garbage strategy s' of
            Inl e \<Rightarrow> (vec @ [j], stop, Some e)
          | Inr s'' \<Rightarrow> if length s'' < length s then parse_multi_loop strategy (vec @ [j]) s'' s'' else (vec @ [j], s'', None)))"
  by pat_completeness auto
termination
  by (relation "measure (\<lambda>(strategy, vec, stop, s). length s)") auto

declare parse_multi_loop.simps [simp del]

definition parse_multi :: "JsonParse \<Rightarrow> string \<Rightarrow> json list \<times> string \<times> string option" where
  "parse_multi strategy inp = parse_multi_loop strategy [] inp inp"

fun has_shape_loop :: "json \<Rightarrow> (string \<times> json_tag) list \<Rightarrow> string option" where
  "has_shape_loop j [] = None"
| "has_shape_loop j ((k, t) # types) =
     (if json_type (at_key j k) \<noteq> t then Some (''bad type for '' @ k @ '' in '' @ dump j) else has_shape_loop j types)"

text \<open>\<^term>\<open>None\<close> where the source returns true, else the message.\<close>

definition has_shape :: "json \<Rightarrow> (string \<times> json_tag) list \<Rightarrow> string option" where
  "has_shape j types = (if \<not> is_object j then Some (''expected JSON object, got '' @ dump j) else has_shape_loop j types)"

end
