(* ===== verification/JsonProps.thy ===== *)
theory JsonProps
  imports Json
begin

text \<open>
  What the JSON library guarantees: \<^verbatim>\<open>parse\<close> ends on every input, the values it makes are well
  formed, and it reads back what \<^verbatim>\<open>dump\<close> writes.
\<close>

section \<open>The parser consumes its input\<close>

lemma consume_whitespace_length: "length (consume_whitespace s) \<le> length s"
  by (simp add: consume_whitespace_def length_dropWhile_le)

lemma garbage_loop_length: "garbage_loop s = Inr s' \<Longrightarrow> length s' \<le> length s"
proof (induction s arbitrary: s' rule: garbage_loop.induct)
  case (1 s)
  from "1.prems" obtain found s1 where c: "consume_comment s = Inr (found, s1)"
    by (subst (asm) garbage_loop.simps) (auto split: sum.splits)
  have l: "length s1 \<le> length s" using consume_comment_length [OF c] by simp
  have w: "length (consume_whitespace s1) \<le> length s1" by (rule consume_whitespace_length)
  show ?case
  proof (cases found)
    case True
    then have "garbage_loop (consume_whitespace s1) = Inr s'"
      using "1.prems" c by (subst (asm) garbage_loop.simps) simp
    then show ?thesis using "1.IH" [OF c refl refl True] l w by simp
  next
    case False
    then show ?thesis using "1.prems" c l w by (subst (asm) garbage_loop.simps) auto
  qed
qed

lemma consume_garbage_length: "consume_garbage strategy s = Inr s' \<Longrightarrow> length s' \<le> length s"
  using consume_whitespace_length [of s] garbage_loop_length [of "consume_whitespace s" s']
  by (auto simp: consume_garbage_def Let_def split: if_splits)

lemma get_next_token_length: "get_next_token strategy s = Inr (c, s') \<Longrightarrow> length s' < length s"
  by (auto simp: get_next_token_def split: sum.splits list.splits dest!: consume_garbage_length)

lemma parse_string_loop_length: "parse_string_loop last_cp out s = Inr (str, s') \<Longrightarrow> length s' < length s"
proof (induction "length s" arbitrary: last_cp out s rule: less_induct)
  case less
  then have IH: "parse_string_loop l out' t = Inr (str, s') \<Longrightarrow> length t < length s \<Longrightarrow> length s' < length t" for l out' t
    by blast
  show ?case
  proof (cases s)
    case Nil
    then show ?thesis using less.prems by simp
  next
    case (Cons ch t)
    have le: "parse_string_loop l out' u = Inr (str, s') \<Longrightarrow> length u \<le> length t \<Longrightarrow> length s' \<le> length t" for l out' u
      using IH [of l out' u] Cons by (simp add: less_Suc_eq_le)
    have 1: "parse_string_loop l out' t = Inr (str, s') \<Longrightarrow> length s' \<le> length t" for l out'
      using le [of l out' "t"] by simp
    have 2: "parse_string_loop l out' (tl t) = Inr (str, s') \<Longrightarrow> length s' \<le> length t" for l out'
      using le [of l out' "tl t"] by simp
    have 3: "parse_string_loop l out' (drop 4 (tl t)) = Inr (str, s') \<Longrightarrow> length s' \<le> length t" for l out'
      using le [of l out' "drop 4 (tl t)"] by simp
    show ?thesis
      using less.prems 1 2 3 Cons
      by (cases t) (auto simp: Let_def less_Suc_eq_le split: if_splits option.splits)
  qed
qed

lemma parse_string_length: "parse_string s = Inr (str, s') \<Longrightarrow> length s' < length s"
  by (simp add: parse_string_def parse_string_loop_length)

lemma number_int_length: "number_int s = Inr s' \<Longrightarrow> length s' < length s"
  by (cases s) (auto simp: number_int_def peek_def isdigit_def le_imp_less_Suc length_dropWhile_le split: if_splits)

lemma number_frac_length: "number_frac s = Inr s' \<Longrightarrow> length s' \<le> length s"
  by (cases s) (auto simp: number_frac_def peek_def isdigit_def intro: le_trans [OF length_dropWhile_le] split: if_splits)

lemma number_exp_length: "number_exp s = Inr s' \<Longrightarrow> length s' \<le> length s"
proof -
  have "length (dropWhile isdigit (tl t)) \<le> length t" "length (dropWhile isdigit (tl (tl t))) \<le> length t" for t
    by (metis length_dropWhile_le length_tl diff_le_self le_trans)+
  then show "number_exp s = Inr s' \<Longrightarrow> length s' \<le> length s"
    by (auto simp: number_exp_def Let_def split: if_splits)
qed

lemma parse_number_length:
  assumes "parse_number s = Inr (j, s')"
  shows "length s' < length s"
proof -
  define t where "t = (if peek s = CHR ''-'' then tl s else s)"
  have t: "length t \<le> length s" by (simp add: t_def)
  obtain s1 where s1: "number_int t = Inr s1" using assms by (auto simp: parse_number_def t_def split: sum.splits)
  have "length s1 < length s" using number_int_length [OF s1] t by simp
  then show ?thesis
    using assms s1 by (auto simp: parse_number_def t_def [symmetric] split: sum.splits if_splits
        dest!: number_frac_length number_exp_length)
qed

lemma expect_length: "expect expected res s = Inr (j, s') \<Longrightarrow> expected \<noteq> [] \<Longrightarrow> length s' < length s"
  by (cases s; cases expected) (auto simp: expect_def split: if_splits)

lemmas parse_lengths = get_next_token_length parse_string_length parse_number_length

lemma parse_lengths_all:
  "(parse_json fuel strategy depth s = Some (Inr (j, s')) \<longrightarrow> length s' < length s) \<and>
   (parse_members fuel strategy depth data ch s = Some (Inr (j, s')) \<longrightarrow> length s' < length s) \<and>
   (parse_elements fuel strategy depth elems s = Some (Inr (j, s')) \<longrightarrow> length s' < length s)"
proof (induction fuel arbitrary: depth s j s' data ch elems)
  case (Suc fuel)
  note IH = Suc.IH [THEN conjunct1, rule_format] Suc.IH [THEN conjunct2, THEN conjunct1, rule_format]
    Suc.IH [THEN conjunct2, THEN conjunct2, rule_format]
  have "length s' < length s" if "parse_json (Suc fuel) strategy depth s = Some (Inr (j, s'))"
    using that
    by (auto simp: json_body_def split: if_splits sum.splits prod.splits dest!: parse_lengths expect_length IH(2,3))
  moreover have "length s' < length s" if "parse_members (Suc fuel) strategy depth data ch s = Some (Inr (j, s'))"
    using that
    by (auto simp: members_body_def split: if_splits sum.splits prod.splits option.splits dest!: parse_lengths IH(1,2)) 
  moreover have "length s' < length s" if "parse_elements (Suc fuel) strategy depth elems s = Some (Inr (j, s'))"
    using that 
    by (auto simp: elements_body_def split: if_splits sum.splits prod.splits option.splits dest!: parse_lengths IH(1,3)) 
  ultimately show ?case by blast
qed simp

lemma parse_json_length: "parse_json fuel strategy depth s = Some (Inr (j, s')) \<Longrightarrow> length s' < length s"
  using parse_lengths_all by blast

section \<open>Termination\<close>

lemma parse_total:
  "(2 * length s + 1 \<le> fuel \<longrightarrow> parse_json fuel strategy depth s \<noteq> None) \<and>
   (2 * length s + 1 \<le> fuel \<longrightarrow> parse_members fuel strategy depth data ch s \<noteq> None) \<and>
   (2 * length s + 2 \<le> fuel \<longrightarrow> parse_elements fuel strategy depth elems s \<noteq> None)"
proof (induction fuel arbitrary: depth s data ch elems)
  case (Suc fuel)
  note IH = Suc.IH [THEN conjunct1, rule_format] Suc.IH [THEN conjunct2, THEN conjunct1, rule_format]
    Suc.IH [THEN conjunct2, THEN conjunct2, rule_format]
  have "parse_json (Suc fuel) strategy depth s \<noteq> None" if f: "2 * length s + 1 \<le> Suc fuel"
  proof -
    have "parse_members fuel strategy depth [] c t \<noteq> None" "parse_elements fuel strategy depth [] (c # t) \<noteq> None"
      if "get_next_token strategy s = Inr (c', t')" "get_next_token strategy t' = Inr (c, t)" for c t c' t'
      using f that [THEN get_next_token_length] by (intro IH(2,3); simp)+
    then show ?thesis by (simp add: json_body_def del: not_None_eq split: sum.split prod.split)
  qed
  moreover have "parse_members (Suc fuel) strategy depth data ch s \<noteq> None" if f: "2 * length s + 1 \<le> Suc fuel"
  proof -
    have "parse_json fuel strategy (depth + 1) t \<noteq> None" if "length t < length s" for t
      using f that by (intro IH(1)) simp
    moreover have "\<exists>y. parse_members fuel strategy depth data' c t = Some y" if "length t < length s" for data' c t
      using f that IH(2) [of t depth data' c] by auto
    ultimately show ?thesis
      by (auto simp: members_body_def simp del: not_None_eq split: sum.splits prod.splits option.splits
          dest!: parse_lengths parse_json_length)
  qed
  moreover have "parse_elements (Suc fuel) strategy depth elems s \<noteq> None" if f: "2 * length s + 2 \<le> Suc fuel"
  proof -
    have "parse_json fuel strategy (depth + 1) s \<noteq> None" using f by (intro IH(1)) simp
    moreover have "parse_elements fuel strategy depth data' (c # t) \<noteq> None" if "Suc (length t) < length s" for data' c t
      using f that by (intro IH(3)) simp
    ultimately show ?thesis
      by (auto simp: elements_body_def split: sum.splits prod.splits option.splits dest!: parse_lengths parse_json_length)
  qed
  ultimately show ?case by blast
qed simp

section \<open>Reading back strings and numbers\<close>

lemma garbage_loop_none: "s = [] \<or> hd s \<noteq> CHR ''/'' \<and> \<not> is_json_space (hd s) \<Longrightarrow> garbage_loop s = Inr s"
  by (subst garbage_loop.simps) (cases s; simp add: consume_comment_def peek_def consume_whitespace_def)

lemma get_next_token_char [simp]:
  assumes "list_all is_json_space sp" "\<not> is_json_space c" "c \<noteq> CHR ''/''"
  shows "get_next_token strategy (sp @ c # s) = Inr (c, s)"
proof -
  have "consume_whitespace (sp @ c # s) = c # s"
    using assms by (induction sp) (simp_all add: consume_whitespace_def)
  then show ?thesis
    using assms garbage_loop_none [of "c # s"] by (cases strategy) (simp_all add: get_next_token_def consume_garbage_def Let_def)
qed

lemmas get_next_token_here = get_next_token_char [of "[]", simplified]

lemma consume_garbage_Nil [simp]: "consume_garbage strategy [] = Inr []"
  by (simp add: consume_garbage_def consume_whitespace_def Let_def garbage_loop_none)

lemma of_char_range: "0 \<le> (of_char ch :: int)" "(of_char ch :: int) < 256"
  using pos_mod_sign [of 256 "of_char ch :: int"] pos_mod_bound [of 256 "of_char ch :: int"] by simp_all

lemma control_escape:
  assumes "(of_char ch :: int) \<le> 31"
  shows "list_all is_hex [CHR ''0'', CHR ''0'', hex_digit False (of_char ch div 16), hex_digit False (of_char ch mod 16)]"
    and "hex_number [CHR ''0'', CHR ''0'', hex_digit False (of_char ch div 16), hex_digit False (of_char ch mod 16)] = of_char ch"
    and "encode_utf8 (of_char ch) = [ch]"
proof -
  have "0 \<le> (of_char ch :: int)" by (rule of_char_range)
  then have n: "nibble (of_char ch div 16)" "nibble (of_char ch mod 16)" using assms by (auto simp: nibble_def)
  have z: "hex_value (CHR ''0'') = Some 0" by code_simp
  show "list_all is_hex [CHR ''0'', CHR ''0'', hex_digit False (of_char ch div 16), hex_digit False (of_char ch mod 16)]"
    using n z by (simp add: is_hex_def)
  show "hex_number [CHR ''0'', CHR ''0'', hex_digit False (of_char ch div 16), hex_digit False (of_char ch mod 16)] = of_char ch"
    using n z by (simp add: hex_number_def)
  show "encode_utf8 (of_char ch) = [ch]" using assms of_char_range [of ch] by (simp add: encode_utf8_def)
qed

lemma line_separators:
  "list_all is_hex ''2028'' \<and> hex_number ''2028'' = 0x2028 \<and> encode_utf8 0x2028 = [CHR 0xE2, CHR 0x80, CHR 0xA8]"
  "list_all is_hex ''2029'' \<and> hex_number ''2029'' = 0x2029 \<and> encode_utf8 0x2029 = [CHR 0xE2, CHR 0x80, CHR 0xA9]"
  by code_simp+

lemma encode_utf8_none [simp]: "encode_utf8 (- 1) = []"
  by (simp add: encode_utf8_def)

lemma parse_escape:
  assumes "length esc4 = 4" "list_all is_hex esc4" "last_cp < 0xD800"
  shows "parse_string_loop last_cp out (BACKSLASH # CHR ''u'' # esc4 @ s) =
    parse_string_loop (hex_number esc4) (out @ encode_utf8 last_cp) s"
  using assms by (simp add: signed_char_def)

lemma parse_simple_escape:
  assumes "simple_escape ch = Some c"
  shows "parse_string_loop last_cp out (BACKSLASH # ch # s) = parse_string_loop (- 1) (out @ encode_utf8 last_cp @ [c]) s"
  using assms by (auto simp: signed_char_def simple_escape_def split: if_splits)

lemma parse_plain_char:
  assumes "ch \<noteq> BACKSLASH" "ch \<noteq> QUOTE" "\<not> (of_char ch :: int) \<le> 31"
  shows "parse_string_loop last_cp out (ch # s) = parse_string_loop (- 1) (out @ encode_utf8 last_cp @ [ch]) s"
  using assms of_char_range [of ch] by (auto simp: signed_char_def)

declare parse_string_loop.simps(2) [simp del]

text \<open>The five ways in which a character is written.\<close>

lemma dump_chars_cases:
  obtains (simple) c where "simple_escape c = Some ch" "dump_chars (ch # str) = BACKSLASH # c # dump_chars str"
    | (control) "(of_char ch :: int) \<le> 31" "dump_chars (ch # str) =
        BACKSLASH # CHR ''u'' # [CHR ''0'', CHR ''0'', hex_digit False (of_char ch div 16), hex_digit False (of_char ch mod 16)]
          @ dump_chars str"
    | (sep1) str' where "ch # str = [CHR 0xE2, CHR 0x80, CHR 0xA8] @ str'"
        "dump_chars (ch # str) = BACKSLASH # CHR ''u'' # ''2028'' @ dump_chars str'"
    | (sep2) str' where "ch # str = [CHR 0xE2, CHR 0x80, CHR 0xA9] @ str'"
        "dump_chars (ch # str) = BACKSLASH # CHR ''u'' # ''2029'' @ dump_chars str'"
    | (plain) "ch \<noteq> BACKSLASH" "ch \<noteq> QUOTE" "\<not> (of_char ch :: int) \<le> 31" "dump_chars (ch # str) = ch # dump_chars str"
proof -
  have e: "simple_escape BACKSLASH = Some BACKSLASH" "simple_escape QUOTE = Some QUOTE"
    "simple_escape (CHR ''b'') = Some (CHR 0x08)" "simple_escape (CHR ''f'') = Some (CHR 0x0C)"
    "simple_escape (CHR ''n'') = Some (CHR 0x0A)" "simple_escape (CHR ''r'') = Some (CHR 0x0D)"
    "simple_escape (CHR ''t'') = Some (CHR 0x09)" by (simp_all add: simple_escape_def)
  have t: "take 2 str = [a, b] \<Longrightarrow> str = [a, b] @ drop 2 str" for a b by (metis append_take_drop_id)
  show thesis
  proof (cases "\<exists>c. simple_escape c = Some ch \<and> dump_chars (ch # str) = BACKSLASH # c # dump_chars str")
    case True
    then show ?thesis using simple by blast
  next
    case False
    then have n: "ch \<noteq> BACKSLASH" "ch \<noteq> QUOTE" "ch \<noteq> CHR 0x08" "ch \<noteq> CHR 0x0C" "ch \<noteq> CHR 0x0A" "ch \<noteq> CHR 0x0D" "ch \<noteq> CHR 0x09"
      using e by auto
    show ?thesis
    proof (cases "(of_char ch :: int) \<le> 31")
      case True
      then show ?thesis using n control by simp
    next
      case high: False
      show ?thesis
      proof (cases "ch = CHR 0xE2 \<and> (take 2 str = [CHR 0x80, CHR 0xA8] \<or> take 2 str = [CHR 0x80, CHR 0xA9])")
        case True
        then show ?thesis using n high sep1 [of "drop 2 str"] sep2 [of "drop 2 str"] t by auto
      next
        case False
        then show ?thesis using n high plain by auto
      qed
    qed
  qed
qed

declare dump_chars.simps(2) [simp del]

lemma parse_dump_escape:
  assumes "dump_chars str = BACKSLASH # CHR ''u'' # esc4 @ dump_chars str'" "length esc4 = 4"
    and "list_all is_hex esc4" "last_cp < 0xD800"
    and "parse_string_loop (hex_number esc4) (out @ encode_utf8 last_cp) (dump_chars str' @ QUOTE # s) = r"
  shows "parse_string_loop last_cp out (dump_chars str @ QUOTE # s) = r"
  using parse_escape [OF assms(2-4), of out "dump_chars str' @ QUOTE # s"] assms(1,5) by simp

lemma parse_dump_chars:
  "last_cp < 0xD800 \<Longrightarrow>
    parse_string_loop last_cp out (dump_chars str @ QUOTE # s) = Inr (out @ encode_utf8 last_cp @ str, s)"
proof (induction "length str" arbitrary: str last_cp out rule: less_induct)
  case less
  show ?case
  proof (cases str)
    case Nil
    then show ?thesis by (simp add: parse_string_loop.simps)
  next
    case (Cons ch str1)
    have IH: "parse_string_loop l out' (dump_chars t @ QUOTE # s) = Inr (out' @ encode_utf8 l @ t, s)"
      if "length t < length str" "l < 0xD800" for t l out' using less.hyps [OF that(1) that(2)] .
    show ?thesis
    proof (cases rule: dump_chars_cases [of ch str1])
      case (simple c)
      then show ?thesis using Cons IH by (simp add: parse_simple_escape)
    next
      case control
      note c = control_escape [OF control(1)]
      show ?thesis
        by (rule parse_dump_escape [OF control(2) [folded Cons] _ c(1) less.prems])
          (use Cons control(1) c IH [of str1 "of_char ch"] in simp_all)
    next
      case (sep1 str')
      note l = line_separators(1)
      show ?thesis
        by (rule parse_dump_escape [OF sep1(2) [folded Cons] _ _ less.prems])
          (use Cons sep1(1) l IH [of str' "0x2028"] in simp_all)
    next
      case (sep2 str')
      note l = line_separators(2)
      show ?thesis
        by (rule parse_dump_escape [OF sep2(2) [folded Cons] _ _ less.prems])
          (use Cons sep2(1) l IH [of str' "0x2029"] in simp_all)
    next
      case plain
      then show ?thesis using Cons IH by (simp add: parse_plain_char)
    qed
  qed
qed

lemma parse_dump_string [simp]: "parse_string (dump_chars str @ QUOTE # s) = Inr (str, s)"
  using parse_dump_chars [of "- 1" "[]" str s] by (simp add: parse_string_def)

text \<open>What may follow a number: not a character that would continue it.\<close>

definition number_end :: "string \<Rightarrow> bool" where
  "number_end s \<longleftrightarrow> \<not> isdigit (peek s) \<and> peek s \<noteq> CHR ''.'' \<and> peek s \<noteq> CHR ''e'' \<and> peek s \<noteq> CHR ''E''"

lemma span_digits:
  assumes "list_all isdigit ds" "\<not> isdigit (peek s)"
  shows "takeWhile isdigit (ds @ s) = ds" "dropWhile isdigit (ds @ s) = s"
  using assms by (cases s; induction ds; simp add: peek_def)+

lemma number_int_print_nat:
  assumes "0 \<le> n" "\<not> isdigit (peek s)"
  shows "number_int (print_nat n @ s) = Inr s"
proof -
  obtain c t where c: "print_nat n = c # t" "isdigit c" "c = CHR ''0'' \<longleftrightarrow> n = 0" "n = 0 \<Longrightarrow> t = []"
    using print_nat_hd [OF assms(1)] by blast
  have "dropWhile isdigit (print_nat n @ s) = s" using span_digits [OF print_nat_digits] assms by simp
  then show ?thesis using assms c by (cases "n = 0") (simp_all add: number_int_def peek_def)
qed

lemma not_minus: "isdigit c \<Longrightarrow> c \<noteq> CHR ''-''"
  by (auto simp: isdigit_def)

lemma print_int_cases:
  obtains (neg) "i < 0" "print_int i = CHR ''-'' # print_nat (- i)" "0 \<le> - i"
    | (pos) c t where "0 \<le> i" "print_int i = print_nat i" "print_nat i = c # t" "isdigit c" "c \<noteq> CHR ''-''"
proof (cases "i < 0")
  case False
  then obtain c t where "print_nat i = c # t" "isdigit c" using print_nat_hd [of i] by (metis not_less)
  then show ?thesis using pos [of c t] False not_minus [of c] by (simp add: print_int_def)
qed (use neg in \<open>simp add: print_int_def\<close>)

lemma atoi_print_int:
  assumes "\<not> isdigit (peek s)"
  shows "atoi (print_int i @ s) = i"
proof (cases rule: print_int_cases [of i])
  case neg
  then show ?thesis using span_digits [OF print_nat_digits assms, of "- i"] by (simp add: atoi_def)
next
  case (pos c t)
  then show ?thesis
    using span_digits [OF print_nat_digits assms, of i] read_print_nat [of i] by (simp add: atoi_def)
qed

lemma strtod_digits:
  assumes "list_all isdigit ds" "ds \<noteq> []"
  shows "strtod ds = to_double False (read_nat ds) 1" "strtod (CHR ''-'' # ds) = to_double True (read_nat ds) 1"
proof -
  have span: "takeWhile isdigit ds = ds" "dropWhile isdigit ds = []" using assms by (simp_all add: list_all_iff)
  have "take 1 ds \<noteq> ''-''" using assms not_minus by (cases ds) auto
  then show "strtod ds = to_double False (read_nat ds) 1" "strtod (CHR ''-'' # ds) = to_double True (read_nat ds) 1"
    by (simp_all add: strtod_def span)
qed

lemma strtod_print_int: "strtod (print_int i) = double_of_int i"
  using strtod_digits [OF print_nat_digits print_nat_nonempty, of "\<bar>i\<bar>"]
  by (cases "i < 0") (simp_all add: print_int_def double_of_int_def)

definition reread_int :: "int \<Rightarrow> json" where
  "reread_int i = (if length (print_int i) \<le> 9 then JInt i else JDouble (double_of_int i))"

lemma parse_number_print_int:
  assumes "number_end s"
  shows "parse_number (print_int i @ s) = Inr (reread_int i, s)"
proof -
  have e: "\<not> isdigit (peek s)" "peek s \<noteq> CHR ''.''" "peek s \<noteq> CHR ''e''" "peek s \<noteq> CHR ''E''"
    using assms by (simp_all add: number_end_def)
  have n: "number_int (if peek (print_int i @ s) = CHR ''-'' then tl (print_int i @ s) else print_int i @ s) = Inr s"
  proof (cases rule: print_int_cases [of i])
    case neg
    then show ?thesis using number_int_print_nat [of "- i" s] e by (simp add: peek_def)
  next
    case (pos c t)
    then show ?thesis using number_int_print_nat [of i s] e by (simp add: peek_def)
  qed
  have "number_frac s = Inr s" "number_exp s = Inr s" using e by (simp_all add: number_frac_def number_exp_def)
  then show ?thesis
    unfolding parse_number_def n using e by (simp add: reread_int_def atoi_print_int strtod_print_int)
qed

section \<open>Reading back values\<close>

text \<open>Well formed: the keys of an object increase, an integer fits an \<^verbatim>\<open>int\<close>.\<close>

fun wf_json :: "json \<Rightarrow> bool" where
  "wf_json (JInt i) = in_int32 i"
| "wf_json (JArray js) = list_all wf_json js"
| "wf_json (JObject kvs) = (sorted_wrt (<) (map fst kvs) \<and> list_all (\<lambda>(k, v). wf_json v) kvs)"
| "wf_json j = True"

fun no_doubles :: "json \<Rightarrow> bool" where
  "no_doubles (JDouble d) = False"
| "no_doubles (JArray js) = list_all no_doubles js"
| "no_doubles (JObject kvs) = list_all (\<lambda>(k, v). no_doubles v) kvs"
| "no_doubles j = True"

text \<open>How deep a value is nested.\<close>

fun json_depth :: "json \<Rightarrow> nat" where
  "json_depth (JArray js) = foldr (\<lambda>j n. max (Suc (json_depth j)) n) js 0"
| "json_depth (JObject kvs) = foldr (\<lambda>(k, v) n. max (Suc (json_depth v)) n) kvs 0"
| "json_depth j = 0"

text \<open>The value that reading back makes: an integer of ten characters or more becomes a double.\<close>

fun reread :: "json \<Rightarrow> json" where
  "reread (JInt i) = reread_int i"
| "reread (JArray js) = JArray (map reread js)"
| "reread (JObject kvs) = JObject (map (\<lambda>(k, v). (k, reread v)) kvs)"
| "reread j = j"

lemma dump_start:
  assumes "no_doubles j"
  obtains c t where "dump j = c # t" "\<not> is_json_space c" "c \<noteq> CHR ''/''" "c \<noteq> CHR '']''" "c \<noteq> CHR ''}''"
proof -
  have d: "isdigit c \<Longrightarrow> \<not> is_json_space c \<and> c \<noteq> CHR ''/'' \<and> c \<noteq> CHR '']'' \<and> c \<noteq> CHR ''}''" for c
    by (auto simp: isdigit_def is_json_space_def)
  have q: "\<not> is_json_space c" if "c \<in> set ''-tfn[{'' \<union> {QUOTE}" for c using that by (auto simp: is_json_space_def)
  show ?thesis
  proof (cases j)
    case (JInt i)
    then show ?thesis using that q [of "CHR ''-''"] by (cases rule: print_int_cases [of i]) (auto simp: d)
  next
    case (JBool b)
    then show ?thesis using that q by (cases b) (auto simp: dump_bool_def)
  qed (use assms that q in \<open>auto simp: dump_string_def\<close>)
qed

lemma depth_bounds:
  "j \<in> set js \<Longrightarrow> Suc (json_depth j) \<le> json_depth (JArray js)"
  "(k, v) \<in> set kvs \<Longrightarrow> Suc (json_depth v) \<le> json_depth (JObject kvs)"
proof -
  show "j \<in> set js \<Longrightarrow> Suc (json_depth j) \<le> json_depth (JArray js)" by (induction js) auto
  show "(k, v) \<in> set kvs \<Longrightarrow> Suc (json_depth v) \<le> json_depth (JObject kvs)" by (induction kvs) auto
qed

text \<open>One element or member more of what \<^verbatim>\<open>dump\<close> writes.\<close>

lemma dump_array_rest: "js \<noteq> [] \<Longrightarrow> dump_array False js = '', '' @ dump_array True js"
  by (cases js) simp_all

lemma dump_object_rest: "kvs \<noteq> [] \<Longrightarrow> dump_object False kvs = '', '' @ dump_object True kvs"
  by (cases kvs) auto

definition reads_back :: "JsonParse \<Rightarrow> int \<Rightarrow> json \<Rightarrow> bool" where
  "reads_back strategy depth j \<longleftrightarrow> (\<forall>fuel sp s. list_all is_json_space sp \<longrightarrow> number_end s \<longrightarrow>
     2 * length (sp @ dump j @ s) + 1 \<le> fuel \<longrightarrow>
     parse_json fuel strategy depth (sp @ dump j @ s) = Some (Inr (reread j, s)))"

lemma reads_backD:
  assumes "reads_back strategy depth j" "list_all is_json_space sp" "number_end s" "2 * length (sp @ dump j @ s) + 1 \<le> fuel"
  shows "parse_json fuel strategy depth (sp @ dump j @ s) = Some (Inr (reread j, s))"
  using assms unfolding reads_back_def by blast

lemma number_ends [simp]:
  "number_end []" "number_end (CHR '','' # s)" "number_end (CHR '']'' # s)" "number_end (CHR ''}'' # s)"
  by (simp_all add: number_end_def peek_def isdigit_def)

lemma spaces [simp]:
  "\<not> is_json_space (CHR '','')" "\<not> is_json_space (CHR '']'')" "\<not> is_json_space (CHR ''}'')" "\<not> is_json_space (CHR '':'')"
  "\<not> is_json_space QUOTE" "is_json_space (CHR '' '')"
  by (simp_all add: is_json_space_def)

lemma elements_read_back:
  assumes "js \<noteq> []" "list_all (\<lambda>j. no_doubles j \<and> reads_back strategy (depth + 1) j) js"
    and "2 * length (dump_array True js @ CHR '']'' # s) + 2 \<le> fuel"
  shows "parse_elements fuel strategy depth data (dump_array True js @ CHR '']'' # s) =
    Some (Inr (JArray (data @ map reread js), s))"
  using assms
proof (induction js arbitrary: data fuel)
  case (Cons j js)
  obtain f where f: "fuel = Suc f" using Cons.prems by (cases fuel) auto
  define t where "t = dump_array False js @ CHR '']'' # s"
  have e: "number_end t" using dump_array_rest [of js] by (cases js) (simp_all add: t_def)
  have p: "parse_json f strategy (depth + 1) (dump j @ t) = Some (Inr (reread j, t))"
    using reads_backD [of strategy "depth + 1" j "[]" t f] Cons.prems e f by (simp add: t_def)
  show ?case
  proof (cases "js = []")
    case True
    then show ?thesis using p by (simp add: f elements_body_def t_def get_next_token_here)
  next
    case False
    then obtain j' js' where js: "js = j' # js'" by (cases js) auto
    obtain c u where c: "dump j' = c # u" "\<not> is_json_space c" "c \<noteq> CHR ''/''"
      by (rule dump_start [of j']) (use Cons.prems js in auto)
    have "t = '', '' @ dump_array True js @ CHR '']'' # s" using False by (simp add: t_def dump_array_rest)
    moreover have "dump_array True js = c # u @ dump_array False js'" using js c by simp
    moreover have "parse_elements f strategy depth (data @ [reread j]) (dump_array True js @ CHR '']'' # s) =
        Some (Inr (JArray ((data @ [reread j]) @ map reread js), s))"
      using Cons.prems f False by (intro Cons.IH) (simp_all add: dump_array_rest)
    ultimately show ?thesis
      using p c get_next_token_char [of "'' ''" c strategy "u @ dump_array False js' @ CHR '']'' # s"]
      by (simp add: f elements_body_def get_next_token_here flip: t_def)
  qed
qed simp

lemma members_read_back:
  assumes "kvs \<noteq> []" "list_all (\<lambda>(k, v). no_doubles v \<and> reads_back strategy (depth + 1) v) kvs"
    and "sorted_wrt (<) (map fst (data @ kvs))"
    and "2 * length (tl (dump_object True kvs) @ CHR ''}'' # s) + 1 \<le> fuel"
  shows "parse_members fuel strategy depth data QUOTE (tl (dump_object True kvs) @ CHR ''}'' # s) =
    Some (Inr (JObject (data @ map (\<lambda>(k, v). (k, reread v)) kvs), s))"
  using assms
proof (induction kvs arbitrary: data fuel)
  case (Cons kv kvs)
  obtain k v where kv: "kv = (k, v)" by (cases kv)
  obtain f where f: "fuel = Suc f" using Cons.prems by (cases fuel) auto
  define t where "t = dump_object False kvs @ CHR ''}'' # s"
  have e: "number_end t" using dump_object_rest [of kvs] by (cases kvs) (simp_all add: t_def)
  have h: "tl (dump_object True (kv # kvs)) @ CHR ''}'' # s = dump_chars k @ QUOTE # CHR '':'' # '' '' @ dump v @ t"
    by (simp add: kv dump_string_def t_def)
  have p: "parse_json f strategy (depth + 1) ('' '' @ dump v @ t) = Some (Inr (reread v, t))"
    using Cons.prems(2) Cons.prems(4) [unfolded h] e f by (intro reads_backD) (simp_all add: kv)
  define data' where "data' = map_put k (reread v) data"
  have "list_all (\<lambda>(k', v'). k' < k) data" using Cons.prems(3) by (auto simp: kv sorted_wrt_append list_all_iff)
  then have put: "data' = data @ [(k, reread v)]" by (simp add: map_put_last data'_def)
  have first: "parse_members fuel strategy depth data QUOTE (tl (dump_object True (kv # kvs)) @ CHR ''}'' # s) =
      (case get_next_token strategy t of Inl e \<Rightarrow> Some (Inl e)
       | Inr (ch, s) \<Rightarrow>
           if ch = CHR ''}'' then Some (Inr (JObject data', s))
           else if ch \<noteq> CHR '','' then Some (Inl (expected_char (CHR '','') ''object'' ch))
           else case get_next_token strategy s of Inl e \<Rightarrow> Some (Inl e)
           | Inr (ch, s) \<Rightarrow> parse_members f strategy depth data' ch s)"
    unfolding h f data'_def using p by (simp add: members_body_def get_next_token_here)
  show ?case
  proof (cases "kvs = []")
    case True
    then show ?thesis using first by (simp add: t_def kv put get_next_token_here)
  next
    case False
    then obtain k' v' kvs' where kvs: "kvs = (k', v') # kvs'" by (cases kvs) auto
    have "t = '', '' @ QUOTE # tl (dump_object True kvs) @ CHR ''}'' # s"
      by (simp add: t_def kvs dump_string_def)
    moreover have "parse_members f strategy depth data' QUOTE (tl (dump_object True kvs) @ CHR ''}'' # s) =
        Some (Inr (JObject (data' @ map (\<lambda>(k, v). (k, reread v)) kvs), s))"
      using Cons.prems f False
      by (intro Cons.IH) (simp_all add: kv kvs dump_string_def put sorted_wrt_append)
    ultimately show ?thesis
      using first get_next_token_char [of "'' ''" QUOTE strategy "tl (dump_object True kvs) @ CHR ''}'' # s"]
      by (simp add: get_next_token_here kv put)
  qed
qed simp

lemma reads_backI:
  assumes "\<And>f sp s. list_all is_json_space sp \<Longrightarrow> number_end s \<Longrightarrow> 2 * length (sp @ dump j @ s) \<le> f \<Longrightarrow>
    parse_json (Suc f) strategy depth (sp @ dump j @ s) = Some (Inr (reread j, s))"
  shows "reads_back strategy depth j"
  unfolding reads_back_def
proof (intro allI impI)
  fix fuel sp s
  assume a: "list_all is_json_space sp" "number_end s" "2 * length (sp @ dump j @ s) + 1 \<le> fuel"
  then obtain f where "fuel = Suc f" "2 * length (sp @ dump j @ s) \<le> f" by (cases fuel) auto
  then show "parse_json fuel strategy depth (sp @ dump j @ s) = Some (Inr (reread j, s))" using a assms by blast
qed

lemma json_starts [simp]:
  "\<not> is_json_space (CHR ''n'')" "\<not> is_json_space (CHR ''t'')" "\<not> is_json_space (CHR ''f'')"
  "\<not> is_json_space (CHR ''['')" "\<not> is_json_space (CHR ''{'')"
  "\<not> isdigit (CHR ''n'')" "\<not> isdigit (CHR ''t'')" "\<not> isdigit (CHR ''f'')" "\<not> isdigit (CHR ''['')" "\<not> isdigit (CHR ''{'')"
  "\<not> isdigit QUOTE"
  by (simp_all add: is_json_space_def isdigit_def)

lemma json_reads_back:
  "wf_json j \<Longrightarrow> no_doubles j \<Longrightarrow> 0 \<le> depth \<Longrightarrow> depth + int (json_depth j) \<le> max_depth \<Longrightarrow> reads_back strategy depth j"
proof (induction j arbitrary: depth)
  case (JInt i)
  show ?case
  proof (rule reads_backI)
    fix f :: nat and sp s
    assume a: "list_all is_json_space sp" "number_end s"
    obtain c t where c: "dump (JInt i) = c # t" "\<not> is_json_space c" "c \<noteq> CHR ''/''"
      by (rule dump_start [of "JInt i"]) simp_all
    moreover have "c = CHR ''-'' \<or> isdigit c" using c(1) by (cases rule: print_int_cases [of i]) auto
    ultimately show "parse_json (Suc f) strategy depth (sp @ dump (JInt i) @ s) = Some (Inr (reread (JInt i), s))"
      using JInt.prems a(1) parse_number_print_int [OF a(2), of i] by (simp add: json_body_def)
  qed
next
  case (JArray js)
  have r: "list_all (\<lambda>j. no_doubles j \<and> reads_back strategy (depth + 1) j) js"
    using JArray depth_bounds(1) [of _ js] by (fastforce simp: list_all_iff simp del: json_depth.simps)
  show ?case
  proof (rule reads_backI)
    fix f :: nat and sp s
    assume a: "list_all is_json_space sp" "2 * length (sp @ dump (JArray js) @ s) \<le> f"
    show "parse_json (Suc f) strategy depth (sp @ dump (JArray js) @ s) = Some (Inr (reread (JArray js), s))"
    proof (cases js)
      case Nil
      then show ?thesis using a JArray.prems by (simp add: json_body_def get_next_token_here)
    next
      case (Cons j js')
      then obtain c t where c: "dump j = c # t" "\<not> is_json_space c" "c \<noteq> CHR ''/''" "c \<noteq> CHR '']''"
        using dump_start [of j] r by (metis list.pred_inject(2))
      have "parse_elements f strategy depth [] (dump_array True js @ CHR '']'' # s) =
          Some (Inr (JArray ([] @ map reread js), s))"
        using r a Cons by (intro elements_read_back) simp_all
      then show ?thesis using c a JArray.prems Cons by (simp add: json_body_def get_next_token_here)
    qed
  qed
next
  case (JObject kvs)
  have r: "list_all (\<lambda>(k, v). no_doubles v \<and> reads_back strategy (depth + 1) v) kvs"
    using JObject depth_bounds(2) [of _ _ kvs] by (fastforce simp: list_all_iff simp del: json_depth.simps)
  show ?case
  proof (rule reads_backI)
    fix f :: nat and sp s
    assume a: "list_all is_json_space sp" "2 * length (sp @ dump (JObject kvs) @ s) \<le> f"
    show "parse_json (Suc f) strategy depth (sp @ dump (JObject kvs) @ s) = Some (Inr (reread (JObject kvs), s))"
    proof (cases kvs)
      case Nil
      then show ?thesis using a JObject.prems by (simp add: json_body_def get_next_token_here)
    next
      case (Cons kv kvs')
      have o: "dump_object True kvs = QUOTE # tl (dump_object True kvs)"
        using Cons by (cases kv) (simp add: dump_string_def)
      then have l: "length (dump_object True kvs) = Suc (length (tl (dump_object True kvs)))" by (metis length_Cons)
      have "parse_members f strategy depth [] QUOTE (tl (dump_object True kvs) @ CHR ''}'' # s) =
          Some (Inr (JObject ([] @ map (\<lambda>(k, v). (k, reread v)) kvs), s))"
        using r a Cons JObject.prems(1) l by (intro members_read_back) simp_all
      moreover have d: "dump (JObject kvs) @ s = CHR ''{'' # QUOTE # tl (dump_object True kvs) @ CHR ''}'' # s"
        by (subst dump.simps, subst o) simp
      ultimately show ?thesis unfolding d using a(1) JObject.prems by (simp add: json_body_def get_next_token_here)
    qed
  qed
qed (rule reads_backI; simp add: json_body_def dump_bool_def dump_string_def expect_def)+

section \<open>Values are well formed\<close>

lemma read_nat_bound:
  assumes "list_all isdigit ds"
  shows "0 \<le> read_nat ds" "read_nat ds < 10 ^ length ds"
proof -
  have b: "in_base 10 (map digit_of (rev ds))"
    using assms by (auto simp: in_base_def list_all_iff digit_of_def isdigit_def)
  show "0 \<le> read_nat ds" unfolding read_nat_def by (rule radix_val_nonneg [OF _ b]) simp
  show "read_nat ds < 10 ^ length ds" using radix_val_less [OF b] by (simp add: read_nat_def)
qed

lemma number_int_digits:
  assumes "number_int s = Inr s'"
  shows "length (takeWhile isdigit s) = length s - length s'"
proof -
  have l: "length (takeWhile isdigit s) + length (dropWhile isdigit s) = length s"
    by (metis length_append takeWhile_dropWhile_id)
  show ?thesis
    using assms l by (cases s; cases "tl s") (auto simp: number_int_def peek_def isdigit_def split: if_splits)
qed

lemma parse_number_wf:
  assumes "parse_number s = Inr (j, s')"
  shows "wf_json j \<and> json_depth j = 0"
proof -
  define t where "t = (if peek s = CHR ''-'' then tl s else s)"
  have sign: "(take 1 s = ''-'') = (peek s = CHR ''-'')" by (cases s) (simp_all add: peek_def)
  obtain s1 where s1: "number_int t = Inr s1" using assms by (auto simp: parse_number_def t_def split: sum.splits)
  have "in_int32 (atoi s)" if "length s - length s1 \<le> 9"
  proof -
    define ds where "ds = takeWhile isdigit t"
    have "list_all isdigit ds" by (auto simp: ds_def list_all_iff dest: set_takeWhileD)
    note b = read_nat_bound [OF this]
    have "length t \<le> length s" by (simp add: t_def)
    then have "length ds \<le> 9" using number_int_digits [OF s1] that unfolding ds_def by linarith
    then have "(10 :: int) ^ length ds \<le> 10 ^ 9" by (intro power_increasing) auto
    then have "0 \<le> read_nat ds" "read_nat ds < 1000000000" using b by auto
    moreover have "atoi s = read_nat ds \<or> atoi s = - read_nat ds" unfolding atoi_def sign ds_def t_def by simp
    ultimately show ?thesis unfolding in_int32_def by auto
  qed
  then show ?thesis
    using assms s1 by (auto simp: parse_number_def t_def [symmetric] split: sum.splits if_splits)
qed

text \<open>Every value is well formed and nested no deeper than the limit.\<close>

definition parsed :: "int \<Rightarrow> json \<Rightarrow> bool" where
  "parsed depth j \<longleftrightarrow> wf_json j \<and> depth + int (json_depth j) \<le> max_depth"

definition parsed_array :: "int \<Rightarrow> json list \<Rightarrow> bool" where
  "parsed_array depth js \<longleftrightarrow> list_all (parsed (depth + 1)) js"

definition parsed_object :: "int \<Rightarrow> (string \<times> json) list \<Rightarrow> bool" where
  "parsed_object depth kvs \<longleftrightarrow> sorted_wrt (<) (map fst kvs) \<and> list_all (\<lambda>(k, v). parsed (depth + 1) v) kvs"

lemma parsed_array: "depth \<le> max_depth \<Longrightarrow> parsed_array depth js \<Longrightarrow> parsed depth (JArray js)"
  by (induction js) (auto simp: parsed_array_def parsed_def)

lemma parsed_object: "depth \<le> max_depth \<Longrightarrow> parsed_object depth kvs \<Longrightarrow> parsed depth (JObject kvs)"
  by (induction kvs) (auto simp: parsed_object_def parsed_def)

lemma parsed_object_put: "parsed_object depth kvs \<Longrightarrow> parsed (depth + 1) v \<Longrightarrow> parsed_object depth (map_put k v kvs)"
  by (simp add: parsed_object_def map_put_sorted map_put_all)

lemma parsed_array_append: "parsed_array depth js \<Longrightarrow> parsed (depth + 1) j \<Longrightarrow> parsed_array depth (js @ [j])"
  by (simp add: parsed_array_def)

lemma parsed_leaf [simp]:
  "depth \<le> max_depth \<Longrightarrow> parsed depth JNull" "depth \<le> max_depth \<Longrightarrow> parsed depth (JBool b)"
  "depth \<le> max_depth \<Longrightarrow> parsed depth (JString str)" "depth \<le> max_depth \<Longrightarrow> parsed_array depth []"
  "depth \<le> max_depth \<Longrightarrow> parsed_object depth []"
  by (simp_all add: parsed_def parsed_array_def parsed_object_def)

lemma expect_value: "expect expected res s = Inr (j, s') \<Longrightarrow> j = res"
  by (simp add: expect_def split: if_splits)

lemma parsed_all:
  "(parse_json fuel strategy depth s = Some (Inr (j, s')) \<longrightarrow> parsed depth j) \<and>
   (depth \<le> max_depth \<longrightarrow> parsed_object depth data \<longrightarrow>
     parse_members fuel strategy depth data ch s = Some (Inr (j, s')) \<longrightarrow> parsed depth j) \<and>
   (depth \<le> max_depth \<longrightarrow> parsed_array depth elems \<longrightarrow>
     parse_elements fuel strategy depth elems s = Some (Inr (j, s')) \<longrightarrow> parsed depth j)"
proof (induction fuel arbitrary: depth s j s' data ch elems)
  case (Suc fuel)
  note IH = Suc.IH [THEN conjunct1, rule_format] Suc.IH [THEN conjunct2, THEN conjunct1, rule_format]
    Suc.IH [THEN conjunct2, THEN conjunct2, rule_format]
  have "parsed depth j" if p: "parse_json (Suc fuel) strategy depth s = Some (Inr (j, s'))"
  proof (cases "depth \<le> max_depth")
    case True
    have n: "parse_number t = Inr (i, t') \<Longrightarrow> parsed depth i" for t i t'
      using parse_number_wf [of t i t'] True by (simp add: parsed_def)
    show ?thesis
      using p True parsed_array [of depth "[]"] parsed_object [of depth "[]"]
      by (auto simp: json_body_def n split: if_splits sum.splits prod.splits dest: expect_value
          dest!: IH(2) [OF True parsed_leaf(5) [OF True]] IH(3) [OF True parsed_leaf(4) [OF True]])
  qed (use p in \<open>simp add: json_body_def\<close>)
  moreover have "parsed depth j" if "depth \<le> max_depth" "parsed_object depth data"
    "parse_members (Suc fuel) strategy depth data ch s = Some (Inr (j, s'))"
    using that by (auto simp: members_body_def split: if_splits sum.splits prod.splits option.splits
        intro: parsed_object parsed_object_put IH)
  moreover have "parsed depth j" if "depth \<le> max_depth" "parsed_array depth elems"
    "parse_elements (Suc fuel) strategy depth elems s = Some (Inr (j, s'))"
    using that by (auto simp: elements_body_def split: if_splits sum.splits prod.splits option.splits
        intro: parsed_array parsed_array_append IH)
  ultimately show ?case by blast
qed simp

lemma double_eq_refl [simp]: "double_eq d d"
  by (simp add: double_eq_def)

lemma json_eq_reread: "json_eq j (reread j)"
proof (induction j)
  case (JArray js)
  have "json_eq_list js (map reread js)" using JArray by (induction js) simp_all
  then show ?case by simp
next
  case (JObject kvs)
  have "\<forall>(k, v) \<in> set kvs. json_eq v (reread v)" using JObject by fastforce
  then have "json_eq_entries kvs (map (\<lambda>(k, v). (k, reread v)) kvs)" by (induction kvs) auto
  then show ?case by simp
qed (simp_all add: reread_int_def)

lemma parse_of_dump:
  assumes "wf_json j" "no_doubles j" "int (json_depth j) \<le> max_depth"
  shows "Json_parse_opt strategy (dump j) = Some (Inr (reread j)) \<and> json_eq j (reread j) \<and>
    int_value (reread j) = int_value j"
proof -
  have "reads_back strategy 0 j" using assms by (intro json_reads_back) simp_all
  from reads_backD [OF this, of "[]" "[]" "parse_fuel (dump j)"]
  have "parse_json (parse_fuel (dump j)) strategy 0 (dump j) = Some (Inr (reread j, []))"
    by (simp add: parse_fuel_def)
  then have "Json_parse_opt strategy (dump j) = Some (Inr (reread j))" by (simp add: Json_parse_opt_def)
  moreover have "int_value (reread j) = int_value j"
    using assms(1) by (cases j) (auto simp: reread_int_def double_to_int_of_int)
  ultimately show ?thesis by (simp add: json_eq_reread)
qed

section \<open>Properties\<close>

text \<open>
  C31: \<^verbatim>\<open>Json::parse\<close> ends on every input and under both strategies: the fuel that the length of
  the input gives is enough for its recursion.
\<close>

theorem Json_parse_terminates: "Json_parse_opt strategy inp \<noteq> None"
proof -
  have "parse_json (parse_fuel inp) strategy 0 inp \<noteq> None"
    using parse_total [of inp "parse_fuel inp" strategy 0] by (simp add: parse_fuel_def)
  then show ?thesis by (auto simp: Json_parse_opt_def split: option.split sum.split)
qed

text \<open>
  Every value that \<^verbatim>\<open>Json::parse\<close> returns is well formed: the keys of its objects increase
  strictly, its integers fit an \<^verbatim>\<open>int\<close>, and it is nested at most 200 levels deep.
\<close>

theorem Json_parse_wf:
  assumes "Json_parse_opt strategy inp = Some (Inr j)"
  shows "wf_json j \<and> int (json_depth j) \<le> max_depth"
proof -
  obtain s where "parse_json (parse_fuel inp) strategy 0 inp = Some (Inr (j, s))"
    using assms by (auto simp: Json_parse_opt_def split: option.splits sum.splits if_splits)
  then have "parsed 0 j" using parsed_all by blast
  then show ?thesis by (simp add: parsed_def)
qed

lemma Json_parse_sample:
  "Json_parse_opt COMMENTS ''[1, /* two */ null]'' = Some (Inr (JArray [JInt 1, JNull]))"
  by code_simp

theorem Json_parse_wf_witness:
  "wf_json (JArray [JInt 1, JNull]) \<and> int (json_depth (JArray [JInt 1, JNull])) \<le> max_depth"
  by (rule Json_parse_wf [OF Json_parse_sample])

text \<open>
  C9: \<^verbatim>\<open>Json::parse\<close> reads back what \<^verbatim>\<open>dump\<close> writes, for every well-formed value without doubles
  that is not nested deeper than the limit: strings of any bytes, objects and arrays of any size. The
  result is equal to the value under \<^verbatim>\<open>operator==\<close> and has the same \<^verbatim>\<open>int_value\<close>; only integers of
  ten or more characters change their representation, to a double.
\<close>

theorem Json_parse_dump:
  assumes "wf_json j" "no_doubles j" "int (json_depth j) \<le> max_depth"
  shows "Json_parse_opt strategy (dump j) = Some (Inr (reread j)) \<and> json_eq j (reread j) \<and>
    int_value (reread j) = int_value j"
  using assms by (rule parse_of_dump)

theorem Json_parse_dump_witness:
  "Json_parse_opt STANDARD (dump (JObject [(''a'', JArray [JInt 5, JBool True]), (''b'', JString [QUOTE])])) =
     Some (Inr (reread (JObject [(''a'', JArray [JInt 5, JBool True]), (''b'', JString [QUOTE])])))"
  using Json_parse_dump [of "JObject [(''a'', JArray [JInt 5, JBool True]), (''b'', JString [QUOTE])]" STANDARD]
  by (simp add: in_int32_def)

end
