(* ===== verification/Storage.thy ===== *)
theory Storage
  imports XXHash Address JsonProps Codec
begin

text \<open>
  The keys of the chain's storage, \<^verbatim>\<open>src/utils/storage.cpp\<close>: the hexadecimal text of a hash of a
  prefix, alone or followed by an account or by the text of a parameter given as JSON.
\<close>

datatype Hasher = XXHASH | BLAKE2

abbreviation STORAGE_PARAM_SIZE :: nat where "STORAGE_PARAM_SIZE \<equiv> 128"
abbreviation STORAGE_HASH_SIZE :: nat where "STORAGE_HASH_SIZE \<equiv> 256"

section \<open>Keys of bytes\<close>

text \<open>The array \<^verbatim>\<open>bytes1\<close>: byte \<open>i\<close> is \<^verbatim>\<open>(xxhash & (0xFF << 8 * i)) >> 8 * i\<close>.\<close>

definition hash_bytes :: "uint64 \<Rightarrow> byte list" where
  "hash_bytes h = map (\<lambda>i. ucast (drop_bit (8 * i) (h AND push_bit (8 * i) 0xFF))) [0..<8]"

text \<open>The hash with one seed, as eight bytes; the fuel of the model's loop does not run out.\<close>

definition xxhash_bytes :: "byte list \<Rightarrow> uint64 \<Rightarrow> byte list result" where
  "xxhash_bytes data seed = rbind (XXH64 data seed) (\<lambda>h. case h of
     None \<Rightarrow> Inr [] | Some h \<Rightarrow> Inr (hash_bytes h))"

definition getStorageKey :: "Hasher \<Rightarrow> byte list \<Rightarrow> string result" where
  "getStorageKey hasher data = (case hasher of
     XXHASH \<Rightarrow>
       rbind (xxhash_bytes data 0) (\<lambda>bytes1.
       rbind (xxhash_bytes data 1) (\<lambda>bytes2.
       Inr (''0x'' @ hex_bytes True bytes1 @ hex_bytes True bytes2)))
   | BLAKE2 \<Rightarrow>
       (case blake2b 32 data [] of
          None \<Rightarrow> Inl (Undefined Uninitialised)
        | Some blake2bHashed \<Rightarrow> Inr (''0x'' @ hex_bytes True blake2bHashed)))"

definition getPlainStorageKey :: "Hasher \<Rightarrow> string \<Rightarrow> string result" where
  "getPlainStorageKey hasher pfx = getStorageKey hasher (char_bytes pfx)"

section \<open>Keys of accounts and parameters\<close>

text \<open>The array \<^verbatim>\<open>data\<close> has \<^verbatim>\<open>STRING_SIZE\<close> bytes for the prefix.\<close>

definition getAddressStorageKey :: "Hasher \<Rightarrow> byte list \<Rightarrow> string \<Rightarrow> string result" where
  "getAddressStorageKey hasher address pfx =
     rbind (getPublicKeyFromAddr address) (\<lambda>pubk.
     if length pfx \<le> STRING_SIZE then getStorageKey hasher (char_bytes pfx @ pubk)
     else Inl (Undefined BufferOverflow))"

text \<open>\<^verbatim>\<open>sprintf(data, "%s%s", ...)\<close> into \<^verbatim>\<open>char data[n]\<close>, and the key of the text.\<close>

definition text_storage_key :: "nat \<Rightarrow> Hasher \<Rightarrow> string \<Rightarrow> string \<Rightarrow> string result" where
  "text_storage_key n hasher pfx val =
     (let data = c_str pfx @ c_str val
      in if length data < n then getStorageKey hasher (char_bytes data) else Inl (Undefined BufferOverflow))"

definition number_types :: "string list" where
  "number_types = [''BlockNumber'', ''u32'', ''AccountIndex'', ''PropIndex'', ''ReferendumIndex'', ''ParaId'']"

definition getMappedStorageKey :: "Hasher \<Rightarrow> string \<Rightarrow> string \<Rightarrow> string result" where
  "getMappedStorageKey hasher jsonPrm pfx =
     rbind (case Json_parse STANDARD jsonPrm of
              Inl err \<Rightarrow>
                if 0 < length err then Inl (Throw (ApplicationException (''Invalid parameter string: '' @ err))) else Inr JNull
            | Inr json \<Rightarrow> Inr json) (\<lambda>json.
     (let type = string_value (at_key json ''type'');
          val = string_value (at_key json ''value'')
      in if type = ''AccountId'' then
           (if ADDRESS_LENGTH \<le> length val + 1
            then getAddressStorageKey hasher (char_bytes (take ADDRESS_LENGTH (val @ [NUL]))) pfx
            else Inl (Undefined OutOfBounds))
         else if type \<in> set number_types then text_storage_key STORAGE_PARAM_SIZE hasher pfx val
         else if type = ''Hash'' then text_storage_key STORAGE_HASH_SIZE hasher pfx val
         else Inl (Throw (ApplicationException (''Invalid parameter type: '' @ type)))))"

section \<open>Lemmas\<close>

lemma hash_bytes_store64: "hash_bytes h = store64 h"
proof -
  have m: "(0xFF :: uint64) = mask 8" by (simp add: mask_eq_exp_minus_1)
  have "ucast (drop_bit n (h AND push_bit n 0xFF)) = (ucast (drop_bit n h) :: byte)" if "n \<le> 56" for n
    unfolding m by (intro bit_word_eqI) (use that in \<open>auto simp: bit_simps\<close>)
  then have "hash_bytes h = map (\<lambda>i. ucast (drop_bit (8 * i) h)) [0..<8]"
    unfolding hash_bytes_def by (intro map_cong) auto
  moreover have "[0..<8] = [0, 1, 2, 3, 4, 5, 6, 7 :: nat]" by (simp add: upt_rec)
  ultimately show ?thesis by (simp add: store64_def)
qed

definition storage_key_spec :: "Hasher \<Rightarrow> byte list \<Rightarrow> string" where
  "storage_key_spec hasher data = ''0x'' @ hex_bytes True (case hasher of
     XXHASH \<Rightarrow> store64 (XXH64_spec data 0) @ store64 (XXH64_spec data 1)
   | BLAKE2 \<Rightarrow> blake2b_spec 32 [] data)"

lemma getStorageKey_value: "getStorageKey hasher data = Inr (storage_key_spec hasher data)"
  by (cases hasher) (simp_all add: getStorageKey_def storage_key_spec_def xxhash_bytes_def XXH64_value
      hash_bytes_store64 blake2b_value)

text \<open>The text of a parameter, as a client writes it.\<close>

definition storage_param :: "string \<Rightarrow> string \<Rightarrow> string" where
  "storage_param type val = dump (json_object [(''type'', JString type), (''value'', JString val)])"

lemma parse_storage_param:
  "Json_parse STANDARD (storage_param type val) = Inr (JObject [(''type'', JString type), (''value'', JString val)])"
proof -
  have o: "json_object [(''type'', JString type), (''value'', JString val)] =
      JObject [(''type'', JString type), (''value'', JString val)]"
    by (simp add: json_object_def less_char_def)
  have "sorted_wrt (<) [''type'', ''value'']" by (simp add: less_char_def)
  then show ?thesis
    using parse_of_dump [of "JObject [(''type'', JString type), (''value'', JString val)]" STANDARD]
    by (simp add: storage_param_def o Json_parse_def)
qed

lemma getMappedStorageKey_param:
  "getMappedStorageKey hasher (storage_param type val) pfx =
     (if type = ''AccountId'' then
        (if ADDRESS_LENGTH \<le> length val + 1
         then getAddressStorageKey hasher (char_bytes (take ADDRESS_LENGTH (val @ [NUL]))) pfx
         else Inl (Undefined OutOfBounds))
      else if type \<in> set number_types then text_storage_key STORAGE_PARAM_SIZE hasher pfx val
      else if type = ''Hash'' then text_storage_key STORAGE_HASH_SIZE hasher pfx val
      else Inl (Throw (ApplicationException (''Invalid parameter type: '' @ type))))"
  unfolding getMappedStorageKey_def parse_storage_param by (simp add: Let_def)

section \<open>Properties\<close>

text \<open>
  C32: \<^verbatim>\<open>getStorageKey\<close> returns for all data, without undefined behaviour: \<^verbatim>\<open>0x\<close> and the upper-case
  hexadecimal digits of the two 64-bit xxHash values with the seeds 0 and 1, or of the 256-bit BLAKE2b
  hash, 34 or 66 characters, which fit its array.
\<close>

theorem getStorageKey_hash:
  "getStorageKey hasher data = Inr (storage_key_spec hasher data) \<and>
   length (storage_key_spec hasher data) = (case hasher of XXHASH \<Rightarrow> 34 | BLAKE2 \<Rightarrow> 66)"
  by (cases hasher) (simp_all add: getStorageKey_value storage_key_spec_def blake2b_spec_length store64_def)

text \<open>
  The key of a mapped parameter of each type, for a parameter written as JSON by \<^verbatim>\<open>dump\<close>: the
  hash of the prefix followed by the value for numbers and hashes, where a text that does not fit the
  128 or 256 bytes of the array overruns it; an exception for every type that is not known.
\<close>

theorem getMappedStorageKey_text:
  assumes "NUL \<notin> set val" "NUL \<notin> set pfx" "type \<noteq> ''AccountId''"
  shows "getMappedStorageKey hasher (storage_param type val) pfx =
    (if type \<in> set number_types \<or> type = ''Hash'' then
       if length (pfx @ val) < (if type = ''Hash'' then STORAGE_HASH_SIZE else STORAGE_PARAM_SIZE)
       then Inr (storage_key_spec hasher (char_bytes (pfx @ val)))
       else Inl (Undefined BufferOverflow)
     else Inl (Throw (ApplicationException (''Invalid parameter type: '' @ type))))"
proof -
  have "''Hash'' \<notin> set number_types" by (simp add: number_types_def)
  then show ?thesis
    using assms unfolding getMappedStorageKey_param by (auto simp: text_storage_key_def getStorageKey_value)
qed

theorem getMappedStorageKey_text_witness:
  "getMappedStorageKey XXHASH (storage_param ''u32'' ''7'') ''Staking Era'' =
     Inr (storage_key_spec XXHASH (char_bytes ''Staking Era7''))"
  using getMappedStorageKey_text [of "''7''" "''Staking Era''" "''u32''" XXHASH] by (simp add: number_types_def)

text \<open>
  C19: from an address to a storage key: for the 48-symbol address of a key, written into a JSON
  parameter, \<^verbatim>\<open>getMappedStorageKey\<close> hashes the prefix and the 32 bytes of the key; with a wrong
  checksum in the address it throws. This spans the JSON parser, base 58, BLAKE2b and the hashes.
\<close>

theorem getMappedStorageKey_address:
  assumes "length pubKey = PUBLIC_KEY_LENGTH" "length check = 2" "length pfx \<le> STRING_SIZE"
  shows "\<exists>addr. EncodeBase58_cap 48 1024 (0x2A # pubKey @ check) = Inr addr \<and>
    getMappedStorageKey hasher (storage_param ''AccountId'' addr) pfx =
      (if check = ss58_checksum (0x2A # pubKey) then Inr (storage_key_spec hasher (char_bytes pfx @ pubKey))
       else Inl (Throw (ApplicationException ''Address checksum is wrong.'')))"
proof -
  obtain addr where addr: "EncodeBase58_cap 48 1024 (0x2A # pubKey @ check) = Inr addr" "length addr = ADDRESS_LENGTH"
    "getPublicKeyFromAddr (char_bytes addr) =
      (if check = ss58_checksum (0x2A # pubKey) then Inr pubKey
       else Inl (Throw (ApplicationException ''Address checksum is wrong.'')))"
    using address_of_key [OF assms(1,2), of 48] by auto
  then have "getMappedStorageKey hasher (storage_param ''AccountId'' addr) pfx =
      (if check = ss58_checksum (0x2A # pubKey) then Inr (storage_key_spec hasher (char_bytes pfx @ pubKey))
       else Inl (Throw (ApplicationException ''Address checksum is wrong.'')))"
    using assms(3) unfolding getMappedStorageKey_param by (simp add: getAddressStorageKey_def getStorageKey_value)
  with addr(1) show ?thesis by blast
qed

theorem getMappedStorageKey_address_witness:
  "\<exists>addr. EncodeBase58_cap 48 1024 (0x2A # replicate 32 9 @ [0, 1]) = Inr addr \<and>
    getMappedStorageKey BLAKE2 (storage_param ''AccountId'' addr) ''Balances'' =
      (if [0, 1] = ss58_checksum (0x2A # replicate 32 9)
       then Inr (storage_key_spec BLAKE2 (char_bytes ''Balances'' @ replicate 32 9))
       else Inl (Throw (ApplicationException ''Address checksum is wrong.'')))"
  by (rule getMappedStorageKey_address) (simp_all add: STRING_SIZE_def)

end
