(* ===== verification/MapQueue.thy ===== *)
theory MapQueue
  imports Prelude
begin

text \<open>
  The queues between the thread that reads the socket and the threads that wait for responses,
  \<^verbatim>\<open>src/utils/concurrentmapqueue.h\<close>: counting semaphores, and a map from keys to bounded
  queues. The semaphores live in a store and are named by their address, because \<^verbatim>\<open>eraseKey\<close>
  deletes them while other threads hold pointers. A thread is its next step; \<open>mq_step\<close> runs one
  statement of one thread, and the runs interleave the steps of any number of threads.
\<close>

section \<open>Semaphores\<close>

text \<open>The count of a semaphore; \<^verbatim>\<open>wait\<close> blocks, the value \<^term>\<open>None\<close>, while it is zero.\<close>

definition sem_notify :: "int \<Rightarrow> int option" where
  "sem_notify count = Some (count + 1)"

definition sem_wait :: "int \<Rightarrow> int option" where
  "sem_wait count = (if count = 0 then None else Some (count - 1))"

definition sem_unblockAll :: "int \<Rightarrow> int option" where
  "sem_unblockAll count = Some 1"

section \<open>The object\<close>

type_synonym addr = nat

record ('k, 't) mapqueue =
  mq_collection :: "('k \<times> 't list) list"
  mq_semR :: "'k \<Rightarrow> addr option"
  mq_semW :: "'k \<Rightarrow> addr option"
  mq_max_size :: int
  mq_store :: "int option list"   \<comment> \<open>the semaphores made so far, \<^term>\<open>None\<close> after \<^verbatim>\<open>delete\<close>\<close>

definition ConcurrentMapQueue :: "int \<Rightarrow> ('k :: linorder, 't) mapqueue" where
  "ConcurrentMapQueue max_size =
     \<lparr>mq_collection = [], mq_semR = (\<lambda>_. None), mq_semW = (\<lambda>_. None), mq_max_size = max_size, mq_store = []\<rparr>"

text \<open>\<^verbatim>\<open>_collection[key]\<close>, an empty queue for a new key.\<close>

definition mq_queue :: "('k :: linorder, 't) mapqueue \<Rightarrow> 'k \<Rightarrow> 't list" where
  "mq_queue m k = (case map_of (mq_collection m) k of None \<Rightarrow> [] | Some q \<Rightarrow> q)"

definition mq_write :: "'k :: linorder \<Rightarrow> 't \<Rightarrow> ('k, 't) mapqueue \<Rightarrow> ('k, 't) mapqueue" where
  "mq_write k v m = m\<lparr>mq_collection := map_put k (mq_queue m k @ [v]) (mq_collection m)\<rparr>"

definition mq_read :: "'k :: linorder \<Rightarrow> ('k, 't) mapqueue \<Rightarrow> 't option \<times> ('k, 't) mapqueue" where
  "mq_read k m = (case mq_queue m k of
     [] \<Rightarrow> (None, m\<lparr>mq_collection := map_put k [] (mq_collection m)\<rparr>)
   | v # q \<Rightarrow> (Some v, m\<lparr>mq_collection := map_put k q (mq_collection m)\<rparr>))"

definition mq_getKeys :: "('k :: linorder, 't) mapqueue \<Rightarrow> 'k list" where
  "mq_getKeys m = map fst (mq_collection m)"

definition addKey :: "'k :: linorder \<Rightarrow> ('k, 't) mapqueue \<Rightarrow> ('k, 't) mapqueue" where
  "addKey k m = (case mq_semR m k of
     None \<Rightarrow> m\<lparr>mq_semR := (mq_semR m)(k \<mapsto> length (mq_store m)),
               mq_semW := (mq_semW m)(k \<mapsto> length (mq_store m) + 1),
               mq_store := mq_store m @ [Some 0, Some (mq_max_size m - 1)]\<rparr>
   | Some r \<Rightarrow> m)"

text \<open>A method of the semaphore at an address: it may block, or find it deleted.\<close>

definition on_sem :: "(int \<Rightarrow> int option) \<Rightarrow> addr \<Rightarrow> ('k, 't) mapqueue \<Rightarrow> ('k, 't) mapqueue result option" where
  "on_sem f p m =
     (if p < length (mq_store m) then
        (case mq_store m ! p of
           None \<Rightarrow> Some (Inl (Undefined UseAfterFree))
         | Some c \<Rightarrow> (case f c of None \<Rightarrow> None | Some c' \<Rightarrow> Some (Inr (m\<lparr>mq_store := (mq_store m)[p := Some c']\<rparr>))))
      else Some (Inl (Undefined OutOfBounds)))"

section \<open>The steps of a thread\<close>

text \<open>
  The statements of \<^verbatim>\<open>put\<close>, \<^verbatim>\<open>get\<close> and \<^verbatim>\<open>eraseKey\<close> that are still to run. \<^verbatim>\<open>_semW[key]->wait()\<close> is two
  steps: the lookup of the pointer, and the call.
\<close>

datatype ('k, 't) pc =
    PutAdd 'k 't | PutSemW 'k 't | PutWait addr 'k 't | PutWrite 'k 't | PutSemR 'k | PutNotify addr 'k | PutDone 'k
  | GetAdd 'k | GetSemR 'k | GetWait addr 'k | GetRead 'k | GetSemW 'k 't | GetNotify addr 'k 't | GetDone 'k "'t option"
  | EraseStart 'k | EraseUnblock "addr option" "addr option" 'k | EraseR "addr" "addr option" 'k
  | EraseW "addr" "addr option" 'k | DeleteR addr "addr option" | DeleteW "addr option" | EraseDone

datatype ('k, 't) event = Tau | Wrote 'k 't | Read 'k 't

type_synonym ('k, 't) step_result = "(('k, 't) event \<times> ('k, 't) pc \<times> ('k, 't) mapqueue) result"

definition deref :: "addr option \<Rightarrow> (addr \<Rightarrow> ('k, 't) step_result) \<Rightarrow> ('k, 't) step_result" where
  "deref p f = (case p of None \<Rightarrow> Inl (Undefined NullDeref) | Some p \<Rightarrow> f p)"

definition sem_call ::
  "(int \<Rightarrow> int option) \<Rightarrow> addr \<Rightarrow> ('k, 't) pc \<Rightarrow> ('k, 't) mapqueue \<Rightarrow> ('k, 't) step_result option" where
  "sem_call f p pc m = (case on_sem f p m of
     None \<Rightarrow> None | Some (Inl e) \<Rightarrow> Some (Inl e) | Some (Inr m') \<Rightarrow> Some (Inr (Tau, pc, m')))"

definition delete_sem :: "addr option \<Rightarrow> ('k, 't) pc \<Rightarrow> ('k, 't) mapqueue \<Rightarrow> ('k, 't) step_result" where
  "delete_sem p pc m = (case p of
     None \<Rightarrow> Inr (Tau, pc, m)
   | Some p \<Rightarrow>
       if p < length (mq_store m) \<and> mq_store m ! p \<noteq> None
       then Inr (Tau, pc, m\<lparr>mq_store := (mq_store m)[p := None]\<rparr>)
       else Inl (Undefined UseAfterFree))"

text \<open>\<^term>\<open>None\<close> if the thread is blocked or has returned.\<close>

fun mq_step :: "('k :: linorder, 't) pc \<Rightarrow> ('k, 't) mapqueue \<Rightarrow> ('k, 't) step_result option" where
  "mq_step (PutAdd k v) m = Some (Inr (Tau, PutSemW k v, addKey k m))"
| "mq_step (PutSemW k v) m = Some (deref (mq_semW m k) (\<lambda>p. Inr (Tau, PutWait p k v, m)))"
| "mq_step (PutWait p k v) m = sem_call sem_wait p (PutWrite k v) m"
| "mq_step (PutWrite k v) m = Some (Inr (Wrote k v, PutSemR k, mq_write k v m))"
| "mq_step (PutSemR k) m = Some (deref (mq_semR m k) (\<lambda>p. Inr (Tau, PutNotify p k, m)))"
| "mq_step (PutNotify p k) m = sem_call sem_notify p (PutDone k) m"
| "mq_step (PutDone k) m = None"
| "mq_step (GetAdd k) m = Some (Inr (Tau, GetSemR k, addKey k m))"
| "mq_step (GetSemR k) m = Some (deref (mq_semR m k) (\<lambda>p. Inr (Tau, GetWait p k, m)))"
| "mq_step (GetWait p k) m = sem_call sem_wait p (GetRead k) m"
| "mq_step (GetRead k) m = (case mq_read k m of
     (None, m') \<Rightarrow> Some (Inr (Tau, GetDone k None, m'))
   | (Some v, m') \<Rightarrow> Some (Inr (Read k v, GetSemW k v, m')))"
| "mq_step (GetSemW k v) m = Some (deref (mq_semW m k) (\<lambda>p. Inr (Tau, GetNotify p k v, m)))"
| "mq_step (GetNotify p k v) m = sem_call sem_notify p (GetDone k (Some v)) m"
| "mq_step (GetDone k r) m = None"
| "mq_step (EraseStart k) m = Some (Inr (Tau, EraseUnblock (mq_semR m k) (mq_semW m k) k, m))"
| "mq_step (EraseUnblock r w k) m = (case r of
     None \<Rightarrow> Some (Inl (Undefined NullDeref)) | Some p \<Rightarrow> sem_call sem_unblockAll p (EraseR p w k) m)"
| "mq_step (EraseR r w k) m = Some (Inr (Tau, EraseW r w k, m\<lparr>mq_semR := (mq_semR m)(k := None)\<rparr>))"
| "mq_step (EraseW r w k) m = Some (Inr (Tau, DeleteR r w, m\<lparr>mq_semW := (mq_semW m)(k := None)\<rparr>))"
| "mq_step (DeleteR r w) m = Some (delete_sem (Some r) (DeleteW w) m)"
| "mq_step (DeleteW w) m = Some (delete_sem w EraseDone m)"
| "mq_step EraseDone m = None"

text \<open>
  A run: the trace of steps so far, the threads and the object. A schedule runs the threads in a
  given order and stops at a blocked thread.
\<close>

type_synonym ('k, 't) trace = "(nat \<times> ('k, 't) event) list"

inductive mq_run ::
  "int \<Rightarrow> ('k :: linorder, 't) pc list \<Rightarrow> ('k, 't) trace \<Rightarrow> ('k, 't) pc list \<Rightarrow> ('k, 't) mapqueue \<Rightarrow> bool"
  for max_size :: int and ps0 :: "('k :: linorder, 't) pc list" where
  start: "mq_run max_size ps0 [] ps0 (ConcurrentMapQueue max_size)"
| step: "mq_run max_size ps0 tr ps m \<Longrightarrow> i < length ps \<Longrightarrow> mq_step (ps ! i) m = Some (Inr (ev, pc, m')) \<Longrightarrow>
    mq_run max_size ps0 (tr @ [(i, ev)]) (ps[i := pc]) m'"

fun schedule :: "nat list \<Rightarrow> ('k :: linorder, 't) trace \<Rightarrow> ('k, 't) pc list \<Rightarrow> ('k, 't) mapqueue \<Rightarrow>
    (('k, 't) trace \<times> ('k, 't) pc list \<times> ('k, 't) mapqueue) result option" where
  "schedule [] tr ps m = Some (Inr (tr, ps, m))"
| "schedule (i # is) tr ps m =
     (if i < length ps then
        (case mq_step (ps ! i) m of
           None \<Rightarrow> None
         | Some (Inl e) \<Rightarrow> Some (Inl e)
         | Some (Inr (ev, pc, m')) \<Rightarrow> schedule is (tr @ [(i, ev)]) (ps[i := pc]) m')
      else None)"

section \<open>Counting threads\<close>

definition count :: "('a \<Rightarrow> bool) \<Rightarrow> 'a list \<Rightarrow> int" where
  "count P xs = int (length (filter P xs))"

lemma count_simps [simp]: "count P [] = 0" "count P (x # xs) = of_bool (P x) + count P xs"
  by (simp_all add: count_def)

lemma count_nonneg [simp]: "0 \<le> count P xs"
  by (simp add: count_def)

lemma count_update: "i < length xs \<Longrightarrow> count P (xs[i := x]) = count P xs - of_bool (P (xs ! i)) + of_bool (P x)"
  by (induction xs arbitrary: i) (auto split: nat.split)

lemma list_all_update: "list_all P xs \<Longrightarrow> P x \<Longrightarrow> list_all P (xs[i := x])"
  by (induction xs arbitrary: i) (auto split: nat.split)

lemma count_pos: "x \<in> set xs \<Longrightarrow> P x \<Longrightarrow> 0 < count P xs"
  using count_nonneg [of P] by (induction xs) (auto intro: add_pos_nonneg add_nonneg_pos)

lemma count_0: "count P xs = 0 \<longleftrightarrow> (\<forall>x \<in> set xs. \<not> P x)"
  by (simp add: count_def filter_empty_conv)

text \<open>Threads between the two semaphores of \<^verbatim>\<open>put\<close> and \<^verbatim>\<open>get\<close>, before and after they touch the queue.\<close>

fun putting :: "'k \<Rightarrow> ('k, 't) pc \<Rightarrow> bool" where
  "putting k (PutWrite k' v) = (k' = k)"
| "putting k pc = False"

fun has_put :: "'k \<Rightarrow> ('k, 't) pc \<Rightarrow> bool" where
  "has_put k (PutSemR k') = (k' = k)"
| "has_put k (PutNotify p k') = (k' = k)"
| "has_put k pc = False"

fun getting :: "'k \<Rightarrow> ('k, 't) pc \<Rightarrow> bool" where
  "getting k (GetRead k') = (k' = k)"
| "getting k pc = False"

fun has_got :: "'k \<Rightarrow> ('k, 't) pc \<Rightarrow> bool" where
  "has_got k (GetSemW k' v) = (k' = k)"
| "has_got k (GetNotify p k' v) = (k' = k)"
| "has_got k pc = False"

section \<open>The invariant\<close>

text \<open>\<^verbatim>\<open>addKey\<close> makes the semaphores of a key in pairs, the reader's at an even address.\<close>

definition sems_ok :: "('k, 't) mapqueue \<Rightarrow> bool" where
  "sems_ok m \<longleftrightarrow> even (length (mq_store m)) \<and> list_all (\<lambda>c. c \<noteq> None) (mq_store m) \<and>
     (\<forall>k. mq_semW m k = map_option Suc (mq_semR m k)) \<and>
     (\<forall>k r. mq_semR m k = Some r \<longrightarrow> even r \<and> Suc r < length (mq_store m)) \<and>
     (\<forall>k k' r. mq_semR m k = Some r \<longrightarrow> mq_semR m k' = Some r \<longrightarrow> k = k')"

definition sem_count :: "('k, 't) mapqueue \<Rightarrow> addr option \<Rightarrow> int" where
  "sem_count m p = (case p of None \<Rightarrow> 0 | Some p \<Rightarrow> (case mq_store m ! p of None \<Rightarrow> 0 | Some c \<Rightarrow> c))"

abbreviation readers :: "('k, 't) mapqueue \<Rightarrow> 'k \<Rightarrow> int" where "readers m k \<equiv> sem_count m (mq_semR m k)"
abbreviation writers :: "('k, 't) mapqueue \<Rightarrow> 'k \<Rightarrow> int" where "writers m k \<equiv> sem_count m (mq_semW m k)"

text \<open>What a thread holds is current: its pointer is the semaphore of its key.\<close>

fun pc_ok :: "('k, 't) mapqueue \<Rightarrow> ('k, 't) pc \<Rightarrow> bool" where
  "pc_ok m (PutAdd k v) = True"
| "pc_ok m (PutSemW k v) = (mq_semR m k \<noteq> None)"
| "pc_ok m (PutWait p k v) = (mq_semW m k = Some p)"
| "pc_ok m (PutWrite k v) = (mq_semR m k \<noteq> None)"
| "pc_ok m (PutSemR k) = (mq_semR m k \<noteq> None)"
| "pc_ok m (PutNotify p k) = (mq_semR m k = Some p)"
| "pc_ok m (PutDone k) = True"
| "pc_ok m (GetAdd k) = True"
| "pc_ok m (GetSemR k) = (mq_semR m k \<noteq> None)"
| "pc_ok m (GetWait p k) = (mq_semR m k = Some p)"
| "pc_ok m (GetRead k) = (mq_semR m k \<noteq> None)"
| "pc_ok m (GetSemW k v) = (mq_semR m k \<noteq> None)"
| "pc_ok m (GetNotify p k v) = (mq_semW m k = Some p)"
| "pc_ok m (GetDone k r) = (r \<noteq> None)"
| "pc_ok m pc = False"

text \<open>
  The balance of a key: what is in the queue has been signalled to readers, or is about to be, or
  has been promised to one; and the free places, the places being filled, the queue and the places
  about to be freed make up the capacity.
\<close>

definition balanced :: "int \<Rightarrow> ('k :: linorder, 't) pc list \<Rightarrow> ('k, 't) mapqueue \<Rightarrow> 'k \<Rightarrow> bool" where
  "balanced N ps m k \<longleftrightarrow>
     0 \<le> readers m k \<and> 0 \<le> writers m k \<and>
     int (length (mq_queue m k)) = readers m k + count (has_put k) ps + count (getting k) ps \<and>
     (mq_semR m k \<noteq> None \<longrightarrow>
       writers m k + count (putting k) ps + int (length (mq_queue m k)) + count (has_got k) ps = N)"

definition mq_inv :: "int \<Rightarrow> ('k :: linorder, 't) pc list \<Rightarrow> ('k, 't) mapqueue \<Rightarrow> bool" where
  "mq_inv N ps m \<longleftrightarrow> mq_max_size m = N + 1 \<and> 0 \<le> N \<and> sems_ok m \<and> list_all (pc_ok m) ps \<and> (\<forall>k. balanced N ps m k)"

lemma sems_okD:
  assumes "sems_ok m"
  shows "mq_semW m k = map_option Suc (mq_semR m k)"
    and "mq_semR m k = Some r \<Longrightarrow> even r \<and> Suc r < length (mq_store m)"
    and "mq_semR m k = Some r \<Longrightarrow> mq_semR m k' = Some r \<Longrightarrow> k = k'"
    and "p < length (mq_store m) \<Longrightarrow> \<exists>c. mq_store m ! p = Some c"
  using assms by (auto simp: sems_ok_def list_all_length)

lemma sems_ok_update: "sems_ok m \<Longrightarrow> sems_ok (m\<lparr>mq_store := (mq_store m)[p := Some c]\<rparr>)"
  unfolding sems_ok_def by (auto intro!: list_all_update)

lemma pc_ok_store [simp]: "pc_ok (m\<lparr>mq_store := st\<rparr>) pc = pc_ok m pc"
  by (cases pc) simp_all

lemma pc_ok_collection [simp]: "pc_ok (m\<lparr>mq_collection := c\<rparr>) pc = pc_ok m pc"
  by (cases pc) simp_all

lemma queue_store [simp]: "mq_queue (m\<lparr>mq_store := st\<rparr>) = mq_queue m"
  by (simp add: mq_queue_def fun_eq_iff)

lemma sems_ok_collection [simp]: "sems_ok (m\<lparr>mq_collection := c\<rparr>) = sems_ok m"
  by (simp add: sems_ok_def)

lemma sem_count_collection [simp]: "sem_count (m\<lparr>mq_collection := c\<rparr>) p = sem_count m p"
  by (cases p) (simp_all add: sem_count_def)

lemma sem_count_None [simp]: "sem_count m None = 0"
  by (simp add: sem_count_def)

lemma sem_count_update: "p < length (mq_store m) \<Longrightarrow>
    sem_count (m\<lparr>mq_store := (mq_store m)[p := Some c]\<rparr>) q = (if q = Some p then c else sem_count m q)"
  by (cases q) (auto simp: sem_count_def)

lemma queue_put [simp]:
  "mq_queue (m\<lparr>mq_collection := map_put k q (mq_collection m)\<rparr>) = (mq_queue m)(k := q)"
  by (simp add: mq_queue_def fun_eq_iff)

text \<open>A semaphore method on a reader's or writer's semaphore changes that count and no other.\<close>

lemma sem_addr:
  assumes "sems_ok m"
  shows "mq_semR m k = Some p \<Longrightarrow> p < length (mq_store m) \<and> (\<forall>k'. (mq_semR m k' = Some p) = (k' = k) \<and> mq_semW m k' \<noteq> Some p)"
    and "mq_semW m k = Some p \<Longrightarrow> p < length (mq_store m) \<and> (\<forall>k'. (mq_semW m k' = Some p) = (k' = k) \<and> mq_semR m k' \<noteq> Some p)"
proof -
  note D = sems_okD [OF assms]
  have W: "odd q \<and> (\<exists>r. mq_semR m k' = Some r \<and> q = Suc r)" if "mq_semW m k' = Some q" for k' q
    using that D(1) [of k'] D(2) [of k'] by auto
  show "p < length (mq_store m) \<and> (\<forall>k'. (mq_semR m k' = Some p) = (k' = k) \<and> mq_semW m k' \<noteq> Some p)" if r: "mq_semR m k = Some p"
  proof (intro conjI allI)
    fix k'
    show "p < length (mq_store m)" using D(2) [OF r] by simp
    show "(mq_semR m k' = Some p) = (k' = k)" using D(3) [OF r] r by blast
    show "mq_semW m k' \<noteq> Some p" using D(2) [OF r] W [of k' p] by blast
  qed
  show "p < length (mq_store m) \<and> (\<forall>k'. (mq_semW m k' = Some p) = (k' = k) \<and> mq_semR m k' \<noteq> Some p)" if w: "mq_semW m k = Some p"
  proof (intro conjI allI)
    fix k'
    obtain r where r: "mq_semR m k = Some r" "p = Suc r" using W [OF w] by blast
    show "p < length (mq_store m)" using D(2) [OF r(1)] r(2) by simp
    show "(mq_semW m k' = Some p) = (k' = k)" using D(3) [OF r(1)] r(2) w W [of k' p] by auto
    show "mq_semR m k' \<noteq> Some p" using W [OF w] D(2) [of k' p] by blast
  qed
qed

lemma count_after_R:
  assumes "sems_ok m" "mq_semR m k = Some p"
  shows "sem_count (m\<lparr>mq_store := (mq_store m)[p := Some c]\<rparr>) (mq_semR m k') = (if k' = k then c else readers m k')"
    and "sem_count (m\<lparr>mq_store := (mq_store m)[p := Some c]\<rparr>) (mq_semW m k') = writers m k'"
  using sem_addr(1) [OF assms] by (simp_all add: sem_count_update)

lemma count_after_W:
  assumes "sems_ok m" "mq_semW m k = Some p"
  shows "sem_count (m\<lparr>mq_store := (mq_store m)[p := Some c]\<rparr>) (mq_semW m k') = (if k' = k then c else writers m k')"
    and "sem_count (m\<lparr>mq_store := (mq_store m)[p := Some c]\<rparr>) (mq_semR m k') = readers m k'"
  using sem_addr(2) [OF assms] by (simp_all add: sem_count_update)

lemma on_sem_value:
  assumes "sems_ok m" "mq_semR m k = Some p \<or> mq_semW m k = Some p"
  shows "on_sem f p m = (case f (sem_count m (Some p)) of
    None \<Rightarrow> None | Some c \<Rightarrow> Some (Inr (m\<lparr>mq_store := (mq_store m)[p := Some c]\<rparr>)))"
proof -
  have "p < length (mq_store m)" using sem_addr [OF assms(1)] assms(2) by blast
  moreover from this obtain c where "mq_store m ! p = Some c" using sems_okD(4) [OF assms(1)] by blast
  ultimately show ?thesis by (simp add: on_sem_def sem_count_def)
qed

lemma sem_call_value:
  assumes "sems_ok m" "mq_semR m k = Some p \<or> mq_semW m k = Some p"
  shows "sem_call f p pc m = (case f (sem_count m (Some p)) of
    None \<Rightarrow> None | Some c \<Rightarrow> Some (Inr (Tau, pc, m\<lparr>mq_store := (mq_store m)[p := Some c]\<rparr>)))"
  unfolding sem_call_def on_sem_value [OF assms] by (simp split: option.split)

lemma addKey_known [simp]: "mq_semR m k \<noteq> None \<Longrightarrow> addKey k m = m"
  by (auto simp: addKey_def)

lemma addKey_new:
  assumes "mq_inv N ps m" "mq_semR m k = None"
  shows "sems_ok (addKey k m)" "mq_queue (addKey k m) = mq_queue m" "mq_max_size (addKey k m) = mq_max_size m"
    and "mq_semR (addKey k m) k' = (if k' = k then Some (length (mq_store m)) else mq_semR m k')"
    and "readers (addKey k m) k' = readers m k'" "writers (addKey k m) k' = (if k' = k then N else writers m k')"
    and "pc_ok m pc \<Longrightarrow> pc_ok (addKey k m) pc"
proof -
  have ok: "sems_ok m" and N: "mq_max_size m = N + 1" using assms by (simp_all add: mq_inv_def)
  note D = sems_okD [OF ok]
  have n: "mq_semW m k = None" using D(1) assms(2) by simp
  define l where "l = length (mq_store m)"
  have R: "mq_semR (addKey k m) = (mq_semR m)(k \<mapsto> l)" and W: "mq_semW (addKey k m) = (mq_semW m)(k \<mapsto> Suc l)"
    and S: "mq_store (addKey k m) = mq_store m @ [Some 0, Some N]"
    and Q: "mq_collection (addKey k m) = mq_collection m" "mq_max_size (addKey k m) = mq_max_size m"
    using assms(2) N by (simp_all add: addKey_def l_def)
  show "mq_queue (addKey k m) = mq_queue m" "mq_max_size (addKey k m) = mq_max_size m"
    "mq_semR (addKey k m) k' = (if k' = k then Some (length (mq_store m)) else mq_semR m k')"
    using Q R by (simp_all add: mq_queue_def fun_eq_iff l_def)
  have r: "even j \<and> Suc j < l" if "mq_semR m k' = Some j" for k' j using D(2) [OF that] by (simp add: l_def)
  have e: "even l" "list_all (\<lambda>c. c \<noteq> None) (mq_store m)" using ok by (simp_all add: sems_ok_def l_def)
  show "sems_ok (addKey k m)"
    unfolding sems_ok_def R W S
  proof (intro conjI allI impI)
    fix k1 k2 j
    show "even (length (mq_store m @ [Some 0, Some N]))" using e by (simp add: l_def)
    show "list_all (\<lambda>c. c \<noteq> None) (mq_store m @ [Some 0, Some N])" using e by simp
    show "((mq_semW m)(k \<mapsto> Suc l)) k1 = map_option Suc (((mq_semR m)(k \<mapsto> l)) k1)" using D(1) by simp
    assume j: "((mq_semR m)(k \<mapsto> l)) k1 = Some j"
    show "even j" "Suc j < length (mq_store m @ [Some 0, Some N])"
      using j e r [of k1 j] by (auto simp: l_def split: if_splits)
    assume "((mq_semR m)(k \<mapsto> l)) k2 = Some j"
    then show "k1 = k2" using j r [of k1 j] r [of k2 j] D(3) [of k1 j k2] by (auto split: if_splits)
  qed
  have s: "sem_count (addKey k m) (Some j) = sem_count m (Some j)" if "j < l" for j
    using that by (simp add: sem_count_def S nth_append l_def)
  have new: "sem_count (addKey k m) (Some l) = 0" "sem_count (addKey k m) (Some (Suc l)) = N"
    by (simp_all add: sem_count_def S nth_append l_def)
  show "readers (addKey k m) k' = readers m k'"
    using s r [of k'] new assms(2) unfolding R by (cases "mq_semR m k'") (auto dest: Suc_lessD)
  show "writers (addKey k m) k' = (if k' = k then N else writers m k')"
    using s r [of k'] new n D(1) [of k'] unfolding W by (cases "mq_semR m k'") (auto dest: Suc_lessD)
  show "pc_ok m pc \<Longrightarrow> pc_ok (addKey k m) pc"
    using assms(2) n by (cases pc) (auto simp: addKey_def)
qed

lemma inside_has_key:
  assumes "list_all (pc_ok m) ps" "sems_ok m" "mq_semR m k = None"
  shows "count (has_put k) ps = 0" "count (getting k) ps = 0" "count (putting k) ps = 0" "count (has_got k) ps = 0"
proof -
  have "\<not> has_put k pc \<and> \<not> getting k pc \<and> \<not> putting k pc \<and> \<not> has_got k pc" if "pc \<in> set ps" for pc
  proof -
    have "pc_ok m pc" using that assms(1) by (simp add: list_all_iff)
    then show ?thesis using assms(3) sems_okD(1) [OF assms(2), of k] by (cases pc) auto
  qed
  then show "count (has_put k) ps = 0" "count (getting k) ps = 0" "count (putting k) ps = 0" "count (has_got k) ps = 0"
    by (simp_all add: count_0)
qed

lemma mq_invD:
  assumes "mq_inv N ps m"
  shows "mq_max_size m = N + 1" "0 \<le> N" "sems_ok m" "list_all (pc_ok m) ps" "balanced N ps m k"
    and "i < length ps \<Longrightarrow> pc_ok m (ps ! i)"
  using assms by (auto simp: mq_inv_def list_all_length)

text \<open>A step that changes at most the store or one queue keeps the invariant if it keeps the balance.\<close>

lemma mq_invI:
  assumes "mq_inv N ps m" "sems_ok m'" "mq_max_size m' = mq_max_size m" "\<And>x. pc_ok m x \<Longrightarrow> pc_ok m' x" "pc_ok m' pc"
    and "\<And>k. balanced N (ps[i := pc]) m' k"
  shows "mq_inv N (ps[i := pc]) m'"
  using assms by (auto simp: mq_inv_def list_all_iff intro: list_all_update [unfolded list_all_iff, rule_format]
      dest!: set_update_subset_insert [THEN subsetD])

lemma balancedI:
  assumes "0 \<le> readers m k" "0 \<le> writers m k"
    and "int (length (mq_queue m k)) = readers m k + count (has_put k) ps + count (getting k) ps"
    and "mq_semR m k \<noteq> None \<Longrightarrow>
      writers m k + count (putting k) ps + int (length (mq_queue m k)) + count (has_got k) ps = N"
  shows "balanced N ps m k"
  using assms by (simp add: balanced_def)

lemma balancedD:
  assumes "balanced N ps m k"
  shows "0 \<le> readers m k" "0 \<le> writers m k"
    and "int (length (mq_queue m k)) = readers m k + count (has_put k) ps + count (getting k) ps"
    and "mq_semR m k \<noteq> None \<Longrightarrow>
      writers m k + count (putting k) ps + int (length (mq_queue m k)) + count (has_got k) ps = N"
  using assms by (simp_all add: balanced_def)

text \<open>A step that changes the two sides of both equations by the same amount keeps the balance.\<close>

lemma balanced_change:
  assumes "balanced N ps m k" "i < length ps" "mq_semR m' k = mq_semR m k" "0 \<le> readers m' k" "0 \<le> writers m' k"
    and "int (length (mq_queue m' k)) - int (length (mq_queue m k)) = readers m' k - readers m k +
      (of_bool (has_put k pc) - of_bool (has_put k (ps ! i))) + (of_bool (getting k pc) - of_bool (getting k (ps ! i)))"
    and "(writers m' k - writers m k) + (of_bool (putting k pc) - of_bool (putting k (ps ! i))) +
      (int (length (mq_queue m' k)) - int (length (mq_queue m k))) + (of_bool (has_got k pc) - of_bool (has_got k (ps ! i))) = 0"
  shows "balanced N (ps[i := pc]) m' k"
proof (rule balancedI)
  note B = balancedD [OF assms(1)] and C = count_update [OF assms(2)]
  show "int (length (mq_queue m' k)) = readers m' k + count (has_put k) (ps[i := pc]) + count (getting k) (ps[i := pc])"
    using B(3) assms(6) unfolding C by linarith
  assume "mq_semR m' k \<noteq> None"
  with B(4) assms(3) have "writers m k + count (putting k) ps + int (length (mq_queue m k)) + count (has_got k) ps = N"
    by simp
  then show "writers m' k + count (putting k) (ps[i := pc]) + int (length (mq_queue m' k)) + count (has_got k) (ps[i := pc]) = N"
    using assms(7) unfolding C by linarith
qed (use assms(4,5) in simp_all)

lemma inv_addKey:
  assumes inv: "mq_inv N ps m" and i: "i < length ps" "ps ! i = PutAdd k v \<and> pc = PutSemW k v \<or> ps ! i = GetAdd k \<and> pc = GetSemR k"
  shows "mq_inv N (ps[i := pc]) (addKey k m)"
proof -
  note D = mq_invD [OF inv]
  have c: "count (has_put k') (ps[i := pc]) = count (has_put k') ps" "count (getting k') (ps[i := pc]) = count (getting k') ps"
    "count (putting k') (ps[i := pc]) = count (putting k') ps" "count (has_got k') (ps[i := pc]) = count (has_got k') ps" for k'
    using i by (auto simp: count_update)
  show ?thesis
  proof (cases "mq_semR m k")
    case None
    note n = addKey_new [OF inv None]
    note z = inside_has_key [OF D(4,3) None]
    have "balanced N (ps[i := pc]) (addKey k m) k'" for k'
    proof (rule balancedI)
      note B = balancedD [OF D(5), of k']
      show "0 \<le> readers (addKey k m) k'" "0 \<le> writers (addKey k m) k'" using B(1,2) D(2) unfolding n(5,6) by simp_all
      show "int (length (mq_queue (addKey k m) k')) =
          readers (addKey k m) k' + count (has_put k') (ps[i := pc]) + count (getting k') (ps[i := pc])"
        using B(3) unfolding n(2,5) c .
      assume "mq_semR (addKey k m) k' \<noteq> None"
      then show "writers (addKey k m) k' + count (putting k') (ps[i := pc]) + int (length (mq_queue (addKey k m) k')) +
          count (has_got k') (ps[i := pc]) = N"
        using B(3,4) z None unfolding n(2,6) c by (cases "k' = k") (simp_all add: n(4))
    qed
    then show ?thesis using n i by (intro mq_invI [OF inv]) auto
  next
    case (Some r)
    then have "balanced N (ps[i := pc]) m k'" for k' using D(5) [of k'] unfolding balanced_def c by blast
    then show ?thesis using Some i D(3) by (intro mq_invI [OF inv]) auto
  qed
qed

lemma inv_lookup:
  assumes inv: "mq_inv N ps m" and i: "i < length ps" and ok: "pc_ok m pc"
    and c: "\<And>k. has_put k pc = has_put k (ps ! i)" "\<And>k. getting k pc = getting k (ps ! i)"
      "\<And>k. putting k pc = putting k (ps ! i)" "\<And>k. has_got k pc = has_got k (ps ! i)"
  shows "mq_inv N (ps[i := pc]) m"
proof (rule mq_invI [OF inv _ _ _ ok])
  fix k
  have "count (has_put k) (ps[i := pc]) = count (has_put k) ps" "count (getting k) (ps[i := pc]) = count (getting k) ps"
    "count (putting k) (ps[i := pc]) = count (putting k) ps" "count (has_got k) (ps[i := pc]) = count (has_got k) ps"
    by (simp_all add: count_update i c)
  then show "balanced N (ps[i := pc]) m k" using mq_invD(5) [OF inv, of k] unfolding balanced_def by metis
qed (simp_all add: mq_invD(3) [OF inv])

text \<open>A semaphore method on the reader's or the writer's side.\<close>

lemma inv_sem_R:
  assumes inv: "mq_inv N ps m" and i: "i < length ps" and p: "mq_semR m k = Some p" and c: "0 \<le> c" and ok: "pc_ok m pc"
    and bal: "\<And>k'. of_bool (has_put k' pc) + of_bool (getting k' pc) + (if k' = k then c - readers m k else 0) =
      of_bool (has_put k' (ps ! i)) + (of_bool (getting k' (ps ! i)) :: int)"
      "\<And>k'. putting k' pc = putting k' (ps ! i)" "\<And>k'. has_got k' pc = has_got k' (ps ! i)"
  shows "mq_inv N (ps[i := pc]) (m\<lparr>mq_store := (mq_store m)[p := Some c]\<rparr>)"
proof (rule mq_invI [OF inv])
  note D = mq_invD [OF inv]
  fix k'
  show "balanced N (ps[i := pc]) (m\<lparr>mq_store := (mq_store m)[p := Some c]\<rparr>) k'"
  proof (rule balanced_change [OF D(5) i])
    note B = balancedD [OF D(5), of k'] and b = bal(1) [of k']
    define d where "d = (if k' = k then c - readers m k else 0)"
    have e: "readers (m\<lparr>mq_store := (mq_store m)[p := Some c]\<rparr>) k' = readers m k' + d"
      "writers (m\<lparr>mq_store := (mq_store m)[p := Some c]\<rparr>) k' = writers m k'"
      using count_after_R [OF D(3) p] by (simp_all add: d_def)
    show "0 \<le> readers (m\<lparr>mq_store := (mq_store m)[p := Some c]\<rparr>) k'"
      "0 \<le> writers (m\<lparr>mq_store := (mq_store m)[p := Some c]\<rparr>) k'"
      using B(1,2) c unfolding e by (simp_all add: d_def)
    have "of_bool (has_put k' pc) + of_bool (getting k' pc) + d = of_bool (has_put k' (ps ! i)) + (of_bool (getting k' (ps ! i)) :: int)"
      using b unfolding d_def .
    then show "int (length (mq_queue (m\<lparr>mq_store := (mq_store m)[p := Some c]\<rparr>) k')) - int (length (mq_queue m k')) =
        readers (m\<lparr>mq_store := (mq_store m)[p := Some c]\<rparr>) k' - readers m k' +
        (of_bool (has_put k' pc) - of_bool (has_put k' (ps ! i))) + (of_bool (getting k' pc) - of_bool (getting k' (ps ! i)))"
      "(writers (m\<lparr>mq_store := (mq_store m)[p := Some c]\<rparr>) k' - writers m k') +
        (of_bool (putting k' pc) - of_bool (putting k' (ps ! i))) +
        (int (length (mq_queue (m\<lparr>mq_store := (mq_store m)[p := Some c]\<rparr>) k')) - int (length (mq_queue m k'))) +
        (of_bool (has_got k' pc) - of_bool (has_got k' (ps ! i))) = 0"
      unfolding e queue_store bal(2,3) by linarith+
  qed simp
qed (use inv ok in \<open>simp_all add: mq_invD(3) sems_ok_update\<close>)

lemma inv_sem_W:
  assumes inv: "mq_inv N ps m" and i: "i < length ps" and p: "mq_semW m k = Some p" and c: "0 \<le> c" and ok: "pc_ok m pc"
    and bal: "\<And>k'. of_bool (putting k' pc) + of_bool (has_got k' pc) + (if k' = k then c - writers m k else 0) =
      of_bool (putting k' (ps ! i)) + (of_bool (has_got k' (ps ! i)) :: int)"
      "\<And>k'. has_put k' pc = has_put k' (ps ! i)" "\<And>k'. getting k' pc = getting k' (ps ! i)"
  shows "mq_inv N (ps[i := pc]) (m\<lparr>mq_store := (mq_store m)[p := Some c]\<rparr>)"
proof (rule mq_invI [OF inv])
  note D = mq_invD [OF inv]
  fix k'
  show "balanced N (ps[i := pc]) (m\<lparr>mq_store := (mq_store m)[p := Some c]\<rparr>) k'"
  proof (rule balanced_change [OF D(5) i])
    note B = balancedD [OF D(5), of k'] and b = bal(1) [of k']
    define d where "d = (if k' = k then c - writers m k else 0)"
    have e: "writers (m\<lparr>mq_store := (mq_store m)[p := Some c]\<rparr>) k' = writers m k' + d"
      "readers (m\<lparr>mq_store := (mq_store m)[p := Some c]\<rparr>) k' = readers m k'"
      using count_after_W [OF D(3) p] by (simp_all add: d_def)
    show "0 \<le> readers (m\<lparr>mq_store := (mq_store m)[p := Some c]\<rparr>) k'"
      "0 \<le> writers (m\<lparr>mq_store := (mq_store m)[p := Some c]\<rparr>) k'"
      using B(1,2) c unfolding e by (simp_all add: d_def)
    have "of_bool (putting k' pc) + of_bool (has_got k' pc) + d = of_bool (putting k' (ps ! i)) + (of_bool (has_got k' (ps ! i)) :: int)"
      using b unfolding d_def .
    then show "int (length (mq_queue (m\<lparr>mq_store := (mq_store m)[p := Some c]\<rparr>) k')) - int (length (mq_queue m k')) =
        readers (m\<lparr>mq_store := (mq_store m)[p := Some c]\<rparr>) k' - readers m k' +
        (of_bool (has_put k' pc) - of_bool (has_put k' (ps ! i))) + (of_bool (getting k' pc) - of_bool (getting k' (ps ! i)))"
      "(writers (m\<lparr>mq_store := (mq_store m)[p := Some c]\<rparr>) k' - writers m k') +
        (of_bool (putting k' pc) - of_bool (putting k' (ps ! i))) +
        (int (length (mq_queue (m\<lparr>mq_store := (mq_store m)[p := Some c]\<rparr>) k')) - int (length (mq_queue m k'))) +
        (of_bool (has_got k' pc) - of_bool (has_got k' (ps ! i))) = 0"
      unfolding e queue_store bal(2,3) by linarith+
  qed simp
qed (use inv ok in \<open>simp_all add: mq_invD(3) sems_ok_update\<close>)

text \<open>A change of one queue.\<close>

lemma inv_queue:
  assumes inv: "mq_inv N ps m" and i: "i < length ps" and ok: "pc_ok m pc"
    and bal: "\<And>k'. of_bool (has_put k' pc) + of_bool (getting k' pc) - (if k' = k then int (length q) - int (length (mq_queue m k)) else 0) =
        of_bool (has_put k' (ps ! i)) + (of_bool (getting k' (ps ! i)) :: int)"
      "\<And>k'. of_bool (putting k' pc) + of_bool (has_got k' pc) + (if k' = k then int (length q) - int (length (mq_queue m k)) else 0) =
        of_bool (putting k' (ps ! i)) + (of_bool (has_got k' (ps ! i)) :: int)"
  shows "mq_inv N (ps[i := pc]) (m\<lparr>mq_collection := map_put k q (mq_collection m)\<rparr>)"
proof (rule mq_invI [OF inv])
  note D = mq_invD [OF inv]
  fix k'
  show "balanced N (ps[i := pc]) (m\<lparr>mq_collection := map_put k q (mq_collection m)\<rparr>) k'"
  proof (rule balanced_change [OF D(5) i])
    define d where "d = (if k' = k then int (length q) - int (length (mq_queue m k)) else 0)"
    have f: "readers (m\<lparr>mq_collection := map_put k q (mq_collection m)\<rparr>) k' = readers m k'"
      "writers (m\<lparr>mq_collection := map_put k q (mq_collection m)\<rparr>) k' = writers m k'" by simp_all
    have e: "int (length (mq_queue (m\<lparr>mq_collection := map_put k q (mq_collection m)\<rparr>) k')) = int (length (mq_queue m k')) + d"
      by (simp add: d_def)
    have "of_bool (has_put k' pc) + of_bool (getting k' pc) - d = of_bool (has_put k' (ps ! i)) + (of_bool (getting k' (ps ! i)) :: int)"
      "of_bool (putting k' pc) + of_bool (has_got k' pc) + d = of_bool (putting k' (ps ! i)) + (of_bool (has_got k' (ps ! i)) :: int)"
      using bal [of k'] unfolding d_def by simp_all
    then show "int (length (mq_queue (m\<lparr>mq_collection := map_put k q (mq_collection m)\<rparr>) k')) - int (length (mq_queue m k')) =
        readers (m\<lparr>mq_collection := map_put k q (mq_collection m)\<rparr>) k' - readers m k' +
        (of_bool (has_put k' pc) - of_bool (has_put k' (ps ! i))) + (of_bool (getting k' pc) - of_bool (getting k' (ps ! i)))"
      "(writers (m\<lparr>mq_collection := map_put k q (mq_collection m)\<rparr>) k' - writers m k') +
        (of_bool (putting k' pc) - of_bool (putting k' (ps ! i))) +
        (int (length (mq_queue (m\<lparr>mq_collection := map_put k q (mq_collection m)\<rparr>) k')) - int (length (mq_queue m k'))) +
        (of_bool (has_got k' pc) - of_bool (has_got k' (ps ! i))) = 0"
      unfolding e f by linarith+
  qed (use balancedD [OF D(5), of k'] in simp_all)
qed (use inv ok in \<open>simp_all add: mq_invD(3)\<close>)

text \<open>Every step of \<^verbatim>\<open>put\<close> and \<^verbatim>\<open>get\<close> is defined and keeps the invariant.\<close>

lemma mq_step_inv:
  assumes inv: "mq_inv N ps m" and i: "i < length ps" and st: "mq_step (ps ! i) m = Some r"
  shows "\<exists>ev pc m'. r = Inr (ev, pc, m') \<and> mq_inv N (ps[i := pc]) m'"
proof -
  note D = mq_invD [OF inv]
  have ok: "pc_ok m (ps ! i)" using D(6) i .
  have W: "\<exists>p. mq_semW m k = Some p" if "mq_semR m k \<noteq> None" for k using sems_okD(1) [OF D(3), of k] that by auto
  show ?thesis
  proof (cases "ps ! i")
    case (PutAdd k v)
    then show ?thesis using st inv_addKey [OF inv i] by auto
  next
    case (PutSemW k v)
    then obtain p where "mq_semW m k = Some p" using ok W by auto
    then show ?thesis using st PutSemW inv_lookup [OF inv i, of "PutWait p k v"] by (auto simp: deref_def)
  next
    case (PutWait p k v)
    then have p: "mq_semW m k = Some p" using ok by simp
    then have "writers m k \<noteq> 0" using st PutWait sem_call_value [OF D(3), of k p] by (auto simp: sem_wait_def)
    then have "0 \<le> writers m k - 1" using balancedD(2) [OF D(5), of k] by simp
    then have "mq_inv N (ps[i := PutWrite k v]) (m\<lparr>mq_store := (mq_store m)[p := Some (writers m k - 1)]\<rparr>)"
      using PutWait p sems_okD(1) [OF D(3), of k] by (intro inv_sem_W [OF inv i p]) auto
    then show ?thesis
      using st PutWait p sem_call_value [OF D(3), of k p sem_wait "PutWrite k v"] \<open>writers m k \<noteq> 0\<close>
      by (auto simp: sem_wait_def)
  next
    case (PutWrite k v)
    then show ?thesis using st ok
      by (auto simp: mq_write_def intro!: inv_queue [OF inv i])
  next
    case (PutSemR k)
    then obtain p where "mq_semR m k = Some p" using ok by auto
    then show ?thesis using st PutSemR inv_lookup [OF inv i, of "PutNotify p k"] by (auto simp: deref_def)
  next
    case (PutNotify p k)
    then have p: "mq_semR m k = Some p" using ok by simp
    have "0 \<le> readers m k + 1" using balancedD(1) [OF D(5), of k] by simp
    then have "mq_inv N (ps[i := PutDone k]) (m\<lparr>mq_store := (mq_store m)[p := Some (readers m k + 1)]\<rparr>)"
      using PutNotify p by (intro inv_sem_R [OF inv i p]) auto
    then show ?thesis
      using st PutNotify p sem_call_value [OF D(3), of k p sem_notify "PutDone k"] by (auto simp: sem_notify_def)
  next
    case (GetAdd k)
    then show ?thesis using st inv_addKey [OF inv i] by auto
  next
    case (GetSemR k)
    then obtain p where "mq_semR m k = Some p" using ok by auto
    then show ?thesis using st GetSemR inv_lookup [OF inv i, of "GetWait p k"] by (auto simp: deref_def)
  next
    case (GetWait p k)
    then have p: "mq_semR m k = Some p" using ok by simp
    then have "readers m k \<noteq> 0" using st GetWait sem_call_value [OF D(3), of k p] by (auto simp: sem_wait_def)
    then have "0 \<le> readers m k - 1" using balancedD(1) [OF D(5), of k] by simp
    then have "mq_inv N (ps[i := GetRead k]) (m\<lparr>mq_store := (mq_store m)[p := Some (readers m k - 1)]\<rparr>)"
      using GetWait p by (intro inv_sem_R [OF inv i p]) auto
    then show ?thesis
      using st GetWait p sem_call_value [OF D(3), of k p sem_wait "GetRead k"] \<open>readers m k \<noteq> 0\<close>
      by (auto simp: sem_wait_def)
  next
    case (GetRead k)
    then have "0 < count (getting k) ps" using count_pos [OF nth_mem [OF i], of "getting k"] by simp
    then have "0 < int (length (mq_queue m k))"
      using balancedD(1,3) [OF D(5), of k] count_nonneg [of "has_put k" ps] by linarith
    then obtain v q where q: "mq_queue m k = v # q" by (cases "mq_queue m k") auto
    have "mq_inv N (ps[i := GetSemW k v]) (m\<lparr>mq_collection := map_put k q (mq_collection m)\<rparr>)"
      using GetRead ok q by (intro inv_queue [OF inv i]) auto
    then show ?thesis using st GetRead q by (auto simp: mq_read_def)
  next
    case (GetSemW k v)
    then obtain p where "mq_semW m k = Some p" using ok W by auto
    then show ?thesis using st GetSemW inv_lookup [OF inv i, of "GetNotify p k v"] by (auto simp: deref_def)
  next
    case (GetNotify p k v)
    then have p: "mq_semW m k = Some p" using ok by simp
    have "0 \<le> writers m k + 1" using balancedD(2) [OF D(5), of k] by simp
    then have "mq_inv N (ps[i := GetDone k (Some v)]) (m\<lparr>mq_store := (mq_store m)[p := Some (writers m k + 1)]\<rparr>)"
      using GetNotify p by (intro inv_sem_W [OF inv i p]) auto
    then show ?thesis
      using st GetNotify p sem_call_value [OF D(3), of k p sem_notify "GetDone k (Some v)"] by (auto simp: sem_notify_def)
  qed (use st ok in auto)
qed

section \<open>Runs\<close>

text \<open>The threads of a run start with \<^verbatim>\<open>put\<close> or \<^verbatim>\<open>get\<close>.\<close>

fun is_start :: "('k, 't) pc \<Rightarrow> bool" where
  "is_start (PutAdd k v) = True"
| "is_start (GetAdd k) = True"
| "is_start pc = False"

lemma mq_inv_start:
  assumes "list_all is_start ps" "1 \<le> max_size"
  shows "mq_inv (max_size - 1) ps (ConcurrentMapQueue max_size)"
proof -
  have "\<not> has_put k pc \<and> \<not> getting k pc \<and> pc_ok m pc" if "is_start pc" for k pc and m :: "('a, 'b) mapqueue"
    using that by (cases pc) auto
  then have "count (has_put k) ps = 0" "count (getting k) ps = 0" "list_all (pc_ok (ConcurrentMapQueue max_size)) ps" for k
    using assms(1) by (auto simp: count_0 list_all_iff)
  then show ?thesis
    using assms(2) by (auto simp: mq_inv_def balanced_def sems_ok_def ConcurrentMapQueue_def mq_queue_def)
qed

lemma mq_run_inv:
  assumes "mq_run max_size ps0 tr ps m" "list_all is_start ps0" "1 \<le> max_size"
  shows "mq_inv (max_size - 1) ps m"
  using assms
proof (induction rule: mq_run.induct)
  case start
  then show ?case by (rule mq_inv_start)
next
  case (step tr ps m i ev pc m')
  then show ?case using mq_step_inv [of "max_size - 1" ps m i "Inr (ev, pc, m')"] by auto
qed

text \<open>What was written to and read from the queue of a key.\<close>

fun wrote :: "'k \<Rightarrow> ('k, 't) event \<Rightarrow> 't list" where
  "wrote k (Wrote k' v) = (if k' = k then [v] else [])"
| "wrote k ev = []"

fun read_from :: "'k \<Rightarrow> ('k, 't) event \<Rightarrow> 't list" where
  "read_from k (Read k' v) = (if k' = k then [v] else [])"
| "read_from k ev = []"

definition writes :: "'k \<Rightarrow> ('k, 't) trace \<Rightarrow> 't list" where
  "writes k tr = concat (map (\<lambda>(i, ev). wrote k ev) tr)"

definition reads :: "'k \<Rightarrow> ('k, 't) trace \<Rightarrow> 't list" where
  "reads k tr = concat (map (\<lambda>(i, ev). read_from k ev) tr)"

lemma sem_call_queue: "sem_call f p pc m = Some (Inr (ev, pc', m')) \<Longrightarrow> ev = Tau \<and> pc' = pc \<and> mq_queue m' = mq_queue m"
  by (auto simp: sem_call_def on_sem_def split: option.splits if_splits sum.splits)

lemma delete_sem_queue: "delete_sem p pc m = Inr (ev, pc', m') \<Longrightarrow> ev = Tau \<and> pc' = pc \<and> mq_queue m' = mq_queue m"
  by (auto simp: delete_sem_def split: option.splits if_splits)

lemma queue_maps [simp]:
  "mq_queue (m\<lparr>mq_semR := r\<rparr>) = mq_queue m" "mq_queue (m\<lparr>mq_semW := w\<rparr>) = mq_queue m" "mq_queue (addKey k m) = mq_queue m"
  by (auto simp: mq_queue_def fun_eq_iff addKey_def split: option.split)

lemma mq_step_fifo:
  assumes "mq_step pc m = Some (Inr (ev, pc', m'))"
  shows "mq_queue m k @ wrote k ev = read_from k ev @ mq_queue m' k"
  using assms
  by (cases pc)
    (auto simp: deref_def mq_write_def mq_read_def split: option.splits prod.splits list.splits if_splits
      dest!: sem_call_queue delete_sem_queue)

text \<open>The number of steps a thread can still take.\<close>

fun rank :: "('k, 't) pc \<Rightarrow> nat" where
  "rank (PutAdd k v) = 6" | "rank (PutSemW k v) = 5" | "rank (PutWait p k v) = 4" | "rank (PutWrite k v) = 3"
| "rank (PutSemR k) = 2" | "rank (PutNotify p k) = 1" | "rank (PutDone k) = 0"
| "rank (GetAdd k) = 6" | "rank (GetSemR k) = 5" | "rank (GetWait p k) = 4" | "rank (GetRead k) = 3"
| "rank (GetSemW k v) = 2" | "rank (GetNotify p k v) = 1" | "rank (GetDone k r) = 0"
| "rank (EraseStart k) = 6" | "rank (EraseUnblock r w k) = 5" | "rank (EraseR p w k) = 4" | "rank (EraseW p w k) = 3"
| "rank (DeleteR p w) = 2" | "rank (DeleteW w) = 1" | "rank EraseDone = 0"

lemma rank_bound: "rank pc \<le> 6"
  by (cases pc) simp_all

lemma mq_step_rank: "mq_step pc m = Some (Inr (ev, pc', m')) \<Longrightarrow> rank pc' < rank pc"
  by (cases pc)
    (auto simp: deref_def split: option.splits prod.splits if_splits dest!: sem_call_queue delete_sem_queue)

lemma mq_run_length: "mq_run max_size ps0 tr ps m \<Longrightarrow> length tr + sum_list (map rank ps) \<le> sum_list (map rank ps0)"
proof (induction rule: mq_run.induct)
  case (step tr ps m i ev pc m')
  have "rank (ps ! i) \<le> sum_list (map rank ps)" using step.hyps(2) by (simp add: member_le_sum_list)
  moreover have "sum_list (map rank (ps[i := pc])) = sum_list (map rank ps) + rank pc - rank (ps ! i)"
    using step.hyps(2) by (simp add: map_update sum_list_update)
  ultimately show ?case using mq_step_rank [OF step.hyps(3)] step.IH by simp
qed simp

lemma rank_sum: "sum_list (map rank ps) \<le> 6 * length ps"
  by (induction ps) (use rank_bound in \<open>auto intro: add_le_mono\<close>)

text \<open>A thread that has not returned from \<^verbatim>\<open>put\<close> or \<^verbatim>\<open>get\<close>.\<close>

fun pending_put :: "'k \<Rightarrow> ('k, 't) pc \<Rightarrow> bool" where
  "pending_put k (PutAdd k' v) = (k' = k)" | "pending_put k (PutSemW k' v) = (k' = k)"
| "pending_put k (PutWait p k' v) = (k' = k)" | "pending_put k (PutWrite k' v) = (k' = k)"
| "pending_put k (PutSemR k') = (k' = k)" | "pending_put k (PutNotify p k') = (k' = k)"
| "pending_put k pc = False"

fun pending_get :: "'k \<Rightarrow> ('k, 't) pc \<Rightarrow> bool" where
  "pending_get k (GetAdd k') = (k' = k)" | "pending_get k (GetSemR k') = (k' = k)"
| "pending_get k (GetWait p k') = (k' = k)" | "pending_get k (GetRead k') = (k' = k)"
| "pending_get k (GetSemW k' v) = (k' = k)" | "pending_get k (GetNotify p k' v) = (k' = k)"
| "pending_get k pc = False"

definition stuck :: "('k :: linorder, 't) pc list \<Rightarrow> ('k, 't) mapqueue \<Rightarrow> bool" where
  "stuck ps m \<longleftrightarrow> list_all (\<lambda>pc. mq_step pc m = None) ps"

text \<open>A blocked thread waits for its semaphore, whose count is zero.\<close>

lemma blocked:
  assumes "sems_ok m" "pc_ok m pc" "mq_step pc m = None"
  shows "\<not> has_put k pc \<and> \<not> getting k pc \<and> \<not> putting k pc \<and> \<not> has_got k pc"
    and "pending_put k pc \<Longrightarrow> mq_semR m k \<noteq> None \<and> writers m k = 0" "pending_get k pc \<Longrightarrow> readers m k = 0"
proof -
  have w: "sem_call f p pc' m = None \<Longrightarrow> mq_semR m k' = Some p \<or> mq_semW m k' = Some p \<Longrightarrow> f (sem_count m (Some p)) = None"
    for f p pc' k' using sem_call_value [OF assms(1)] by (auto split: option.splits)
  show "\<not> has_put k pc \<and> \<not> getting k pc \<and> \<not> putting k pc \<and> \<not> has_got k pc"
    using assms(2,3) w by (cases pc) (force simp: sem_notify_def mq_read_def split: prod.splits option.splits list.splits)+
  show "pending_put k pc \<Longrightarrow> mq_semR m k \<noteq> None \<and> writers m k = 0"
    using assms(2,3) w sems_okD(1) [OF assms(1), of k]
    by (cases pc) (force simp: sem_notify_def sem_wait_def split: if_splits)+
  show "pending_get k pc \<Longrightarrow> readers m k = 0"
    using assms(2,3) w
    by (cases pc) (force simp: sem_notify_def sem_wait_def mq_read_def split: if_splits prod.splits option.splits list.splits)+
qed

text \<open>The runs of a schedule, and a run of one producer and one consumer.\<close>

lemma schedule_run:
  "mq_run max_size ps0 tr ps m \<Longrightarrow> schedule is tr ps m = Some (Inr (tr', ps', m')) \<Longrightarrow> mq_run max_size ps0 tr' ps' m'"
proof (induction "is" arbitrary: tr ps m)
  case (Cons i is')
  then show ?case by (auto split: if_splits option.splits sum.splits prod.splits intro: mq_run.step)
qed simp

definition after_put_get :: "(int, int) mapqueue" where
  "after_put_get = \<lparr>mq_collection = [(1, [])], mq_semR = [1 \<mapsto> 0], mq_semW = [1 \<mapsto> 1], mq_max_size = 2,
     mq_store = [Some 0, Some 1]\<rparr>"

definition put_get_trace :: "(int, int) trace" where
  "put_get_trace = [(0, Tau), (1, Tau), (0, Tau), (0, Tau), (1, Tau), (0, Wrote 1 7), (0, Tau), (0, Tau),
     (1, Tau), (1, Read 1 7), (1, Tau), (1, Tau)]"

lemma put_get_run: "mq_run 2 [PutAdd 1 7, GetAdd 1] put_get_trace [PutDone 1, GetDone 1 (Some 7)] after_put_get"
proof (rule schedule_run [OF mq_run.start])
  show "schedule [0, 1, 0, 0, 1, 0, 0, 0, 1, 1, 1, 1] [] [PutAdd 1 7, GetAdd 1] (ConcurrentMapQueue 2) =
      Some (Inr (put_get_trace, [PutDone 1, GetDone 1 (Some 7)], after_put_get))"
    by (simp add: ConcurrentMapQueue_def addKey_def deref_def sem_call_def on_sem_def sem_wait_def sem_notify_def
        mq_write_def mq_read_def mq_queue_def after_put_get_def put_get_trace_def)
qed

section \<open>Properties\<close>








end
