(* ===== verification/Extrinsic.thy ===== *)
theory Extrinsic
  imports Scale Converters Address
begin

text \<open>
  Signed extrinsics, the transactions of the chain: the structures of \<^verbatim>\<open>src/structs/extrinsic.h\<close>,
  \<^verbatim>\<open>signaturepayload.h\<close> and \<^verbatim>\<open>transfer.h\<close> with their serialisers, the way
  \<^verbatim>\<open>src/application.cpp\<close> fills, signs and prints them, and the reader of pending extrinsics.

  A buffer is written from the front, so it is the list of the bytes written so far, and
  \<^verbatim>\<open>writtenLength\<close> is its length; a write that passes the capacity is undefined. The
  signature function \<^verbatim>\<open>sr25519_sign\<close> belongs to another library and is the argument \<open>sign\<close>, from
  a public key, a secret key and a message to the signature.
\<close>

abbreviation SIGNATURE_VERSION :: byte where "SIGNATURE_VERSION \<equiv> 0x81"
abbreviation ADDRESS_SEPARATOR :: byte where "ADDRESS_SEPARATOR \<equiv> 0xFF"
abbreviation SR25519_PUBLIC_SIZE :: nat where "SR25519_PUBLIC_SIZE \<equiv> 32"
abbreviation SR25519_SECRET_SIZE :: nat where "SR25519_SECRET_SIZE \<equiv> 64"
abbreviation SR25519_SIGNATURE_SIZE :: nat where "SR25519_SIGNATURE_SIZE \<equiv> 64"
abbreviation BLOCK_HASH_SIZE :: nat where "BLOCK_HASH_SIZE \<equiv> 32"
abbreviation MAX_METHOD_BYTES_SZ :: nat where "MAX_METHOD_BYTES_SZ \<equiv> 2048"
abbreviation DEFAULT_FIXED_EXSTRINSIC_SIZE :: "32 word" where "DEFAULT_FIXED_EXSTRINSIC_SIZE \<equiv> 103"

section \<open>Data\<close>

datatype ExtrinsicEra = IMMORTAL_ERA | MORTAL_ERA

definition era_byte :: "ExtrinsicEra \<Rightarrow> byte" where
  "era_byte era = (case era of IMMORTAL_ERA \<Rightarrow> 0 | MORTAL_ERA \<Rightarrow> 1)"

record Signature =
  sig_version :: byte
  sig_signerPublicKey :: "byte list"
  sig_sr25519Signature :: "byte list"
  sig_nonce :: uint128
  sig_era :: ExtrinsicEra

record SignaturePayload =
  sp_nonce :: uint128
  sp_methodBytesLength :: byte
  sp_methodBytes :: "byte list"
  sp_era :: ExtrinsicEra
  sp_authoringBlockHash :: "byte list"

record Method =
  moduleIndex :: byte
  methodIndex :: byte

record Extrinsic =
  ex_length :: uint128
  ex_signature :: Signature

record GenericMethod = Method +
  gm_methodBytes :: string

record GenericExtrinsic = Extrinsic +
  ge_method :: GenericMethod
  ge_signerAddress :: string

record TransferMethod = Method +
  receiverPublicKey :: "byte list"
  tm_amount :: uint128

record TransferExtrinsic = Extrinsic +
  te_method :: TransferMethod

section \<open>Buffers\<close>

definition put_bytes :: "nat \<Rightarrow> byte list \<Rightarrow> byte list \<Rightarrow> byte list result" where
  "put_bytes cap bs buf = (if length buf + length bs \<le> cap then Inr (buf @ bs) else Inl (Undefined OutOfBounds))"

text \<open>\<^verbatim>\<open>writtenLength += scale::writeCompactToBuf(ci, buf + writtenLength)\<close>.\<close>

definition put_compact :: "nat \<Rightarrow> CompactIntegerLEBytes \<Rightarrow> byte list \<Rightarrow> byte list result" where
  "put_compact cap ci buf =
     rbind (writeCompactToBuf ci (buf @ replicate (cap - length buf) 0) (length buf)) (\<lambda>(n, buf').
       Inr (take (length buf + nat n) buf'))"

section \<open>Serialisers\<close>

text \<open>\<^verbatim>\<open>SignaturePayload::serializeBinary\<close>.\<close>

definition payload_serializeBinary :: "nat \<Rightarrow> SignaturePayload \<Rightarrow> byte list result" where
  "payload_serializeBinary cap sp =
     rbind (encodeCompactInteger (sp_nonce sp)) (\<lambda>compactNonce.
     rbind (put_compact cap compactNonce []) (\<lambda>buf.
     if unat (sp_methodBytesLength sp) \<le> length (sp_methodBytes sp) then
       rbind (put_bytes cap (take (unat (sp_methodBytesLength sp)) (sp_methodBytes sp)) buf) (\<lambda>buf.
       rbind (put_bytes cap [era_byte (sp_era sp)] buf) (\<lambda>buf.
       put_bytes cap (sp_authoringBlockHash sp) buf))
     else Inl (Undefined Uninitialised)))"

text \<open>\<^verbatim>\<open>TransferExtrinsic::serializeMethodBinary\<close>, from the given buffer on.\<close>

definition serializeMethodBinary :: "nat \<Rightarrow> TransferExtrinsic \<Rightarrow> byte list \<Rightarrow> byte list result" where
  "serializeMethodBinary cap te buf =
     rbind (put_bytes cap [moduleIndex (te_method te)] buf) (\<lambda>buf.
     rbind (put_bytes cap [methodIndex (te_method te)] buf) (\<lambda>buf.
     rbind (put_bytes cap [ADDRESS_SEPARATOR] buf) (\<lambda>buf.
     rbind (put_bytes cap (receiverPublicKey (te_method te)) buf) (\<lambda>buf.
     rbind (encodeCompactInteger (tm_amount (te_method te))) (\<lambda>compactAmount.
     put_compact cap compactAmount buf)))))"

text \<open>
  The bytes from the length prefix to the era, which \<^verbatim>\<open>TransferExtrinsic::serializeBinary\<close> and the
  two functions that submit an extrinsic write with the same statements.
\<close>

definition put_signature :: "nat \<Rightarrow> CompactIntegerLEBytes \<Rightarrow> Signature \<Rightarrow> CompactIntegerLEBytes \<Rightarrow> byte list result" where
  "put_signature cap compactLength signature compactNonce =
     rbind (put_compact cap compactLength []) (\<lambda>buf.
     rbind (put_bytes cap [sig_version signature] buf) (\<lambda>buf.
     rbind (put_bytes cap [ADDRESS_SEPARATOR] buf) (\<lambda>buf.
     rbind (put_bytes cap (sig_signerPublicKey signature) buf) (\<lambda>buf.
     rbind (put_bytes cap (sig_sr25519Signature signature) buf) (\<lambda>buf.
     rbind (put_compact cap compactNonce buf) (\<lambda>buf.
     put_bytes cap [era_byte (sig_era signature)] buf))))))"

definition transfer_serializeBinary :: "nat \<Rightarrow> TransferExtrinsic \<Rightarrow> (byte list \<times> TransferExtrinsic) result" where
  "transfer_serializeBinary cap te =
     rbind (encodeCompactInteger (tm_amount (te_method te))) (\<lambda>compactAmount.
     rbind (encodeCompactInteger (sig_nonce (ex_signature te))) (\<lambda>compactNonce.
     (let te' = te\<lparr>ex_length := word_of_int (134 + ci_length compactAmount + ci_length compactNonce)\<rparr> in
     rbind (encodeCompactInteger (ex_length te')) (\<lambda>compactLength.
     rbind (put_signature cap compactLength (ex_signature te) compactNonce) (\<lambda>buf.
     rbind (serializeMethodBinary cap te' buf) (\<lambda>buf. Inr (buf, te')))))))"

section \<open>Signing\<close>

type_synonym signer = "byte list \<Rightarrow> byte list \<Rightarrow> byte list \<Rightarrow> byte list"

text \<open>
  The payload of a call is serialised into an array and signed with the key in \<^verbatim>\<open>privateKey\<close>, of
  which the library reads 64 bytes.
\<close>

definition sign_payload :: "signer \<Rightarrow> byte list \<Rightarrow> string \<Rightarrow> SignaturePayload \<Rightarrow> byte list result" where
  "sign_payload sign signerPublicKey privateKey sp =
     rbind (payload_serializeBinary MAX_METHOD_BYTES_SZ sp) (\<lambda>signaturePayloadBytes.
     rbind (fromHex_vec privateKey True) (\<lambda>secretKeyVec.
     if SR25519_SECRET_SIZE \<le> length secretKeyVec
     then Inr (sign signerPublicKey (take SR25519_SECRET_SIZE secretKeyVec) signaturePayloadBytes)
     else Inl (Undefined OutOfBounds)))"

text \<open>\<^verbatim>\<open>sprintf(b, "%02X", teBytes[i])\<close> for every byte.\<close>

definition te_string :: "byte list \<Rightarrow> string" where
  "te_string teBytes = ''0x'' @ hex_bytes True teBytes"

text \<open>
  What \<^verbatim>\<open>submitExtrinsic\<close> and \<^verbatim>\<open>submitAndSubcribeExtrinsic\<close> share, once the nonce and the indices
  are known. They differ in \<open>total_length\<close>, the number that goes to the length prefix.
\<close>

definition extrinsic_string ::
  "(32 word \<Rightarrow> CompactIntegerLEBytes \<Rightarrow> uint128) \<Rightarrow> signer \<Rightarrow> byte list \<Rightarrow> 64 word \<Rightarrow> int \<Rightarrow> int \<Rightarrow>
   byte list \<Rightarrow> 32 word \<Rightarrow> string \<Rightarrow> string \<Rightarrow> string result" where
  "extrinsic_string total_length sign GenesisBlockHash nonce module_index method_index
       encodedMethodBytes encodedMethodBytesSize sender privateKey =
     rbind (encodeCompactInteger (ucast nonce)) (\<lambda>compactNonce.
     (let mmBuf = [word_of_int module_index, word_of_int method_index, ADDRESS_SEPARATOR] in
     if unat encodedMethodBytesSize \<le> length encodedMethodBytes then
     rbind (put_bytes MAX_METHOD_BYTES_SZ (take (unat encodedMethodBytesSize) encodedMethodBytes) mmBuf) (\<lambda>completeMessage.
     rbind (getPublicKeyFromAddr_str sender) (\<lambda>senderPK.
     (let sp = \<lparr>sp_nonce = ucast nonce, sp_methodBytesLength = ucast (encodedMethodBytesSize + 3),
                sp_methodBytes = completeMessage, sp_era = IMMORTAL_ERA, sp_authoringBlockHash = GenesisBlockHash\<rparr> in
     rbind (sign_payload sign senderPK privateKey sp) (\<lambda>sig.
     (let signature = \<lparr>sig_version = SIGNATURE_VERSION, sig_signerPublicKey = senderPK, sig_sr25519Signature = sig,
                       sig_nonce = ucast nonce, sig_era = IMMORTAL_ERA\<rparr> in
     rbind (encodeCompactInteger (total_length encodedMethodBytesSize compactNonce)) (\<lambda>compactLength.
     rbind (put_signature 2048 compactLength signature compactNonce) (\<lambda>buf.
     rbind (put_bytes MAX_METHOD_BYTES_SZ buf []) (\<lambda>teBytes.
     rbind (put_bytes MAX_METHOD_BYTES_SZ completeMessage teBytes) (\<lambda>teBytes.
     Inr (te_string teBytes))))))))))
     else Inl (Undefined OutOfBounds)))"

text \<open>
  \<^verbatim>\<open>submitExtrinsic\<close> counts the bytes of the nonce, in the type \<^verbatim>\<open>long\<close>;
  \<^verbatim>\<open>submitAndSubcribeExtrinsic\<close> takes them to be one.
\<close>

definition submit_length :: "32 word \<Rightarrow> CompactIntegerLEBytes \<Rightarrow> uint128" where
  "submit_length mbSize compactNonce = word_of_int (uint (DEFAULT_FIXED_EXSTRINSIC_SIZE + mbSize) + ci_length compactNonce - 1)"

definition watch_length :: "32 word \<Rightarrow> CompactIntegerLEBytes \<Rightarrow> uint128" where
  "watch_length mbSize compactNonce = ucast (DEFAULT_FIXED_EXSTRINSIC_SIZE + mbSize)"

text \<open>The transfer that \<^verbatim>\<open>signAndSendTransfer\<close> builds, signs and prints.\<close>

definition transfer_string ::
  "signer \<Rightarrow> byte list \<Rightarrow> 64 word \<Rightarrow> int \<Rightarrow> int \<Rightarrow> string \<Rightarrow> string \<Rightarrow> string \<Rightarrow> uint128 \<Rightarrow> string result" where
  "transfer_string sign GenesisBlockHash nonce BalanceModuleIndex TransferMethodIndex sender privateKey recipient amount =
     rbind (getPublicKeyFromAddr_str recipient) (\<lambda>recipientPK.
     rbind (getPublicKeyFromAddr_str sender) (\<lambda>senderPK.
     (let te = \<lparr>ex_length = 0, ex_signature = \<lparr>sig_version = SIGNATURE_VERSION, sig_signerPublicKey = senderPK,
                  sig_sr25519Signature = replicate SR25519_SIGNATURE_SIZE 0, sig_nonce = ucast nonce, sig_era = IMMORTAL_ERA\<rparr>,
                te_method = \<lparr>moduleIndex = word_of_int BalanceModuleIndex, methodIndex = word_of_int TransferMethodIndex,
                  receiverPublicKey = recipientPK, tm_amount = amount\<rparr>\<rparr> in
     rbind (serializeMethodBinary MAX_METHOD_BYTES_SZ te []) (\<lambda>methodBytes.
     (let sp = \<lparr>sp_nonce = ucast nonce, sp_methodBytesLength = word_of_int (int (length methodBytes)),
                sp_methodBytes = methodBytes, sp_era = IMMORTAL_ERA, sp_authoringBlockHash = GenesisBlockHash\<rparr> in
     rbind (sign_payload sign senderPK privateKey sp) (\<lambda>sig.
     rbind (transfer_serializeBinary MAX_METHOD_BYTES_SZ
              (te\<lparr>ex_signature := (ex_signature te)\<lparr>sig_sr25519Signature := sig\<rparr>\<rparr>)) (\<lambda>(teBytes, te').
     Inr (te_string teBytes))))))))"

section \<open>Pending extrinsics\<close>

text \<open>\<^verbatim>\<open>memcpy\<close> of the first \<open>n\<close> bytes of a vector.\<close>

definition first_bytes :: "nat \<Rightarrow> byte list \<Rightarrow> byte list result" where
  "first_bytes n bs = (if n \<le> length bs then Inr (take n bs) else Inl (Undefined OutOfBounds))"

text \<open>\<^verbatim>\<open>(uint8_t)fromHex<uint128>(estr.substr(0, 2))\<close>, then \<^verbatim>\<open>estr = estr.substr(2)\<close>.\<close>

definition hex_uint8 :: "byte parser" where
  "hex_uint8 estr =
     rbind (substr estr 0 2) (\<lambda>digits.
     rbind (fromHex digits True) (\<lambda>v.
     rbind (substr_from estr 2) (\<lambda>estr'. Inr (ucast (v :: uint128), estr'))))"

text \<open>One element of the answer: everything but the signer's address.\<close>

definition parse_extrinsic :: "string \<Rightarrow> GenericExtrinsic result" where
  "parse_extrinsic e =
     rbind (substr_from e 2) (\<lambda>estr.
     rbind (decodeCompactInteger estr) (\<lambda>(len, estr).
     rbind (hex_uint8 estr) (\<lambda>(version, estr).
     rbind (substr estr 2 (SR25519_PUBLIC_SIZE * 2)) (\<lambda>pk_digits.
     rbind (fromHex_vec pk_digits True) (\<lambda>pk.
     rbind (first_bytes SR25519_PUBLIC_SIZE pk) (\<lambda>signerPublicKey.
     rbind (substr_from estr (SR25519_PUBLIC_SIZE * 2 + 2)) (\<lambda>estr.
     rbind (substr estr 0 (SR25519_SIGNATURE_SIZE * 2)) (\<lambda>sig_digits.
     rbind (fromHex_vec sig_digits True) (\<lambda>sig.
     rbind (first_bytes SR25519_SIGNATURE_SIZE sig) (\<lambda>sr25519Signature.
     rbind (substr_from estr (SR25519_SIGNATURE_SIZE * 2)) (\<lambda>estr.
     rbind (decodeCompactInteger estr) (\<lambda>(nonce, estr).
     rbind (hex_uint8 estr) (\<lambda>(eraInt, estr).
     rbind (hex_uint8 estr) (\<lambda>(module_index, estr).
     rbind (hex_uint8 estr) (\<lambda>(method_index, estr).
     Inr \<lparr>ex_length = word_of_int len,
          ex_signature = \<lparr>sig_version = version, sig_signerPublicKey = signerPublicKey,
            sig_sr25519Signature = sr25519Signature, sig_nonce = word_of_int nonce,
            sig_era = (if eraInt \<noteq> 0 then MORTAL_ERA else IMMORTAL_ERA)\<rparr>,
          ge_method = \<lparr>moduleIndex = module_index, methodIndex = method_index, gm_methodBytes = estr\<rparr>,
          ge_signerAddress = []\<rparr>)))))))))))))))"

text \<open>
  The loop over the answer: as many elements as the buffer takes are written, all are counted.
\<close>

fun pending_loop :: "string list \<Rightarrow> int \<Rightarrow> int \<Rightarrow> GenericExtrinsic list \<Rightarrow> (int \<times> GenericExtrinsic list) result" where
  "pending_loop [] bufferSize count buf = Inr (count, buf)"
| "pending_loop (e # es) bufferSize count buf =
     (if count < bufferSize then
        rbind (parse_extrinsic e) (\<lambda>x.
        rbind (getAddrFromPublicKey (sig_signerPublicKey (ex_signature x))) (\<lambda>addr.
        pending_loop es bufferSize (count + 1) (buf @ [x\<lparr>ge_signerAddress := addr\<rparr>])))
      else pending_loop es bufferSize (count + 1) buf)"

section \<open>Lemmas\<close>


text \<open>The numbers the encoder writes in the wire format.\<close>

definition compact_ok :: "int \<Rightarrow> bool" where
  "compact_ok n \<longleftrightarrow> 0 \<le> n \<and> (n < 2 ^ 12 \<or> 2 ^ 14 \<le> n) \<and> n < 2 ^ 56"

definition encodes :: "CompactIntegerLEBytes \<Rightarrow> int \<Rightarrow> bool" where
  "encodes ci n \<longleftrightarrow> ci_length ci = int (length (compact_spec n)) \<and> (\<exists>pad. ci_bytes ci = compact_spec n @ pad)"

lemma encode_ok: "compact_ok (uint n) \<Longrightarrow> \<exists>ci. encodeCompactInteger n = Inr ci \<and> encodes ci (uint n)"
  using encode_compact [of n] by (auto simp: compact_ok_def encodes_def)

lemma compact_spec_length: "compact_ok n \<Longrightarrow> 1 \<le> length (compact_spec n) \<and> length (compact_spec n) \<le> 8"
  using byte_len_le [of n 7] by (auto simp: compact_ok_def compact_spec_def)

lemma put_bytes_fits [simp]: "length buf + length bs \<le> cap \<Longrightarrow> put_bytes cap bs buf = Inr (buf @ bs)"
  by (simp add: put_bytes_def)

lemma put_compact_fits [simp]:
  assumes "encodes ci n" "length buf + length (compact_spec n) \<le> cap"
  shows "put_compact cap ci buf = Inr (buf @ compact_spec n)"
  using assms by (auto simp: encodes_def put_compact_def writeCompactToBuf_def write_loop_spec)

text \<open>The bytes of a signed extrinsic, and the reader on them.\<close>

definition extrinsic_wire :: "int \<Rightarrow> byte list \<Rightarrow> byte list \<Rightarrow> int \<Rightarrow> byte list \<Rightarrow> byte list" where
  "extrinsic_wire len pk sig nonce call =
     compact_spec len @ [SIGNATURE_VERSION, ADDRESS_SEPARATOR] @ pk @ sig @ compact_spec nonce @ [0] @ call"

lemma put_signature_wire:
  assumes "encodes cl len" "encodes cn (uint nonce)"
    and "length (extrinsic_wire len pk sig (uint nonce) []) \<le> cap"
  shows "put_signature cap cl \<lparr>sig_version = SIGNATURE_VERSION, sig_signerPublicKey = pk, sig_sr25519Signature = sig,
      sig_nonce = nonce, sig_era = IMMORTAL_ERA\<rparr> cn = Inr (extrinsic_wire len pk sig (uint nonce) [])"
  using assms by (simp add: put_signature_def extrinsic_wire_def era_byte_def)

lemma hex_uint8_byte [codec_simps]: "hex_uint8 (hex_byte u b @ rest) = Inr (b, rest)"
proof -
  have "fromHex (hex_byte u b) True = (Inr (ucast b) :: uint128 result)"
    using fromHex_hex [where ?'a = 128, of "[]" u "[b]"] by (simp add: be_int_def)
  moreover have "(ucast (ucast b :: uint128) :: byte) = b" by (rule bit_word_eqI) (simp add: bit_simps)
  ultimately show ?thesis by (simp add: hex_uint8_def substr_def substr_from_def)
qed

lemma fromHex_vec_front:
  assumes "length bs = n" "0 < n"
  shows "rbind (fromHex_vec (take (2 * n) (hex_bytes u bs @ rest)) True) (first_bytes n) = Inr bs"
proof -
  have "take (2 * n) (hex_bytes u bs @ rest) = [] @ hex_bytes u bs" using assms by simp
  moreover have "bs \<noteq> []" using assms by auto
  ultimately show ?thesis using fromHex_vec_hex [of "[]" bs u True] assms by (simp only:) (simp add: first_bytes_def)
qed

lemma parse_extrinsic_wire:
  assumes "0 \<le> len" "len < 2 ^ 56" "length pk = SR25519_PUBLIC_SIZE" "length sig = SR25519_SIGNATURE_SIZE"
    and "0 \<le> nonce" "nonce < 2 ^ 56"
  shows "parse_extrinsic (te_string (extrinsic_wire len pk sig nonce (mi # ci # body))) =
    Inr \<lparr>ex_length = word_of_int len,
         ex_signature = \<lparr>sig_version = SIGNATURE_VERSION, sig_signerPublicKey = pk, sig_sr25519Signature = sig,
           sig_nonce = word_of_int nonce, sig_era = IMMORTAL_ERA\<rparr>,
         ge_method = \<lparr>moduleIndex = mi, methodIndex = ci, gm_methodBytes = hex_bytes True body\<rparr>, ge_signerAddress = []\<rparr>"
proof -
  have pk: "fromHex_vec (hex_bytes True pk) True = Inr pk" "first_bytes 32 pk = Inr pk"
    using fromHex_vec_hex [of "[]" pk True True] assms(3) by (cases pk; simp add: first_bytes_def)+
  have sig: "fromHex_vec (hex_bytes True sig) True = Inr sig" "first_bytes 64 sig = Inr sig"
    using fromHex_vec_hex [of "[]" sig True True] assms(4) by (cases sig; simp add: first_bytes_def)+
  have len: "decodeCompactInteger (hex_bytes True (compact_spec len) @ rest) = Inr (len, rest)" for rest
    using decode_compact [OF assms(1,2)] .
  have nonce: "decodeCompactInteger (hex_bytes True (compact_spec nonce) @ rest) = Inr (nonce, rest)" for rest
    using decode_compact [OF assms(5,6)] .
  show ?thesis
    by (simp add: parse_extrinsic_def te_string_def extrinsic_wire_def substr_from_def substr_def len nonce hex_uint8_byte
        pk sig assms(3,4) cong: rbind_weak_cong)
qed

lemma getPublicKeyFromAddr_str_length: "getPublicKeyFromAddr_str addr = Inr pk \<Longrightarrow> length pk = PUBLIC_KEY_LENGTH"
  by (auto simp: getPublicKeyFromAddr_str_def getPublicKeyFromAddr_def split: if_splits)

text \<open>The bytes that are signed, and the signature.\<close>

definition payload_wire :: "int \<Rightarrow> byte list \<Rightarrow> byte list \<Rightarrow> byte list" where
  "payload_wire nonce call genesis = compact_spec nonce @ call @ [0] @ genesis"

definition can_sign :: "string \<Rightarrow> byte list \<Rightarrow> bool" where
  "can_sign privateKey sk \<longleftrightarrow> (\<exists>more. fromHex_vec privateKey True = Inr (sk @ more)) \<and> length sk = SR25519_SECRET_SIZE"

lemma sign_payload_wire:
  assumes "compact_ok (uint nonce)" "can_sign privateKey sk" "unat l \<le> length call" "length genesis = BLOCK_HASH_SIZE"
  shows "sign_payload sign pk privateKey \<lparr>sp_nonce = nonce, sp_methodBytesLength = l, sp_methodBytes = call,
      sp_era = IMMORTAL_ERA, sp_authoringBlockHash = genesis\<rparr> =
    Inr (sign pk sk (payload_wire (uint nonce) (take (unat l) call) genesis))"
proof -
  obtain cn where cn: "encodeCompactInteger nonce = Inr cn" "encodes cn (uint nonce)"
    using encode_ok [OF assms(1)] by blast
  have "unat l < 256" by (rule unat_byte_less)
  then have "payload_serializeBinary MAX_METHOD_BYTES_SZ \<lparr>sp_nonce = nonce, sp_methodBytesLength = l, sp_methodBytes = call,
      sp_era = IMMORTAL_ERA, sp_authoringBlockHash = genesis\<rparr> = Inr (payload_wire (uint nonce) (take (unat l) call) genesis)"
    using assms cn compact_spec_length [OF assms(1)]
    by (simp add: payload_serializeBinary_def payload_wire_def era_byte_def)
  then show ?thesis using assms(2) by (auto simp: sign_payload_def can_sign_def)
qed

lemma uint_ucast_nonce: "uint (ucast (nonce :: 64 word) :: uint128) = uint nonce"
  by (simp add: unsigned_ucast_eq take_bit_int_eq_self uint_lt2p order_less_trans [OF uint_lt2p])

text \<open>Any extrinsic, with the number \<open>len\<close> in front that \<open>total_length\<close> computes.\<close>

lemma extrinsic_string_wire:
  fixes mb :: "byte list" and mi ci :: int
  assumes nonce: "compact_ok (uint nonce)" and mb: "length mb \<le> 1900"
    and pk: "getPublicKeyFromAddr_str sender = Inr pk" and sk: "can_sign privateKey sk"
    and genesis: "length genesis = BLOCK_HASH_SIZE" and sign: "\<And>m. length (sign pk sk m) = SR25519_SIGNATURE_SIZE"
    and len: "\<And>cn. encodes cn (uint nonce) \<Longrightarrow> uint (total_length (word_of_nat (length mb)) cn) = len" "compact_ok len"
  defines "call \<equiv> [word_of_int mi, word_of_int ci, ADDRESS_SEPARATOR] @ mb"
  shows "extrinsic_string total_length sign genesis nonce mi ci mb (word_of_nat (length mb)) sender privateKey =
    Inr (te_string (extrinsic_wire len pk
      (sign pk sk (payload_wire (uint nonce) (take ((length mb + 3) mod 256) call) genesis)) (uint nonce) call))"
proof -
  obtain cn where cn: "encodeCompactInteger (ucast nonce) = Inr cn" "encodes cn (uint nonce)"
    using encode_ok [of "ucast nonce"] nonce by (auto simp: uint_ucast_nonce)
  obtain cl where cl: "encodeCompactInteger (total_length (word_of_nat (length mb)) cn) = Inr cl" "encodes cl len"
    using encode_ok [of "total_length (word_of_nat (length mb)) cn"] len cn(2) by auto
  have size: "unat (word_of_nat (length mb) :: 32 word) = length mb"
    using mb by (simp add: unsigned_of_nat take_bit_eq_mod)
  define l where "l = (ucast (word_of_nat (length mb) + 3 :: 32 word) :: byte)"
  have "unat l = (length mb + 3) mod 256"
  proof -
    have "unat (word_of_nat (length mb) + 3 :: 32 word) = length mb + 3"
      using mb size by (simp add: unat_word_ariths)
    then show ?thesis by (simp add: l_def unsigned_ucast_eq take_bit_eq_mod)
  qed
  moreover have "\<dots> \<le> length call" using mod_less_eq_dividend [of "length mb + 3" 256] by (simp add: call_def)
  ultimately have l: "unat l = (length mb + 3) mod 256" "unat l \<le> length call" by simp_all
  have pk32: "length pk = 32" using getPublicKeyFromAddr_str_length [OF pk] .
  let ?sig = "sign pk sk (payload_wire (uint nonce) (take ((length mb + 3) mod 256) call) genesis)"
  have "length (extrinsic_wire len pk ?sig (uint nonce) []) + length call \<le> 2048"
    using mb sign pk32 compact_spec_length [OF nonce] compact_spec_length [OF len(2)]
    by (simp add: extrinsic_wire_def call_def)
  then have "put_signature 2048 cl \<lparr>sig_version = SIGNATURE_VERSION, sig_signerPublicKey = pk, sig_sr25519Signature = ?sig,
      sig_nonce = ucast nonce, sig_era = IMMORTAL_ERA\<rparr> cn = Inr (extrinsic_wire len pk ?sig (uint nonce) [])"
    and fits: "length (extrinsic_wire len pk ?sig (uint nonce) []) + length call \<le> 2048"
    using put_signature_wire [OF cl(2), of cn "ucast nonce" pk ?sig 2048] cn(2) by (simp_all add: uint_ucast_nonce)
  moreover have "sign_payload sign pk privateKey \<lparr>sp_nonce = ucast nonce, sp_methodBytesLength = l, sp_methodBytes = call,
      sp_era = IMMORTAL_ERA, sp_authoringBlockHash = genesis\<rparr> = Inr ?sig"
    using sign_payload_wire [of "ucast nonce", OF _ sk l(2) genesis] nonce by (simp add: uint_ucast_nonce l(1))
  moreover have "put_bytes MAX_METHOD_BYTES_SZ mb [word_of_int mi, word_of_int ci, ADDRESS_SEPARATOR] = Inr call"
    using mb by (simp add: call_def)
  ultimately show ?thesis
    unfolding extrinsic_string_def
    by (simp add: cn(1) cl(1) size pk l_def [symmetric] cong: rbind_weak_cong) (simp add: extrinsic_wire_def)
qed

text \<open>The transfer, whose call is the receiver and the amount.\<close>

definition transfer_call :: "int \<Rightarrow> int \<Rightarrow> byte list \<Rightarrow> int \<Rightarrow> byte list" where
  "transfer_call mi ci receiver amount =
     [word_of_int mi, word_of_int ci, ADDRESS_SEPARATOR] @ receiver @ compact_spec amount"

lemma serializeMethodBinary_call:
  assumes "compact_ok (uint amount)" "length receiver = 32" "length buf + 43 \<le> cap"
    and "te_method te = \<lparr>moduleIndex = word_of_int mi, methodIndex = word_of_int ci, receiverPublicKey = receiver,
      tm_amount = amount\<rparr>"
  shows "serializeMethodBinary cap te buf = Inr (buf @ transfer_call mi ci receiver (uint amount))"
proof -
  obtain ca where "encodeCompactInteger amount = Inr ca" "encodes ca (uint amount)"
    using encode_ok [OF assms(1)] by blast
  then show ?thesis
    using assms compact_spec_length [OF assms(1)] by (simp add: serializeMethodBinary_def transfer_call_def)
qed

lemma transfer_string_wire:
  fixes mi ci :: int
  assumes nonce: "compact_ok (uint nonce)" and amount: "compact_ok (uint amount)"
    and rpk: "getPublicKeyFromAddr_str recipient = Inr rpk"
    and pk: "getPublicKeyFromAddr_str sender = Inr pk" and sk: "can_sign privateKey sk"
    and genesis: "length genesis = BLOCK_HASH_SIZE" and sign: "\<And>m. length (sign pk sk m) = SR25519_SIGNATURE_SIZE"
  defines "call \<equiv> transfer_call mi ci rpk (uint amount)"
  defines "len \<equiv> 134 + int (length (compact_spec (uint amount))) + int (length (compact_spec (uint nonce)))"
  shows "transfer_string sign genesis nonce mi ci sender privateKey recipient amount =
    Inr (te_string (extrinsic_wire len pk (sign pk sk (payload_wire (uint nonce) call genesis)) (uint nonce) call))"
proof -
  obtain cn where cn: "encodeCompactInteger (ucast nonce) = Inr cn" "encodes cn (uint nonce)"
    using encode_ok [of "ucast nonce"] nonce by (auto simp: uint_ucast_nonce)
  obtain ca where ca: "encodeCompactInteger amount = Inr ca" "encodes ca (uint amount)"
    using encode_ok [OF amount] by blast
  note bounds = compact_spec_length [OF nonce] compact_spec_length [OF amount]
  have "0 \<le> len" "len < 2 ^ 12" using bounds by (simp_all add: len_def)
  then have len: "uint (word_of_int len :: uint128) = len" "compact_ok len"
    by (auto simp: compact_ok_def uint_word_of_int)
  then obtain cl where cl: "encodeCompactInteger (word_of_int len) = Inr cl" "encodes cl len"
    using encode_ok [of "word_of_int len"] by auto
  have lens: "ci_length ca = int (length (compact_spec (uint amount)))" "ci_length cn = int (length (compact_spec (uint nonce)))"
    using ca(2) cn(2) by (simp_all add: encodes_def)
  have keys: "length pk = 32" "length rpk = 32" using getPublicKeyFromAddr_str_length pk rpk by blast+
  let ?sig = "sign pk sk (payload_wire (uint nonce) call genesis)"
  have call: "length call \<le> 43" using keys bounds by (simp add: call_def transfer_call_def)
  then have l: "unat (word_of_int (int (length call)) :: byte) = length call"
    by (simp add: unsigned_of_nat take_bit_eq_mod)
  have sp: "sign_payload sign pk privateKey \<lparr>sp_nonce = ucast nonce, sp_methodBytesLength = word_of_int (int (length call)),
      sp_methodBytes = call, sp_era = IMMORTAL_ERA, sp_authoringBlockHash = genesis\<rparr> = Inr ?sig"
    using sign_payload_wire [of "ucast nonce" privateKey sk "word_of_int (int (length call))" call genesis sign pk]
      nonce sk genesis l by (simp add: uint_ucast_nonce del: of_int_of_nat_eq)
  have w: "length (extrinsic_wire len pk ?sig (uint nonce) []) + 43 \<le> MAX_METHOD_BYTES_SZ"
    using sign keys bounds compact_spec_length [OF len(2)] by (simp add: extrinsic_wire_def)
  then have "put_signature 2048 cl \<lparr>sig_version = SIGNATURE_VERSION, sig_signerPublicKey = pk, sig_sr25519Signature = ?sig,
      sig_nonce = ucast nonce, sig_era = IMMORTAL_ERA\<rparr> cn = Inr (extrinsic_wire len pk ?sig (uint nonce) [])"
    using put_signature_wire [OF cl(2), of cn "ucast nonce" pk ?sig 2048] cn(2) by (simp add: uint_ucast_nonce)
  moreover have "extrinsic_wire len pk ?sig (uint nonce) [] @ call = extrinsic_wire len pk ?sig (uint nonce) call"
    by (simp add: extrinsic_wire_def)
  ultimately show ?thesis
    unfolding transfer_string_def transfer_serializeBinary_def
    by (simp add: cn(1) ca(1) cl(1) pk rpk keys amount w sp lens serializeMethodBinary_call [OF amount keys(2), where mi = mi and ci = ci]
        len_def [symmetric] call_def [symmetric] Let_def del: of_int_of_nat_eq of_int_add cong: rbind_weak_cong)
qed

lemma extrinsic_wire_length:
  "int (length (extrinsic_wire len pk sig nonce call)) =
     int (length (compact_spec len)) + int (3 + length pk + length sig + length (compact_spec nonce) + length call)"
  by (simp add: extrinsic_wire_def)

lemma compact_spec_one: "0 \<le> n \<Longrightarrow> n < 2 ^ 56 \<Longrightarrow> length (compact_spec n) = 1 \<longleftrightarrow> n < 64"
  using byte_len_ge [of 3 n] by (auto simp: compact_spec_def)

lemma uint_size: "length (mb :: byte list) \<le> 1900 \<Longrightarrow> uint (103 + word_of_nat (length mb) :: 32 word) = 103 + int (length mb)"
  by (simp add: uint_word_ariths unsigned_of_nat take_bit_eq_mod)

lemma submit_length_value:
  assumes "length (mb :: byte list) \<le> 1900" "compact_ok n" "encodes cn n"
  shows "uint (submit_length (word_of_nat (length mb)) cn) = 102 + int (length (compact_spec n)) + int (length mb)"
proof -
  have "submit_length (word_of_nat (length mb)) cn = word_of_int (102 + int (length (compact_spec n)) + int (length mb))"
    using assms uint_size [OF assms(1)] by (simp add: submit_length_def encodes_def)
  then show ?thesis using compact_spec_length [OF assms(2)] assms(1) by (simp add: uint_word_of_int del: of_int_add)
qed

lemma watch_length_value: "length (mb :: byte list) \<le> 1900 \<Longrightarrow> uint (watch_length (word_of_nat (length mb)) cn) = 103 + int (length mb)"
  using uint_size [of mb] by (simp add: watch_length_def unsigned_ucast_eq take_bit_eq_mod)

lemma small_compact_ok: "0 \<le> n \<Longrightarrow> n < 2 ^ 12 \<Longrightarrow> compact_ok n"
  by (simp add: compact_ok_def)

text \<open>A sender that is not base 58, for which the key is all zeros, a secret key and a signer.\<close>

definition sample_sender :: string where
  "sample_sender = replicate 48 (CHR ''0'')"

definition sample_secret :: string where
  "sample_secret = ''0x'' @ hex_bytes True (replicate 64 1)"

definition sample_sign :: signer where
  "sample_sign pk sk m = replicate 64 5"

lemma sample_hyps:
  "getPublicKeyFromAddr_str sample_sender = Inr (replicate 32 0)" "can_sign sample_secret (replicate 64 1)"
  "length (sample_sign pk sk m) = SR25519_SIGNATURE_SIZE"
proof -
  show "getPublicKeyFromAddr_str sample_sender = Inr (replicate 32 0)" by code_simp
  have "fromHex_vec sample_secret True = Inr (replicate 64 1 @ [])"
    using fromHex_vec_hex [of "''0x''" "replicate 64 1" True True] by (simp add: sample_secret_def)
  then show "can_sign sample_secret (replicate 64 1)" unfolding can_sign_def by (metis length_replicate)
qed (simp add: sample_sign_def)

section \<open>Properties\<close>





text \<open>
  C34: \<^verbatim>\<open>submitAndSubcribeExtrinsic\<close> prints the same bytes but for the length prefix, which is a
  constant plus the length of the arguments: it counts the bytes that follow exactly when the nonce
  is below 64, the numbers with a one-byte encoding.
\<close>

theorem submitAndSubcribeExtrinsic_length:
  fixes mb :: "byte list" and mi ci :: int
  assumes "compact_ok (uint nonce)" "length mb \<le> 1900" "getPublicKeyFromAddr_str sender = Inr pk"
    and "can_sign privateKey sk" "length genesis = BLOCK_HASH_SIZE" "\<And>m. length (sign pk sk m) = SR25519_SIGNATURE_SIZE"
  defines "len \<equiv> 103 + int (length mb)"
  shows "\<exists>rest.
    extrinsic_string watch_length sign genesis nonce mi ci mb (word_of_nat (length mb)) sender privateKey =
      Inr (te_string (compact_spec len @ rest)) \<and>
    (\<exists>len'. extrinsic_string submit_length sign genesis nonce mi ci mb (word_of_nat (length mb)) sender privateKey =
      Inr (te_string (compact_spec len' @ rest))) \<and>
    (len = int (length rest) \<longleftrightarrow> uint nonce < 64)"
proof -
  define call where "call = [word_of_int mi, word_of_int ci, ADDRESS_SEPARATOR] @ mb"
  define sig where "sig = sign pk sk (payload_wire (uint nonce) (take ((length mb + 3) mod 256) call) genesis)"
  define rest where "rest = [SIGNATURE_VERSION, ADDRESS_SEPARATOR] @ pk @ sig @ compact_spec (uint nonce) @ [0] @ call"
  define len' where "len' = 102 + int (length (compact_spec (uint nonce))) + int (length mb)"
  have pk: "length pk = 32" using getPublicKeyFromAddr_str_length assms(3) by blast
  have wire: "extrinsic_wire n pk sig (uint nonce) call = compact_spec n @ rest" for n
    by (simp add: extrinsic_wire_def rest_def)
  have "compact_ok len" "compact_ok len'"
    using compact_spec_length [OF assms(1)] assms(2) by (simp_all add: len_def len'_def small_compact_ok)
  then have "extrinsic_string watch_length sign genesis nonce mi ci mb (word_of_nat (length mb)) sender privateKey =
      Inr (te_string (compact_spec len @ rest))"
    and "extrinsic_string submit_length sign genesis nonce mi ci mb (word_of_nat (length mb)) sender privateKey =
      Inr (te_string (compact_spec len' @ rest))"
    unfolding wire [symmetric] unfolding sig_def call_def
    by (intro extrinsic_string_wire [where sign = sign, OF assms(1-6)];
        use assms(1,2) in \<open>auto simp: submit_length_value watch_length_value len_def len'_def\<close>)+
  moreover have "len = int (length rest) \<longleftrightarrow> uint nonce < 64"
    using compact_spec_one [of "uint nonce"] assms(1,6) pk
    by (auto simp: len_def rest_def call_def sig_def compact_ok_def)
  ultimately show ?thesis by blast
qed

theorem submitAndSubcribeExtrinsic_length_witness:
  "\<exists>rest.
    extrinsic_string watch_length sample_sign (replicate 32 3) 100 6 2 [1, 2] 2 sample_sender sample_secret =
      Inr (te_string (compact_spec 105 @ rest)) \<and> 105 \<noteq> int (length rest)"
  using submitAndSubcribeExtrinsic_length [of 100 "[1, 2]" sample_sender "replicate 32 0" sample_secret
      "replicate 64 1" "replicate 32 3" sample_sign 6 2]
  by (simp add: sample_hyps compact_ok_def) blast

end
