(* ===== verification/Lookup.thy ===== *)
theory Lookup
  imports MetadataFactory Storage Converters
begin

text \<open>
  How \<^verbatim>\<open>src/application.cpp\<close> searches the chain's metadata: modules, storage entries, calls and
  constants by name, the hash function of a storage entry, and the keys of the storage. The
  metadata has a pointer for each version, at most one of which is expected to be set.

  An array of pointers is the list of its non-null front: past the list a pointer is null. An
  array of structures is the list of the elements written; past the list they are indeterminate.
\<close>

record Metadata =
  metadataV0 :: "MDV0 option"
  metadataV4 :: "MDV4 option"
  metadataV5 :: "MDV5 option"
  metadataV6 :: "MDV6 option"
  metadataV7 :: "MDV7 option"

section \<open>Arrays\<close>

definition ptr_at :: "'a list \<Rightarrow> int \<Rightarrow> 'a option result" where
  "ptr_at xs i =
     (if 0 \<le> i \<and> i < int COLLECTION_SIZE
      then Inr (if i < int (length xs) then Some (xs ! nat i) else None)
      else Inl (Undefined OutOfBounds))"

definition deref_at :: "'a list \<Rightarrow> int \<Rightarrow> 'a result" where
  "deref_at xs i = rbind (ptr_at xs i) (\<lambda>p. case p of None \<Rightarrow> Inl (Undefined NullDeref) | Some x \<Rightarrow> Inr x)"

definition filled_at :: "'a slot list \<Rightarrow> int \<Rightarrow> 'a result" where
  "filled_at xs i = rbind (deref_at xs i) (\<lambda>s. case s of Fresh \<Rightarrow> Inl (Undefined Uninitialised) | Filled x \<Rightarrow> Inr x)"

definition elem_at :: "'a list \<Rightarrow> int \<Rightarrow> 'a result" where
  "elem_at xs i = rbind (ptr_at xs i) (\<lambda>p. case p of None \<Rightarrow> Inl (Undefined Uninitialised) | Some x \<Rightarrow> Inr x)"

definition written :: "'a option \<Rightarrow> 'a result" where
  "written x = (case x of None \<Rightarrow> Inl (Undefined Uninitialised) | Some v \<Rightarrow> Inr v)"

definition follow :: "'a option \<Rightarrow> 'a result" where
  "follow p = (case p of None \<Rightarrow> Inl (Undefined NullDeref) | Some x \<Rightarrow> Inr x)"

text \<open>\<^verbatim>\<open>if (md && md->module[i]) ... else ...\<close>, and the chain of the five versions.\<close>

definition version_branch ::
  "'md option \<Rightarrow> ('md \<Rightarrow> 'm list) \<Rightarrow> int \<Rightarrow> ('md \<Rightarrow> 'a result) \<Rightarrow> 'a result \<Rightarrow> 'a result" where
  "version_branch md modules i f otherwise = (case md of
     None \<Rightarrow> otherwise
   | Some md \<Rightarrow> rbind (ptr_at (modules md) i) (\<lambda>p. if p \<noteq> None then f md else otherwise))"

definition on_version ::
  "Metadata \<Rightarrow> int \<Rightarrow> (MDV0 \<Rightarrow> 'a result) \<Rightarrow> (MDV4 \<Rightarrow> 'a result) \<Rightarrow> (MDV5 \<Rightarrow> 'a result) \<Rightarrow> (MDV6 \<Rightarrow> 'a result) \<Rightarrow>
   (MDV7 \<Rightarrow> 'a result) \<Rightarrow> 'a result \<Rightarrow> 'a result" where
  "on_version meta i f0 f4 f5 f6 f7 otherwise =
     version_branch (metadataV0 meta) md0_module i f0 (
     version_branch (metadataV4 meta) (\<lambda>ms. ms) i f4 (
     version_branch (metadataV5 meta) (\<lambda>ms. ms) i f5 (
     version_branch (metadataV6 meta) (\<lambda>ms. ms) i f6 (
     version_branch (metadataV7 meta) (\<lambda>ms. ms) i f7 otherwise))))"

section \<open>Searches\<close>

definition easytolower :: "char \<Rightarrow> char" where
  "easytolower c = (if 65 \<le> (of_char c :: int) \<and> (of_char c :: int) \<le> 90 then char_of (of_char c + 32 :: int) else c)"

abbreviation lower :: "string \<Rightarrow> string" where "lower \<equiv> map easytolower"

definition hasMethods :: "Metadata \<Rightarrow> int \<Rightarrow> bool result" where
  "hasMethods meta module_index =
     on_version meta module_index
       (\<lambda>md. rbind (deref_at (md0_module md) module_index) (\<lambda>m.
             rbind (written (m0_storage m)) (\<lambda>st.
             rbind (elem_at (st0_function st) 0) (\<lambda>f. Inr (0 < length (f0_name f))))))
       (\<lambda>ms. rbind (deref_at ms module_index) (\<lambda>m. rbind (ptr_at (m4_call m) 0) (\<lambda>p. Inr (p \<noteq> None))))
       (\<lambda>ms. rbind (deref_at ms module_index) (\<lambda>m. rbind (ptr_at (m5_call m) 0) (\<lambda>p. Inr (p \<noteq> None))))
       (\<lambda>ms. rbind (deref_at ms module_index) (\<lambda>m. rbind (ptr_at (m6_call m) 0) (\<lambda>p. Inr (p \<noteq> None))))
       (\<lambda>ms. rbind (deref_at ms module_index) (\<lambda>m. rbind (ptr_at (m7_call m) 0) (\<lambda>p. Inr (p \<noteq> None))))
       (Inr False)"

text \<open>The name of module \<open>i\<close>, empty past the modules.\<close>

definition name_at :: "Metadata \<Rightarrow> int \<Rightarrow> string result" where
  "name_at meta i =
     on_version meta i
       (\<lambda>md. rbind (deref_at (md0_module md) i) (\<lambda>m. Inr (m0_prefix m)))
       (\<lambda>ms. rbind (deref_at ms i) (\<lambda>m. Inr (m4_name m)))
       (\<lambda>ms. rbind (deref_at ms i) (\<lambda>m. Inr (m5_name m)))
       (\<lambda>ms. rbind (deref_at ms i) (\<lambda>m. Inr (m6_name m)))
       (\<lambda>ms. rbind (deref_at ms i) (\<lambda>m. Inr (m7_name m)))
       (Inr [])"

fun module_loop :: "Metadata \<Rightarrow> string \<Rightarrow> bool \<Rightarrow> nat \<Rightarrow> int \<Rightarrow> int \<Rightarrow> int result" where
  "module_loop meta moduleNameLower skipZeroCalls 0 i zeroMethodModuleCount = Inr (-1)"
| "module_loop meta moduleNameLower skipZeroCalls (Suc n) i zeroMethodModuleCount =
     rbind (name_at meta i) (\<lambda>name.
     if name \<noteq> [] then
       rbind (hasMethods meta i) (\<lambda>has.
       (let zeros = (if \<not> has then zeroMethodModuleCount + 1 else zeroMethodModuleCount) in
        if moduleNameLower = lower name then Inr (if skipZeroCalls then i - zeros else i)
        else module_loop meta moduleNameLower skipZeroCalls n (i + 1) zeros))
     else module_loop meta moduleNameLower skipZeroCalls n (i + 1) zeroMethodModuleCount)"

definition getModuleIndex :: "Metadata \<Rightarrow> string \<Rightarrow> bool \<Rightarrow> int result" where
  "getModuleIndex meta moduleName skipZeroCalls =
     module_loop meta (lower moduleName) skipZeroCalls COLLECTION_SIZE 0 0"

text \<open>The loop of the two searches in a module; \<open>name\<close> is the name at an index.\<close>

fun find_loop :: "(int \<Rightarrow> string result) \<Rightarrow> string \<Rightarrow> nat \<Rightarrow> int \<Rightarrow> int result" where
  "find_loop name funcNameLower 0 i = Inr (-1)"
| "find_loop name funcNameLower (Suc n) i =
     rbind (name i) (\<lambda>s. if funcNameLower = lower s then Inr i else find_loop name funcNameLower n (i + 1))"

text \<open>Both searches test \<^verbatim>\<open>module[i]\<close> with the index of the entry and read \<^verbatim>\<open>module[moduleIndex]\<close>.\<close>

definition storage_name :: "Metadata \<Rightarrow> int \<Rightarrow> int \<Rightarrow> string result" where
  "storage_name meta module_index i =
     on_version meta i
       (\<lambda>md. rbind (deref_at (md0_module md) module_index) (\<lambda>m.
             rbind (written (m0_storage m)) (\<lambda>st. rbind (elem_at (st0_function st) i) (\<lambda>f. Inr (f0_name f)))))
       (\<lambda>ms. rbind (deref_at ms module_index) (\<lambda>m. rbind (filled_at (m4_storage m) i) (\<lambda>st. Inr (st4_name st))))
       (\<lambda>ms. rbind (deref_at ms module_index) (\<lambda>m. rbind (filled_at (m5_storage m) i) (\<lambda>st. Inr (st_name st))))
       (\<lambda>ms. rbind (deref_at ms module_index) (\<lambda>m. rbind (filled_at (m6_storage m) i) (\<lambda>st. Inr (st_name st))))
       (\<lambda>ms. rbind (deref_at ms module_index) (\<lambda>m. rbind (follow (m7_storage m)) (\<lambda>sc.
             rbind (deref_at (sc_items sc) i) (\<lambda>st. Inr (st_name st)))))
       (Inr [])"

definition getStorageMethodIndex :: "Metadata \<Rightarrow> int \<Rightarrow> string \<Rightarrow> int result" where
  "getStorageMethodIndex meta module_index funcName =
     find_loop (storage_name meta module_index) (lower funcName) COLLECTION_SIZE 0"

definition call_name_at :: "Metadata \<Rightarrow> int \<Rightarrow> int \<Rightarrow> string result" where
  "call_name_at meta module_index i =
     on_version meta i
       (\<lambda>md. rbind (deref_at (md0_module md) module_index) (\<lambda>m. rbind (elem_at (m0_call_fn1 m) i) (\<lambda>f. Inr (fc0_name f))))
       (\<lambda>ms. rbind (deref_at ms module_index) (\<lambda>m. rbind (filled_at (m4_call m) i) (\<lambda>c. Inr (call_name c))))
       (\<lambda>ms. rbind (deref_at ms module_index) (\<lambda>m. rbind (filled_at (m5_call m) i) (\<lambda>c. Inr (call_name c))))
       (\<lambda>ms. rbind (deref_at ms module_index) (\<lambda>m. rbind (filled_at (m6_call m) i) (\<lambda>c. Inr (call_name c))))
       (\<lambda>ms. rbind (deref_at ms module_index) (\<lambda>m. rbind (deref_at (m7_call m) i) (\<lambda>c. Inr (call_name c))))
       (Inr [])"

definition getCallMethodIndex :: "Metadata \<Rightarrow> int \<Rightarrow> string \<Rightarrow> int result" where
  "getCallMethodIndex meta module_index funcName =
     find_loop (call_name_at meta module_index) (lower funcName) COLLECTION_SIZE 0"

section \<open>Storage entries\<close>

definition isStateVariablePlain :: "Metadata \<Rightarrow> int \<Rightarrow> int \<Rightarrow> bool result" where
  "isStateVariablePlain meta module_index varIndex =
     on_version meta module_index
       (\<lambda>md. rbind (deref_at (md0_module md) module_index) (\<lambda>m.
             rbind (written (m0_storage m)) (\<lambda>st.
             rbind (elem_at (st0_function st) varIndex) (\<lambda>f.
             rbind (written (ft0_typeName (f0_type f))) (\<lambda>t. Inr (t = 0))))))
       (\<lambda>ms. rbind (deref_at ms module_index) (\<lambda>m.
             rbind (filled_at (m4_storage m) varIndex) (\<lambda>st. Inr (ft4_type (st4_type st) = 0))))
       (\<lambda>ms. rbind (deref_at ms module_index) (\<lambda>m.
             rbind (filled_at (m5_storage m) varIndex) (\<lambda>st. Inr (ft_type (st_type st) = 0))))
       (\<lambda>ms. rbind (deref_at ms module_index) (\<lambda>m.
             rbind (filled_at (m6_storage m) varIndex) (\<lambda>st. Inr (ft_type (st_type st) = 0))))
       (\<lambda>ms. rbind (deref_at ms module_index) (\<lambda>m. rbind (follow (m7_storage m)) (\<lambda>sc.
             rbind (deref_at (sc_items sc) varIndex) (\<lambda>st. Inr (ft_type (st_type st) = 0)))))
       (Inl (Throw (ApplicationException
         (''Module + State variable not found: '' @ print_int module_index @ '':'' @ print_int varIndex))))"

text \<open>
  The member \<^verbatim>\<open>hasher\<close> is a number in version 4, whose assignment to a string makes a string of one
  character, and a string in the later versions.
\<close>

definition hasher_name :: "Metadata \<Rightarrow> int \<Rightarrow> int \<Rightarrow> string result" where
  "hasher_name meta module_index method_index =
     (case metadataV4 meta of
        Some ms \<Rightarrow> rbind (deref_at ms module_index) (\<lambda>m. rbind (filled_at (m4_storage m) method_index) (\<lambda>st.
          rbind (written (ft4_hasher (st4_type st))) (\<lambda>h. Inr [char_of (uint h)])))
      | None \<Rightarrow> (case metadataV5 meta of
        Some ms \<Rightarrow> rbind (deref_at ms module_index) (\<lambda>m. rbind (filled_at (m5_storage m) method_index) (\<lambda>st.
          written (ft_hasher (st_type st))))
      | None \<Rightarrow> (case metadataV6 meta of
        Some ms \<Rightarrow> rbind (deref_at ms module_index) (\<lambda>m. rbind (filled_at (m6_storage m) method_index) (\<lambda>st.
          written (ft_hasher (st_type st))))
      | None \<Rightarrow> (case metadataV7 meta of
        Some ms \<Rightarrow> rbind (deref_at ms module_index) (\<lambda>m. rbind (follow (m7_storage m)) (\<lambda>sc.
          rbind (deref_at (sc_items sc) method_index) (\<lambda>st. written (ft_hasher (st_type st)))))
      | None \<Rightarrow> Inr []))))"

definition getFuncHasher :: "Metadata \<Rightarrow> string \<Rightarrow> string \<Rightarrow> Hasher result" where
  "getFuncHasher meta moduleName funcName =
     (if metadataV0 meta \<noteq> None then Inr XXHASH
      else
        rbind (getModuleIndex meta moduleName False) (\<lambda>module_index.
        rbind (if 0 \<le> module_index then
                 rbind (getStorageMethodIndex meta module_index funcName) (\<lambda>method_index.
                 if 0 < method_index then hasher_name meta module_index method_index else Inr [])
               else Inr []) (\<lambda>hasherStr.
        Inr (if hasherStr = ''Blake2_256'' then BLAKE2 else XXHASH))))"

text \<open>
  A constant of a module, which is taken from version 7 whatever the version is. The structure is
  copied before its name is compared.
\<close>

fun const_loop :: "Const list \<Rightarrow> string \<Rightarrow> nat \<Rightarrow> int \<Rightarrow> int result" where
  "const_loop cons constName 0 i = Inr (-1)"
| "const_loop cons constName (Suc n) i =
     rbind (elem_at cons i) (\<lambda>moduleConst.
     if cons_name moduleConst = c_str constName then fromHex_ll (cons_value moduleConst) False
     else const_loop cons constName n (i + 1))"

definition getMetadataConst :: "Metadata \<Rightarrow> string \<Rightarrow> string \<Rightarrow> int result" where
  "getMetadataConst meta module constName =
     rbind (getModuleIndex meta module False) (\<lambda>babeModuleIndex.
     rbind (follow (metadataV7 meta)) (\<lambda>ms.
     rbind (deref_at ms babeModuleIndex) (\<lambda>m.
     const_loop (m7_cons m) constName COLLECTION_SIZE 0)))"

text \<open>
  The key of a variable, plain or with the parameter \<open>jsonPrm\<close>. The member that holds the hash
  function is read last.
\<close>

definition getKeys :: "Metadata \<Rightarrow> Hasher result \<Rightarrow> string \<Rightarrow> string \<Rightarrow> string \<Rightarrow> string result" where
  "getKeys meta hasher jsonPrm module variable =
     rbind (getModuleIndex meta module False) (\<lambda>module_index.
     if module_index = -1 then Inl (Throw (ApplicationException ''Module not found''))
     else
       rbind (getStorageMethodIndex meta module_index variable) (\<lambda>variableIndex.
       if variableIndex = -1 then Inl (Throw (ApplicationException ''Variable not found''))
       else
         rbind (isStateVariablePlain meta module_index variableIndex) (\<lambda>is_plain.
         rbind hasher (\<lambda>h.
         if is_plain then getPlainStorageKey h (module @ '' '' @ variable)
         else getMappedStorageKey h jsonPrm (module @ '' '' @ variable)))))"

section \<open>The metadata of an answer\<close>

text \<open>Every version is tried on the text after \<^verbatim>\<open>0x\<close>; the lines the factory logs come with the result.\<close>

definition createMetadata :: "string list \<Rightarrow> json \<Rightarrow> (Metadata \<times> string list) result" where
  "createMetadata log jsonObject =
     rbind (substr_from (string_value jsonObject) 2) (\<lambda>hex.
     rbind (getMetadataV0 (setInputData hex (new_MetadataFactory log))) (\<lambda>(md0, mf).
     rbind (getMetadataV4 mf) (\<lambda>(md4, mf).
     rbind (getMetadataV5 mf) (\<lambda>(md5, mf).
     rbind (getMetadataV6 mf) (\<lambda>(md6, mf).
     rbind (getMetadataV7 mf) (\<lambda>(md7, mf).
     Inr (\<lparr>metadataV0 = md0, metadataV4 = md4, metadataV5 = md5, metadataV6 = md6, metadataV7 = md7\<rparr>, mf_log mf)))))))"

section \<open>The loops\<close>

lemma ptr_at_nat: "k < COLLECTION_SIZE \<Longrightarrow> ptr_at xs (int k) = Inr (if k < length xs then Some (xs ! k) else None)"
  by (simp add: ptr_at_def)

lemma deref_at_nat: "k < COLLECTION_SIZE \<Longrightarrow> k < length xs \<Longrightarrow> deref_at xs (int k) = Inr (xs ! k)"
  by (simp add: deref_at_def ptr_at_nat)

lemma deref_at_null: "k < COLLECTION_SIZE \<Longrightarrow> length xs \<le> k \<Longrightarrow> deref_at xs (int k) = Inl (Undefined NullDeref)"
  by (simp add: deref_at_def ptr_at_nat)

text \<open>The first match is returned, the first error stops the search, and no match gives -1.\<close>

lemma find_loop_found:
  assumes "\<forall>k. i \<le> k \<and> k \<le> p \<longrightarrow> name (int k) = Inr (s k)" "\<forall>k. i \<le> k \<and> k < p \<longrightarrow> target \<noteq> lower (s k)"
    and "target = lower (s p)" "i \<le> p" "p < i + n"
  shows "find_loop name target n (int i) = Inr (int p)"
  using assms
proof (induction n arbitrary: i)
  case (Suc n)
  have IH: "find_loop name target n (int (Suc i)) = Inr (int p)" if "i \<noteq> p"
    using Suc.prems that by (intro Suc.IH) simp_all
  then show ?case using Suc.prems by (cases "i = p") (simp_all add: add.commute)
qed simp

lemma find_loop_error:
  assumes "\<forall>k. i \<le> k \<and> k < p \<longrightarrow> name (int k) = Inr (s k) \<and> target \<noteq> lower (s k)"
    and "name (int p) = Inl e" "i \<le> p" "p < i + n"
  shows "find_loop name target n (int i) = Inl e"
  using assms
proof (induction n arbitrary: i)
  case (Suc n)
  have IH: "find_loop name target n (int (Suc i)) = Inl e" if "i \<noteq> p"
    using Suc.prems that by (intro Suc.IH) simp_all
  then show ?case using Suc.prems by (cases "i = p") (simp_all add: add.commute)
qed simp

lemma find_loop_none:
  assumes "\<forall>k. i \<le> k \<and> k < i + n \<longrightarrow> name (int k) = Inr (s k) \<and> target \<noteq> lower (s k)"
  shows "find_loop name target n (int i) = Inr (-1)"
  using assms
proof (induction n arbitrary: i)
  case (Suc n)
  have IH: "find_loop name target n (int (Suc i)) = Inr (-1)" using Suc.prems by (intro Suc.IH) simp
  then show ?case using Suc.prems by (simp add: add.commute)
qed simp

section \<open>Modules of any version\<close>

text \<open>
  What the search for a module needs of a version: the names of its modules, and whether a module
  has calls.
\<close>

locale module_table =
  fixes meta :: "'m list \<Rightarrow> Metadata"
    and name_of :: "'m \<Rightarrow> string"
    and calls :: "'m \<Rightarrow> bool"
  assumes name_law: "k < COLLECTION_SIZE \<Longrightarrow>
      name_at (meta ms) (int k) = Inr (if k < length ms then name_of (ms ! k) else [])"
    and calls_law: "k < COLLECTION_SIZE \<Longrightarrow> k < length ms \<Longrightarrow> hasMethods (meta ms) (int k) = Inr (calls (ms ! k))"
begin

lemma loop_found:
  assumes "length ms \<le> COLLECTION_SIZE" "j < length ms" "i \<le> j" "i + n = COLLECTION_SIZE"
    and "\<forall>k. i \<le> k \<and> k \<le> j \<longrightarrow> name_of (ms ! k) \<noteq> []" "\<forall>k. i \<le> k \<and> k < j \<longrightarrow> target \<noteq> lower (name_of (ms ! k))"
    and "target = lower (name_of (ms ! j))"
  shows "module_loop (meta ms) target skip n (int i) z =
    Inr (if skip then int j - (z + int (length (filter (\<lambda>m. \<not> calls m) (take (Suc j - i) (drop i ms))))) else int j)"
  using assms
proof (induction n arbitrary: i z)
  case (Suc n)
  have i: "i < length ms" "i < COLLECTION_SIZE" using Suc.prems by simp_all
  have step: "drop i ms = ms ! i # drop (Suc i) ms" using i by (simp add: Cons_nth_drop_Suc)
  have t: "Suc j - i = Suc (j - i)" using Suc.prems by simp
  show ?case
  proof (cases "i = j")
    case True
    moreover have "take (Suc 0) (drop i ms) = [ms ! i]" using step by simp
    ultimately show ?thesis using Suc.prems i by (simp add: name_law calls_law Let_def)
  next
    case False
    then have "module_loop (meta ms) target skip n (int (Suc i)) z' =
      Inr (if skip then int j - (z' + int (length (filter (\<lambda>m. \<not> calls m) (take (Suc j - Suc i) (drop (Suc i) ms))))) else int j)" for z'
      using Suc.prems by (intro Suc.IH) simp_all
    then show ?thesis using Suc.prems i False t by (simp add: name_law calls_law Let_def step add.commute)
  qed
qed simp

lemma loop_absent:
  assumes "i + n = COLLECTION_SIZE" "\<forall>k. i \<le> k \<and> k < length ms \<longrightarrow> target \<noteq> lower (name_of (ms ! k))"
  shows "module_loop (meta ms) target skip n (int i) z = Inr (-1)"
  using assms
proof (induction n arbitrary: i z)
  case (Suc n)
  have "module_loop (meta ms) target skip n (int (Suc i)) z' = Inr (-1)" for z'
    using Suc.prems by (intro Suc.IH) simp_all
  then show ?case using Suc.prems by (simp add: name_law calls_law Let_def add.commute)
qed simp

lemma getModuleIndex_found:
  assumes "length ms \<le> COLLECTION_SIZE" "j < length ms" "\<forall>k \<le> j. name_of (ms ! k) \<noteq> []"
    and "lower (name_of (ms ! j)) = lower moduleName" "\<forall>k < j. lower (name_of (ms ! k)) \<noteq> lower moduleName"
  shows "getModuleIndex (meta ms) moduleName False = Inr (int j)"
    and "calls (ms ! j) \<Longrightarrow> getModuleIndex (meta ms) moduleName True = Inr (int (length (filter calls (take j ms))))"
proof -
  have loop: "module_loop (meta ms) (lower moduleName) skip COLLECTION_SIZE (int 0) 0 =
    Inr (if skip then int j - (0 + int (length (filter (\<lambda>m. \<not> calls m) (take (Suc j - 0) (drop 0 ms))))) else int j)" for skip
    using assms by (intro loop_found) auto
  show "getModuleIndex (meta ms) moduleName False = Inr (int j)"
    unfolding getModuleIndex_def using loop [of False] by simp
  assume "calls (ms ! j)"
  then have "length (filter (\<lambda>m. \<not> calls m) (take (Suc j) ms)) = length (filter (\<lambda>m. \<not> calls m) (take j ms))"
    using assms(2) by (simp add: take_Suc_conv_app_nth)
  moreover have "length (filter calls (take j ms)) + length (filter (\<lambda>m. \<not> calls m) (take j ms)) = j"
    using sum_length_filter_compl [of calls "take j ms"] assms(2) by simp
  ultimately show "getModuleIndex (meta ms) moduleName True = Inr (int (length (filter calls (take j ms))))"
    unfolding getModuleIndex_def using loop [of True] by simp
qed

lemma getModuleIndex_absent:
  "\<forall>m \<in> set ms. lower (name_of m) \<noteq> lower moduleName \<Longrightarrow> getModuleIndex (meta ms) moduleName skip = Inr (-1)"
  unfolding getModuleIndex_def using loop_absent [of 0 COLLECTION_SIZE ms "lower moduleName" skip 0]
  by (simp add: eq_commute [of "lower moduleName"])

end

text \<open>The metadata with one version set, and the four versions whose modules are counted by their calls.\<close>

abbreviation no_metadata :: Metadata where
  "no_metadata \<equiv> \<lparr>metadataV0 = None, metadataV4 = None, metadataV5 = None, metadataV6 = None, metadataV7 = None\<rparr>"

definition only_V4 :: "MDV4 \<Rightarrow> Metadata" where "only_V4 ms = no_metadata\<lparr>metadataV4 := Some ms\<rparr>"
definition only_V5 :: "MDV5 \<Rightarrow> Metadata" where "only_V5 ms = no_metadata\<lparr>metadataV5 := Some ms\<rparr>"
definition only_V6 :: "MDV6 \<Rightarrow> Metadata" where "only_V6 ms = no_metadata\<lparr>metadataV6 := Some ms\<rparr>"
definition only_V7 :: "MDV7 \<Rightarrow> Metadata" where "only_V7 ms = no_metadata\<lparr>metadataV7 := Some ms\<rparr>"

lemmas only_defs = only_V4_def only_V5_def only_V6_def only_V7_def

lemma first_ptr: "ptr_at xs 0 = Inr (if xs = [] then None else Some (hd xs))"
  by (cases xs) (simp_all add: ptr_at_def COLLECTION_SIZE_def)

interpretation modules_V4: module_table only_V4 m4_name "\<lambda>m. m4_call m \<noteq> []"
  by unfold_locales
    (simp_all add: name_at_def hasMethods_def on_version_def version_branch_def only_defs ptr_at_nat deref_at_nat first_ptr)

interpretation modules_V5: module_table only_V5 m5_name "\<lambda>m. m5_call m \<noteq> []"
  by unfold_locales
    (simp_all add: name_at_def hasMethods_def on_version_def version_branch_def only_defs ptr_at_nat deref_at_nat first_ptr)

interpretation modules_V6: module_table only_V6 m6_name "\<lambda>m. m6_call m \<noteq> []"
  by unfold_locales
    (simp_all add: name_at_def hasMethods_def on_version_def version_branch_def only_defs ptr_at_nat deref_at_nat first_ptr)

interpretation modules_V7: module_table only_V7 m7_name "\<lambda>m. m7_call m \<noteq> []"
  by unfold_locales
    (simp_all add: name_at_def hasMethods_def on_version_def version_branch_def only_defs ptr_at_nat deref_at_nat first_ptr)

section \<open>Storage entries of version 7\<close>

lemma storage_name_V7:
  assumes "j < length ms" "length ms \<le> COLLECTION_SIZE" "m7_storage (ms ! j) = Some sc" "k < COLLECTION_SIZE"
  shows "storage_name (only_V7 ms) (int j) (int k) =
    (if length ms \<le> k then Inr []
     else if k < length (sc_items sc) then Inr (st_name (sc_items sc ! k)) else Inl (Undefined NullDeref))"
  using assms
  by (simp add: storage_name_def on_version_def version_branch_def only_V7_def ptr_at_nat deref_at_nat follow_def
      deref_at_null)

definition first_match :: "('a \<Rightarrow> bool) \<Rightarrow> 'a list \<Rightarrow> nat" where
  "first_match P xs = length (takeWhile (\<lambda>x. \<not> P x) xs)"

lemma first_match_before: "k < first_match P xs \<Longrightarrow> \<not> P (xs ! k)"
  unfolding first_match_def by (metis nth_mem set_takeWhileD takeWhile_nth)

lemma first_match_at: "first_match P xs < length xs \<Longrightarrow> P (xs ! first_match P xs)"
  unfolding first_match_def using nth_length_takeWhile by fastforce

lemma first_match_le: "first_match P xs \<le> length xs"
  unfolding first_match_def by (rule length_takeWhile_le)

text \<open>The search for a storage entry, for every module and every name.\<close>

lemma getStorageMethodIndex_search:
  assumes ms: "j < length ms" "length ms \<le> COLLECTION_SIZE" "m7_storage (ms ! j) = Some sc"
    and items: "length (sc_items sc) \<le> COLLECTION_SIZE" and f: "funcName \<noteq> []"
  defines "p \<equiv> first_match (\<lambda>st. lower (st_name st) = lower funcName) (sc_items sc)"
  shows "getStorageMethodIndex (only_V7 ms) (int j) funcName =
    (if p < length (sc_items sc) \<and> p < length ms then Inr (int p)
     else if length (sc_items sc) < length ms then Inl (Undefined NullDeref) else Inr (-1))"
proof -
  let ?name = "storage_name (only_V7 ms) (int j)"
  define s where "s k = (if length ms \<le> k then [] else st_name (sc_items sc ! k))" for k
  have name: "?name (int k) = Inr (s k)" if "k < length (sc_items sc) \<or> length ms \<le> k" "k < COLLECTION_SIZE" for k
    using storage_name_V7 [OF ms that(2)] that(1) by (auto simp: s_def)
  have differs: "lower funcName \<noteq> lower (s k)" if "k < p \<or> length ms \<le> k" for k
    using first_match_before [of k "\<lambda>st. lower (st_name st) = lower funcName" "sc_items sc"] that f by (auto simp: p_def s_def)
  have p: "p \<le> length (sc_items sc)" unfolding p_def by (rule first_match_le)
  consider "p < length (sc_items sc)" "p < length ms" | "\<not> (p < length (sc_items sc) \<and> p < length ms)" "length (sc_items sc) < length ms"
    | "\<not> (p < length (sc_items sc) \<and> p < length ms)" "length ms \<le> length (sc_items sc)" by linarith
  then show ?thesis
  proof cases
    case 1
    then have "lower funcName = lower (s p)"
      using first_match_at [of "\<lambda>st. lower (st_name st) = lower funcName" "sc_items sc"] by (simp add: p_def s_def)
    with 1 show ?thesis unfolding getStorageMethodIndex_def
      using find_loop_found [of 0 p ?name s "lower funcName" COLLECTION_SIZE] name differs items by simp
  next
    case 2
    then have "p = length (sc_items sc)" using p by linarith
    then have "?name (int p) = Inl (Undefined NullDeref)" using storage_name_V7 [OF ms, of p] 2(2) ms(2) by simp
    with 2 \<open>p = _\<close> show ?thesis unfolding getStorageMethodIndex_def
      using find_loop_error [of 0 p ?name s "lower funcName" _ COLLECTION_SIZE] name differs items ms(2) by simp
  next
    case 3
    then have "length ms \<le> p" using p by linarith
    then have "lower funcName \<noteq> lower (s k)" "?name (int k) = Inr (s k)" if "k < COLLECTION_SIZE" for k
      using differs [of k] name [of k] that 3(2) by (cases "length ms \<le> k"; simp)+
    with 3 show ?thesis unfolding getStorageMethodIndex_def
      using find_loop_none [of 0 COLLECTION_SIZE ?name s "lower funcName"] by simp
  qed
qed

section \<open>The hash function of an entry\<close>

lemma find_loop_result: "find_loop name target n i = Inr k \<Longrightarrow> k \<noteq> -1 \<Longrightarrow> \<exists>s. name k = Inr s \<and> target = lower s"
proof (induction n arbitrary: i)
  case (Suc n)
  obtain s where s: "name i = Inr s" "(if target = lower s then Inr i else find_loop name target n (i + 1)) = Inr k"
    using Suc.prems(1) by auto
  then show ?case using Suc.IH [of "i + 1"] Suc.prems(2) by (cases "target = lower s") auto
qed simp

lemma deref_at_in: "deref_at xs i = Inr x \<Longrightarrow> x \<in> set xs"
proof -
  assume "deref_at xs i = Inr x"
  then have "ptr_at xs i = Inr (Some x)" by (auto simp: deref_at_def split: option.splits)
  then show ?thesis by (auto simp: ptr_at_def split: if_splits)
qed

text \<open>An entry that was found was never given a hasher.\<close>

lemma hasher_unwritten:
  assumes "fillV7Metadata hex = Inr ms" "storage_name (only_V7 ms) i k = Inr (c # cs)"
  shows "hasher_name (only_V7 ms) i k = Inl (Undefined Uninitialised)"
proof -
  obtain m sc st where m: "deref_at ms i = Inr m" "m7_storage m = Some sc" "deref_at (sc_items sc) k = Inr st"
    using assms(2)
    by (auto simp: storage_name_def on_version_def version_branch_def only_V7_def follow_def split: option.splits if_splits)
  have "ok_moduleV7 m"
    using fillV7_ok [OF assms(1)] deref_at_in [OF m(1)] by (simp add: wf_vec_def list_all_iff)
  then have "ft_hasher (st_type st) = None"
    using deref_at_in [OF m(3)] m(2) by (simp add: ok_moduleV7_def wf_vec_def list_all_iff ok_storage_def)
  then show ?thesis using m by (simp add: hasher_name_def only_V7_def follow_def written_def)
qed

lemma getFuncHasher_search:
  assumes "fillV7Metadata hex = Inr ms" "getModuleIndex (only_V7 ms) moduleName False = Inr i" "0 \<le> i"
    and "getStorageMethodIndex (only_V7 ms) i funcName = Inr k" "0 < k" "funcName \<noteq> []"
  shows "getFuncHasher (only_V7 ms) moduleName funcName = Inl (Undefined Uninitialised)"
proof -
  obtain s where s: "storage_name (only_V7 ms) i k = Inr s" "lower funcName = lower s"
    using find_loop_result assms(4,5) unfolding getStorageMethodIndex_def by fastforce
  then obtain c cs where "s = c # cs" using assms(6) by (cases s) auto
  then have "hasher_name (only_V7 ms) i k = Inl (Undefined Uninitialised)"
    using hasher_unwritten assms(1) s(1) by blast
  then show ?thesis using assms(2-5) by (simp add: getFuncHasher_def) (simp add: only_V7_def)
qed

section \<open>Properties\<close>

definition sample_modules :: MDV7 where
  "sample_modules =
     (let call = \<lparr>call_name = ''transfer'', call_args = [], call_documentation = []\<rparr>;
          entry = \<lambda>name. \<lparr>st_name = name, st_modifier = 0, st_type = \<lparr>ft_type = 0, ft_hasher = None, ft_key1 = ''T'',
            ft_key2 = None, ft_value = None, ft_key2hasher = None, ft_isLinked = None\<rparr>, st_fallback = [], st_documentation = []\<rparr>
      in [\<lparr>m7_name = ''System'', m7_storage = None, m7_call = [call], m7_ev = [], m7_cons = []\<rparr>,
          \<lparr>m7_name = ''Babe'', m7_storage = None, m7_call = [], m7_ev = [], m7_cons = []\<rparr>,
          \<lparr>m7_name = ''Balances'', m7_storage = Some \<lparr>sc_prefix = ''Balances'', sc_items = [entry ''Total'', entry ''FreeBalance'']\<rparr>,
            m7_call = [call], m7_ev = [], m7_cons = []\<rparr>])"

text \<open>Two modules of which the first has two storage entries, as the node sends them.\<close>

definition sample_hex :: string where
  "sample_hex = ''6d6574610708046d0104700804610000047400000462000004740000000000046e00000000''"



text \<open>
  C35: the search for a storage entry of a module tests the module at the index of the entry. With
  \<open>n\<close> modules it finds the first entry of that name only among the first \<open>n\<close> entries; where there
  is none it follows a null pointer if the module has fewer than \<open>n\<close> entries.
\<close>

theorem getStorageMethodIndex_V7:
  fixes funcName :: string
  assumes "j < length ms" "length ms \<le> COLLECTION_SIZE" "m7_storage (ms ! j) = Some sc"
    and "length (sc_items sc) \<le> COLLECTION_SIZE" "funcName \<noteq> []"
  defines "p \<equiv> first_match (\<lambda>st. lower (st_name st) = lower funcName) (sc_items sc)"
  shows "getStorageMethodIndex (only_V7 ms) (int j) funcName =
    (if p < length (sc_items sc) \<and> p < length ms then Inr (int p)
     else if length (sc_items sc) < length ms then Inl (Undefined NullDeref) else Inr (-1))"
  unfolding p_def by (rule getStorageMethodIndex_search) fact+

theorem getStorageMethodIndex_V7_witness:
  "getStorageMethodIndex (only_V7 sample_modules) 2 ''freeBalance'' = Inr 1 \<and>
   getStorageMethodIndex (only_V7 sample_modules) 2 ''Vesting'' = Inl (Undefined NullDeref)"
proof -
  define sc where "sc = the (m7_storage (sample_modules ! 2))"
  have sc: "m7_storage (sample_modules ! 2) = Some sc" unfolding sc_def by code_simp
  have l: "length sample_modules = 3" by code_simp
  have i: "length (sc_items sc) = 2" unfolding sc_def by code_simp
  have f: "first_match (\<lambda>st. lower (st_name st) = lower ''freeBalance'') (sc_items sc) = 1" unfolding sc_def by code_simp
  have v: "first_match (\<lambda>st. lower (st_name st) = lower ''Vesting'') (sc_items sc) = 2" unfolding sc_def by code_simp
  show ?thesis
    using getStorageMethodIndex_V7 [of 2 sample_modules sc "''freeBalance''"]
      getStorageMethodIndex_V7 [of 2 sample_modules sc "''Vesting''"] sc l i f v
    by (simp add: COLLECTION_SIZE_def)
qed

text \<open>
  C36: for every version 7 blob the factory reads, the hash function of a storage entry that is found
  past the first place is read from memory that was never written, and \<^verbatim>\<open>getFuncHasher\<close> never
  returns \<^verbatim>\<open>BLAKE2\<close>.
\<close>

theorem getFuncHasher_V7:
  assumes "fillV7Metadata hex = Inr ms" "funcName \<noteq> []"
    and "getModuleIndex (only_V7 ms) moduleName False = Inr i" "getStorageMethodIndex (only_V7 ms) i funcName = Inr k"
    and "0 \<le> i"
  shows "getFuncHasher (only_V7 ms) moduleName funcName = (if 0 < k then Inl (Undefined Uninitialised) else Inr XXHASH)"
proof (cases "0 < k")
  case True
  then show ?thesis using getFuncHasher_search assms by simp
next
  case False
  then show ?thesis using assms(3-5) by (simp add: getFuncHasher_def only_V7_def)
qed

theorem getFuncHasher_V7_witness:
  "rbind (fillV7Metadata sample_hex) (\<lambda>ms. getFuncHasher (only_V7 ms) ''m'' ''b'') = Inl (Undefined Uninitialised)"
proof -
  have "rbind (fillV7Metadata sample_hex) (\<lambda>ms. getModuleIndex (only_V7 ms) ''m'' False) = Inr 0" by code_simp
  then obtain ms where ms: "fillV7Metadata sample_hex = Inr ms" "getModuleIndex (only_V7 ms) ''m'' False = Inr 0" by auto
  have "rbind (fillV7Metadata sample_hex) (\<lambda>ms. getStorageMethodIndex (only_V7 ms) 0 ''b'') = Inr 1" by code_simp
  with ms have "getStorageMethodIndex (only_V7 ms) 0 ''b'' = Inr 1" by simp
  then show ?thesis using getFuncHasher_V7 [OF ms(1) _ ms(2), of "''b''" 1] ms(1) by simp
qed

end
