(* ===== verification/Responses.thy ===== *)
theory Responses
  imports Json Converters Codec Storage
begin

text \<open>
  The objects that \<^verbatim>\<open>src/application.cpp\<close> makes from the node's answers, with the structures of
  \<^verbatim>\<open>src/structs\<close>: system information, block hashes and headers, runtime version, health, peers and
  network state. A \<^verbatim>\<open>char[STRING_SIZE]\<close> member is the C string in it. An array is the list of the
  elements written from the front; the others are zero, since every structure is cleared first.
\<close>

abbreviation MAX_PEER_COUNT :: nat where "MAX_PEER_COUNT \<equiv> 256"

section \<open>Data\<close>

record SystemInfo =
  chainId :: string
  chainName :: string
  si_version :: string
  tokenDecimals :: int
  tokenSymbol :: string

record BlockHash =
  bh_hash :: string

record ApiItem =
  api_num :: string
  api_id :: int

record RuntimeVersion =
  rv_api :: "ApiItem list"
  authoringVersion :: "32 word"
  implName :: string
  implVersion :: int
  specName :: string
  specVersion :: int

record BlockHeader =
  parentHash :: string
  bh_number :: "64 word"
  stateRoot :: string
  extrinsicsRoot :: string
  digest :: "string list"

record SignedBlock =
  sb_header :: BlockHeader
  sb_extrinsic :: "string list"
  justification :: string

record FinalHead =
  fh_blockHash :: string

record SystemHealth =
  sh_peers :: int
  isSyncing :: bool
  shouldHavePeers :: bool

record PeerInfo =
  bestHash :: string
  bestNumber :: "64 word"
  pi_peerId :: string
  protocolVersion :: "32 word"
  roles :: string

record PeersInfo =
  pi_count :: int
  pi_peers :: "PeerInfo list"

record ConnectedPeer =
  cp_key :: string
  cp_enabled :: bool
  cp_dialing :: string
  cp_knownAddresses :: "string list"
  cp_nanos :: "64 word"
  cp_secs :: "64 word"
  cp_open :: bool
  cp_versionString :: string

record NotConnectedPeer =
  ncp_key :: string
  ncp_knownAddresses :: "string list"

record NetworkState =
  AverageDownloadPerSec :: "32 word"
  AverageUploadPerSec :: "32 word"
  connectedPeers :: "ConnectedPeer list"
  externalAddresses :: "string list"
  listenedAddresses :: "string list"
  notConnectedPeers :: "NotConnectedPeer list"
  ns_peerId :: string
  ns_peerset :: string

record StorageItem =
  si_key :: string
  si_blockHash :: string
  si_value :: string

section \<open>Idioms\<close>

text \<open>\<^verbatim>\<open>strcpy(dst, json.string_value().c_str())\<close>.\<close>

definition copy_string :: "json \<Rightarrow> string result" where
  "copy_string j = strcpy_to STRING_SIZE (string_value j)"

text \<open>\<^verbatim>\<open>int i = 0; for (item : items) { ...[i]...; i++; }\<close> into an array of \<open>cap\<close> elements.\<close>

fun fill_array :: "nat \<Rightarrow> ('a \<Rightarrow> 'b result) \<Rightarrow> nat \<Rightarrow> 'a list \<Rightarrow> 'b list result" where
  "fill_array cap f i [] = Inr []"
| "fill_array cap f i (item # items) =
     (if i < cap then rbind (f item) (\<lambda>x. rbind (fill_array cap f (i + 1) items) (\<lambda>xs. Inr (x # xs)))
      else Inl (Undefined OutOfBounds))"

definition copy_strings :: "json \<Rightarrow> string list result" where
  "copy_strings j = fill_array COLLECTION_SIZE copy_string 0 (array_items j)"

section \<open>Readers\<close>

definition createSystemInfo :: "json \<Rightarrow> SystemInfo result" where
  "createSystemInfo jsonObject =
     rbind (copy_string (at_index jsonObject 0)) (\<lambda>name.
     rbind (copy_string (at_index jsonObject 1)) (\<lambda>chain.
     rbind (copy_string (at_index jsonObject 2)) (\<lambda>version.
     rbind (int_value (at_key (at_index jsonObject 3) ''tokenDecimals'')) (\<lambda>decimals.
     rbind (copy_string (at_key (at_index jsonObject 3) ''tokenSymbol'')) (\<lambda>symbol.
     Inr \<lparr>chainId = chain, chainName = name, si_version = version, tokenDecimals = decimals, tokenSymbol = symbol\<rparr>)))))"

definition createBlockHash :: "json \<Rightarrow> BlockHash result" where
  "createBlockHash jsonObject = rbind (copy_string jsonObject) (\<lambda>h. Inr \<lparr>bh_hash = h\<rparr>)"

definition createRuntimeVersion :: "json \<Rightarrow> RuntimeVersion result" where
  "createRuntimeVersion jsonObject =
     rbind (copy_string (at_key jsonObject ''specName'')) (\<lambda>spec.
     rbind (copy_string (at_key jsonObject ''implName'')) (\<lambda>impl.
     rbind (int_value (at_key jsonObject ''authoringVersion'')) (\<lambda>authoring.
     rbind (int_value (at_key jsonObject ''specVersion'')) (\<lambda>specV.
     rbind (int_value (at_key jsonObject ''implVersion'')) (\<lambda>implV.
     rbind (fill_array COLLECTION_SIZE
       (\<lambda>item. rbind (copy_string (at_index item 0)) (\<lambda>num.
               rbind (int_value (at_index item 1)) (\<lambda>i. Inr \<lparr>api_num = num, api_id = i\<rparr>)))
       0 (array_items (at_key jsonObject ''apis''))) (\<lambda>api.
     Inr \<lparr>rv_api = api, authoringVersion = word_of_int authoring, implName = impl, implVersion = implV,
          specName = spec, specVersion = specV\<rparr>))))))"

definition decodeBlockHeader :: "json \<Rightarrow> BlockHeader result" where
  "decodeBlockHeader jsonObject =
     rbind (copy_string (at_key jsonObject ''parentHash'')) (\<lambda>parent.
     rbind (fromHex_ll (string_value (at_key jsonObject ''number'')) True) (\<lambda>number.
     rbind (copy_string (at_key jsonObject ''stateRoot'')) (\<lambda>state.
     rbind (copy_string (at_key jsonObject ''extrinsicsRoot'')) (\<lambda>extrinsics.
     rbind (copy_strings (at_key (at_key jsonObject ''digest'') ''logs'')) (\<lambda>logs.
     Inr \<lparr>parentHash = parent, bh_number = word_of_int number, stateRoot = state, extrinsicsRoot = extrinsics,
          digest = logs\<rparr>)))))"

definition createBlock :: "json \<Rightarrow> SignedBlock result" where
  "createBlock jsonObject =
     rbind (decodeBlockHeader (at_key (at_key jsonObject ''block'') ''header'')) (\<lambda>header.
     rbind (copy_strings (at_key jsonObject ''extrinsics'')) (\<lambda>extrinsics.
     rbind (copy_string (at_key jsonObject ''justification'')) (\<lambda>just.
     Inr \<lparr>sb_header = header, sb_extrinsic = extrinsics, justification = just\<rparr>)))"

text \<open>The number is taken from the decimal digits at the start of the parent hash.\<close>

definition createBlockHeader :: "json \<Rightarrow> BlockHeader result" where
  "createBlockHeader jsonObject =
     rbind (copy_string (at_key jsonObject ''parentHash'')) (\<lambda>parent.
     rbind (substr_from (string_value (at_key jsonObject ''parentHash'')) 2) (\<lambda>digits.
     rbind (atoi128 digits) (\<lambda>number.
     rbind (copy_string (at_key jsonObject ''stateRoot'')) (\<lambda>state.
     rbind (copy_string (at_key jsonObject ''extrinsicsRoot'')) (\<lambda>extrinsics.
     rbind (copy_strings (at_key (at_key jsonObject ''digest'') ''logs'')) (\<lambda>logs.
     Inr \<lparr>parentHash = parent, bh_number = (case number of Some n \<Rightarrow> ucast n | None \<Rightarrow> 0), stateRoot = state,
          extrinsicsRoot = extrinsics, digest = logs\<rparr>))))))"

definition createFinalHead :: "json \<Rightarrow> FinalHead result" where
  "createFinalHead jsonObject = rbind (copy_string jsonObject) (\<lambda>h. Inr \<lparr>fh_blockHash = h\<rparr>)"

definition createSystemHealth :: "json \<Rightarrow> SystemHealth result" where
  "createSystemHealth jsonObject =
     rbind (int_value (at_key jsonObject ''peers'')) (\<lambda>p.
     Inr \<lparr>sh_peers = p, isSyncing = bool_value (at_key jsonObject ''isSyncing''),
          shouldHavePeers = bool_value (at_key jsonObject ''shouldHavePeers'')\<rparr>)"

definition connected_peer :: "string \<times> json \<Rightarrow> ConnectedPeer result" where
  "connected_peer item = (case item of (key, info) \<Rightarrow>
     rbind (strcpy_to STRING_SIZE key) (\<lambda>k.
     rbind (copy_string (at_key info ''dialing'')) (\<lambda>dialing.
     rbind (copy_strings (at_key info ''knownAddresses'')) (\<lambda>known.
     rbind (int_value (at_key (at_key info ''latestPingTime'') ''nanos'')) (\<lambda>nanos.
     rbind (int_value (at_key (at_key info ''latestPingTime'') ''secs'')) (\<lambda>secs.
     rbind (copy_string (at_key info ''versionString'')) (\<lambda>version.
     Inr \<lparr>cp_key = k, cp_enabled = bool_value (at_key info ''enabled''), cp_dialing = dialing, cp_knownAddresses = known,
          cp_nanos = word_of_int nanos, cp_secs = word_of_int secs, cp_open = bool_value (at_key info ''open''),
          cp_versionString = version\<rparr>)))))))"

text \<open>
  The loop over the peers that are not connected does not advance its index: every peer is written
  over the first element, where the addresses of an earlier peer stay past those of a later one.
\<close>

fun not_connected_loop :: "(string \<times> json) list \<Rightarrow> NotConnectedPeer list \<Rightarrow> NotConnectedPeer list result" where
  "not_connected_loop [] peers = Inr peers"
| "not_connected_loop ((key, info) # items) peers =
     rbind (strcpy_to STRING_SIZE key) (\<lambda>k.
     rbind (copy_strings (at_key info ''knownAddresses'')) (\<lambda>known.
     (let old = (case peers of [] \<Rightarrow> [] | p # _ \<Rightarrow> ncp_knownAddresses p) in
      not_connected_loop items [\<lparr>ncp_key = k, ncp_knownAddresses = known @ drop (length known) old\<rparr>])))"

definition createNetworkState :: "json \<Rightarrow> NetworkState result" where
  "createNetworkState jsonObject =
     rbind (int_value (at_key jsonObject ''averageDownloadPerSec'')) (\<lambda>down.
     rbind (int_value (at_key jsonObject ''averageUploadPerSec'')) (\<lambda>up.
     rbind (fill_array COLLECTION_SIZE connected_peer 0 (object_items (at_key jsonObject ''connectedPeers''))) (\<lambda>connected.
     rbind (copy_strings (at_key jsonObject ''externalAddresses'')) (\<lambda>external.
     rbind (copy_strings (at_key jsonObject ''listenedAddresses'')) (\<lambda>listened.
     rbind (not_connected_loop (object_items (at_key jsonObject ''notConnectedPeers'')) []) (\<lambda>not_connected.
     rbind (copy_string (at_key jsonObject ''peerId'')) (\<lambda>peer.
     rbind (copy_string (at_key jsonObject ''peerset'')) (\<lambda>peerset.
     Inr \<lparr>AverageDownloadPerSec = word_of_int down, AverageUploadPerSec = word_of_int up, connectedPeers = connected,
          externalAddresses = external, listenedAddresses = listened, notConnectedPeers = not_connected,
          ns_peerId = peer, ns_peerset = peerset\<rparr>))))))))"

definition peer_info :: "json \<Rightarrow> PeerInfo result" where
  "peer_info item =
     rbind (copy_string (at_key item ''bestHash'')) (\<lambda>best.
     rbind (int_value (at_key item ''bestNumber'')) (\<lambda>number.
     rbind (copy_string (at_key item ''peerId'')) (\<lambda>peer.
     rbind (int_value (at_key item ''protocolVersion'')) (\<lambda>version.
     rbind (copy_string (at_key item ''roles'')) (\<lambda>r.
     Inr \<lparr>bestHash = best, bestNumber = word_of_int number, pi_peerId = peer, protocolVersion = word_of_int version,
          roles = r\<rparr>)))))"

definition createPeerInfo :: "json \<Rightarrow> PeersInfo result" where
  "createPeerInfo jsonObject =
     (let items = array_items jsonObject; count = to_int32 (int (length items)) in
      if count > int MAX_PEER_COUNT
      then Inl (Throw (ApplicationException
        (''Number of records exceeded '' @ print_int (int MAX_PEER_COUNT) @ ''actual value: '' @ print_int count)))
      else rbind (fill_array MAX_PEER_COUNT peer_info 0 items) (\<lambda>peers. Inr \<lparr>pi_count = count, pi_peers = peers\<rparr>))"

text \<open>
  The items of a storage query: as many elements of the answer, up to the first that is null, as the
  caller's buffer takes.
\<close>

fun query_loop :: "json \<Rightarrow> nat \<Rightarrow> nat \<Rightarrow> StorageItem list result" where
  "query_loop response i 0 = Inr []"
| "query_loop response i (Suc n) =
     (if dump (at_index response i) \<noteq> ''null'' then
        rbind (copy_string (at_key (at_index response i) ''block'')) (\<lambda>block.
        rbind (copy_string (at_index (at_index (at_key (at_index response i) ''changes'') 0) 0)) (\<lambda>key.
        rbind (copy_string (at_index (at_index (at_key (at_index response i) ''changes'') 0) 1)) (\<lambda>val.
        rbind (query_loop response (i + 1) n) (\<lambda>items.
        Inr (\<lparr>si_key = key, si_blockHash = block, si_value = val\<rparr> # items)))))
      else Inr [])"

text \<open>
  \<^verbatim>\<open>deserialize\<close>: an exception of a reader becomes an \<^verbatim>\<open>ApplicationException\<close> with its text; the texts
  of the standard library's exceptions are the argument \<open>std_what\<close>.
\<close>

fun exn_what :: "(exn \<Rightarrow> string) \<Rightarrow> exn \<Rightarrow> string" where
  "exn_what std_what (CompactIntegerException s) = c_str s"
| "exn_what std_what (ApplicationException s) = c_str s"
| "exn_what std_what (JsonRpcException s) = c_str s"
| "exn_what std_what e = std_what e"

definition deserialize :: "(exn \<Rightarrow> string) \<Rightarrow> (json \<Rightarrow> 'a result) \<Rightarrow> json \<Rightarrow> 'a result" where
  "deserialize std_what F jsonObject = (case F jsonObject of
     Inl (Throw e) \<Rightarrow> Inl (Throw (ApplicationException (''Cannot deserialize data '' @ exn_what std_what e)))
   | r \<Rightarrow> r)"

end
