(* ===== verification/JsonRpc.thy ===== *)
theory JsonRpc
  imports JsonProps MapQueue
begin

text \<open>
  The JSON-RPC client, \<^verbatim>\<open>src/jsonrpc.cpp\<close>: requests with increasing ids, the map of the queries that
  wait for an answer, the routing of incoming messages, and subscriptions. A request is a thread with
  its steps; the thread that reads the socket runs \<^verbatim>\<open>handleMessage\<close>. The websocket client is another
  component behind an interface; whether it is connected is an input of a step, and the text it sends
  is recorded.

  A condition variable lives on the stack of its request: it exists until the request returns or
  throws, and a notification after that is a use after free. A notification reaches a request only
  while it waits.
\<close>

abbreviation PAPI_OK :: int where "PAPI_OK \<equiv> 0"
abbreviation PAPI_NO_CONNECTION :: int where "PAPI_NO_CONNECTION \<equiv> 1"
abbreviation RESPONSE_QUEUE_MAX_SIZE :: int where "RESPONSE_QUEUE_MAX_SIZE \<equiv> 128"
abbreviation INT_MAX :: int where "INT_MAX \<equiv> 2147483647"

section \<open>The object\<close>

text \<open>Of a \<^verbatim>\<open>JsonRpcQuery\<close> the answer; its condition variable is the one of the request with its id.\<close>

record 'o rpc =
  rpc_jsonrpcVersion :: string
  rpc_lastId :: "32 word"
  rpc_queries :: "(int \<times> json) list"
  rpc_wsSubscribers :: "(int \<times> 'o) list"
  rpc_log :: "string list"

definition CJsonRpc :: "string \<Rightarrow> 'o rpc" where
  "CJsonRpc version = \<lparr>rpc_jsonrpcVersion = version, rpc_lastId = 0, rpc_queries = [], rpc_wsSubscribers = [], rpc_log = []\<rparr>"

definition rpc_info :: "string \<Rightarrow> 'o rpc \<Rightarrow> 'o rpc" where
  "rpc_info line r = r\<lparr>rpc_log := rpc_log r @ [line]\<rparr>"

definition map_erase :: "'k \<Rightarrow> ('k \<times> 'a) list \<Rightarrow> ('k \<times> 'a) list" where
  "map_erase k kvs = filter (\<lambda>(k', v). k' \<noteq> k) kvs"

definition getNextId :: "'o rpc \<Rightarrow> int \<times> 'o rpc" where
  "getNextId r = (sint (rpc_lastId r + 1), r\<lparr>rpc_lastId := rpc_lastId r + 1\<rparr>)"

text \<open>\<^verbatim>\<open>connect\<close>, from what the websocket client returns and whether it is connected then.\<close>

definition rpc_connect_result :: "int \<Rightarrow> bool \<Rightarrow> int" where
  "rpc_connect_result err connected = (if err = 0 \<and> connected then PAPI_OK else PAPI_NO_CONNECTION)"

section \<open>Requests\<close>

text \<open>A new id, and its query in the map.\<close>

definition start_query :: "'o rpc \<Rightarrow> int \<times> 'o rpc" where
  "start_query r = (let (i, r') = getNextId r in (i, r'\<lparr>rpc_queries := map_put i JNull (rpc_queries r')\<rparr>))"

definition request_json :: "string \<Rightarrow> int \<Rightarrow> json \<Rightarrow> json" where
  "request_json version i jsonMap =
     json_object [(''id'', JInt i), (''jsonrpc'', JString version), (''method'', at_key jsonMap ''method''),
       (''params'', at_key jsonMap ''params'')]"

text \<open>The send, or the exception that leaves the query in the map.\<close>

definition send_request :: "bool \<Rightarrow> int \<Rightarrow> json \<Rightarrow> 'o rpc \<Rightarrow> string result \<times> 'o rpc" where
  "send_request connected i jsonMap r =
     (if connected then
        (Inr (dump (request_json (rpc_jsonrpcVersion r) i jsonMap)), rpc_info (''Message '' @ print_int i @ '' was sent'') r)
      else (Inl (Throw (JsonRpcException ''Not connected'')), rpc_info ''Not connected'' r))"

text \<open>The answer is moved out of the map, null if there is none, and the query erased.\<close>

definition take_response :: "int \<Rightarrow> 'o rpc \<Rightarrow> json \<times> 'o rpc" where
  "take_response i r =
     ((case map_of (rpc_queries r) i of None \<Rightarrow> JNull | Some j \<Rightarrow> j),
      r\<lparr>rpc_queries := map_erase i (rpc_queries r)\<rparr>)"

section \<open>Messages\<close>

definition parse_payload :: "string \<Rightarrow> json" where
  "parse_payload payload = (case Json_parse STANDARD payload of Inl err \<Rightarrow> JNull | Inr j \<Rightarrow> j)"

definition request_id :: "json \<Rightarrow> int result" where
  "request_id j = (if \<not> is_null (at_key j ''id'') then int_value (at_key j ''id'') else Inr 0)"

definition subscription_id :: "json \<Rightarrow> int result" where
  "subscription_id j =
     (if \<not> is_null (at_key j ''params'') then int_value (at_key (at_key j ''params'') ''subscription'') else Inr 0)"

text \<open>What is left to do after the maps are updated: notify a request, put into a queue, or nothing.\<close>

datatype routed = Notify int | Enqueue int json | Dropped

definition handleMessage :: "string \<Rightarrow> 'o rpc \<Rightarrow> (routed \<times> 'o rpc) result" where
  "handleMessage payload r =
     (let r = rpc_info (''Message received: '' @ payload) r; json = parse_payload payload in
     rbind (request_id json) (\<lambda>requestId.
     rbind (subscription_id json) (\<lambda>subscriptionId.
     if requestId = INT_MAX then Inr (Dropped, r)
     else if requestId \<noteq> 0 \<and> map_of (rpc_queries r) requestId \<noteq> None then
       Inr (Notify requestId, r\<lparr>rpc_queries := map_put requestId (at_key json ''result'') (rpc_queries r)\<rparr>)
     else if subscriptionId \<noteq> 0 then Inr (Enqueue subscriptionId json, r)
     else Inr (Dropped, rpc_info (''Unknown type of response: '' @ payload) r))))"

section \<open>Subscriptions\<close>

text \<open>What \<^verbatim>\<open>subscribeWs\<close> does with the answer to its request; the consumer of its queue starts then.\<close>

definition finish_subscribe :: "json \<Rightarrow> 'o \<Rightarrow> 'o rpc \<Rightarrow> (int \<times> 'o rpc) result" where
  "finish_subscribe response observer r =
     rbind (int_value response) (\<lambda>subscriptionId.
     Inr (subscriptionId,
       rpc_info (''Subscribed with subscription ID: '' @ print_int subscriptionId)
         (r\<lparr>rpc_wsSubscribers := map_put subscriptionId observer (rpc_wsSubscribers r)\<rparr>)))"

definition unsubscribe_json :: "int \<Rightarrow> string \<Rightarrow> json" where
  "unsubscribe_json subscriptionId method =
     json_object [(''method'', JString (c_str method)), (''params'', JArray [JInt subscriptionId])]"

definition finish_unsubscribe :: "int \<Rightarrow> 'o rpc \<Rightarrow> 'o rpc" where
  "finish_unsubscribe subscriptionId r =
     (rpc_info (''Unsubscribed from subscription ID: '' @ print_int subscriptionId) r)
       \<lparr>rpc_wsSubscribers := map_erase subscriptionId (rpc_wsSubscribers r)\<rparr>"

text \<open>
  The two operations, with \<^verbatim>\<open>request\<close> as an argument, since it runs in interleaved steps. The queue of an
  ended subscription is erased last, which is a step of the queues.
\<close>

definition subscribeWs ::
  "(json \<Rightarrow> 'o rpc \<Rightarrow> json result \<times> 'o rpc) \<Rightarrow> json \<Rightarrow> 'o \<Rightarrow> 'o rpc \<Rightarrow> int result \<times> 'o rpc" where
  "subscribeWs request jsonMap observer r = (case request jsonMap r of
     (Inl e, r') \<Rightarrow> (Inl e, r')
   | (Inr response, r') \<Rightarrow> (case finish_subscribe response observer r' of
       Inl e \<Rightarrow> (Inl e, r') | Inr (subscriptionId, r'') \<Rightarrow> (Inr subscriptionId, r'')))"

definition unsubscribeWs ::
  "(json \<Rightarrow> 'o rpc \<Rightarrow> json result \<times> 'o rpc) \<Rightarrow> int \<Rightarrow> string \<Rightarrow> 'o rpc \<Rightarrow> int result \<times> 'o rpc" where
  "unsubscribeWs request subscriptionId method r =
     (if subscriptionId \<noteq> 0 then
        (case request (unsubscribe_json subscriptionId method) r of
           (Inl e, r') \<Rightarrow> (Inl e, r')
         | (Inr response, r') \<Rightarrow> (Inr 0, finish_unsubscribe subscriptionId r'))
      else (Inr 0, r))"

text \<open>
  One turn of \<^verbatim>\<open>updateConsumerThread\<close>: the observer of the subscription and what it is given. For an
  erased subscription \<^verbatim>\<open>operator[]\<close> makes a null pointer, which is followed.
\<close>

definition consume_update :: "int \<Rightarrow> json \<Rightarrow> 'o rpc \<Rightarrow> ('o \<times> json) result" where
  "consume_update subscriptionId message r =
     (case map_of (rpc_wsSubscribers r) subscriptionId of
        None \<Rightarrow> Inl (Undefined NullDeref)
      | Some observer \<Rightarrow> Inr (observer, at_key (at_key message ''params'') ''result''))"

section \<open>Interleavings\<close>

text \<open>
  The statements of \<^verbatim>\<open>request\<close> that are still to run, and the socket's thread between the update of
  the map and the notification.
\<close>

datatype req =
    ReqStart json | ReqSend int json | ReqWait int | ReqWaiting int | ReqTake int | ReqDone int json | ReqThrew int exn

record sys =
  sys_rpc :: "unit rpc"
  sys_reqs :: "req list"
  sys_notify :: "int option"
  sys_received :: "string list"
  sys_sent :: "string list"

text \<open>
  A step: a request runs its next statement while the socket is connected or not, its wait times out,
  the socket's thread takes a message, or it notifies.
\<close>

datatype rpc_action = Run nat bool | Timeout nat | Message string | NotifyAll

text \<open>The condition variable of a request is gone when the request has ended.\<close>

fun cv_alive :: "int \<Rightarrow> req \<Rightarrow> bool" where
  "cv_alive i (ReqSend i' j) = (i' = i)"
| "cv_alive i (ReqWait i') = (i' = i)"
| "cv_alive i (ReqWaiting i') = (i' = i)"
| "cv_alive i (ReqTake i') = (i' = i)"
| "cv_alive i q = False"

fun wake :: "int \<Rightarrow> req \<Rightarrow> req" where
  "wake i (ReqWaiting i') = (if i' = i then ReqTake i' else ReqWaiting i')"
| "wake i q = q"

fun run_req :: "bool \<Rightarrow> req \<Rightarrow> sys \<Rightarrow> (req \<times> sys) option" where
  "run_req connected (ReqStart j) s =
     (let (i, r) = start_query (sys_rpc s) in Some (ReqSend i j, s\<lparr>sys_rpc := r\<rparr>))"
| "run_req connected (ReqSend i j) s =
     (case send_request connected i j (sys_rpc s) of
        (Inr text, r) \<Rightarrow> Some (ReqWait i, s\<lparr>sys_rpc := r, sys_sent := sys_sent s @ [text]\<rparr>)
      | (Inl (Throw e), r) \<Rightarrow> Some (ReqThrew i e, s\<lparr>sys_rpc := r\<rparr>)
      | (Inl (Undefined u), r) \<Rightarrow> None)"
| "run_req connected (ReqWait i) s = Some (ReqWaiting i, s)"
| "run_req connected (ReqTake i) s =
     (let (j, r) = take_response i (sys_rpc s) in Some (ReqDone i j, s\<lparr>sys_rpc := r\<rparr>))"
| "run_req connected q s = None"

definition set_req :: "nat \<Rightarrow> req \<Rightarrow> sys \<Rightarrow> sys" where
  "set_req n q s = s\<lparr>sys_reqs := (sys_reqs s)[n := q]\<rparr>"

text \<open>\<^term>\<open>None\<close> if the step cannot be taken.\<close>

fun rpc_step :: "rpc_action \<Rightarrow> sys \<Rightarrow> sys result option" where
  "rpc_step (Run n connected) s =
     (if n < length (sys_reqs s) then
        (case run_req connected (sys_reqs s ! n) s of None \<Rightarrow> None | Some (q, s') \<Rightarrow> Some (Inr (set_req n q s')))
      else None)"
| "rpc_step (Timeout n) s =
     (if n < length (sys_reqs s) then
        (case sys_reqs s ! n of ReqWaiting i \<Rightarrow> Some (Inr (set_req n (ReqTake i) s)) | _ \<Rightarrow> None)
      else None)"
| "rpc_step (Message payload) s =
     (if sys_notify s = None then
        Some (rbind (handleMessage payload (sys_rpc s)) (\<lambda>(routed, r).
          (let s' = s\<lparr>sys_rpc := r, sys_received := sys_received s @ [payload]\<rparr> in
           case routed of Notify i \<Rightarrow> Inr (s'\<lparr>sys_notify := Some i\<rparr>) | _ \<Rightarrow> Inr s')))
      else None)"
| "rpc_step NotifyAll s =
     (case sys_notify s of
        None \<Rightarrow> None
      | Some i \<Rightarrow>
          if list_ex (cv_alive i) (sys_reqs s)
          then Some (Inr (s\<lparr>sys_reqs := map (wake i) (sys_reqs s), sys_notify := None\<rparr>))
          else Some (Inl (Undefined UseAfterFree)))"

definition sys_start :: "string \<Rightarrow> json list \<Rightarrow> sys" where
  "sys_start version requests =
     \<lparr>sys_rpc = CJsonRpc version, sys_reqs = map ReqStart requests, sys_notify = None, sys_received = [], sys_sent = []\<rparr>"

inductive rpc_run :: "string \<Rightarrow> json list \<Rightarrow> sys \<Rightarrow> bool" for version :: string and requests :: "json list" where
  start: "rpc_run version requests (sys_start version requests)"
| step: "rpc_run version requests s \<Longrightarrow> rpc_step a s = Some (Inr s') \<Longrightarrow> rpc_run version requests s'"

fun rpc_schedule :: "rpc_action list \<Rightarrow> sys \<Rightarrow> sys result option" where
  "rpc_schedule [] s = Some (Inr s)"
| "rpc_schedule (a # as) s = (case rpc_step a s of
     Some (Inr s') \<Rightarrow> rpc_schedule as s' | r \<Rightarrow> r)"

section \<open>The invariant\<close>

fun req_id :: "req \<Rightarrow> int option" where
  "req_id (ReqStart j) = None"
| "req_id (ReqSend i j) = Some i"
| "req_id (ReqWait i) = Some i"
| "req_id (ReqWaiting i) = Some i"
| "req_id (ReqTake i) = Some i"
| "req_id (ReqDone i j) = Some i"
| "req_id (ReqThrew i e) = Some i"

text \<open>A value is null or the result in a message that was received with the id.\<close>

definition answered :: "string list \<Rightarrow> int \<Rightarrow> json \<Rightarrow> bool" where
  "answered received i j \<longleftrightarrow> j = JNull \<or>
     (\<exists>p \<in> set received. request_id (parse_payload p) = Inr i \<and> j = at_key (parse_payload p) ''result'')"

fun done_ok :: "string list \<Rightarrow> req \<Rightarrow> bool" where
  "done_ok received (ReqDone i j) = answered received i j"
| "done_ok received q = True"

definition unique_ids :: "req list \<Rightarrow> bool" where
  "unique_ids qs \<longleftrightarrow> (\<forall>a b. a < length qs \<longrightarrow> b < length qs \<longrightarrow> a \<noteq> b \<longrightarrow> req_id (qs ! a) \<noteq> None \<longrightarrow>
     req_id (qs ! a) \<noteq> req_id (qs ! b))"

lemma unique_idsD:
  "unique_ids qs \<Longrightarrow> a < length qs \<Longrightarrow> b < length qs \<Longrightarrow> a \<noteq> b \<Longrightarrow> req_id (qs ! a) = Some i \<Longrightarrow> req_id (qs ! b) \<noteq> Some i"
  unfolding unique_ids_def by (metis option.distinct(1))

text \<open>The ids given out so far, and how many requests have not started.\<close>

definition ids_ok :: "req list \<Rightarrow> 32 word \<Rightarrow> bool" where
  "ids_ok qs lastId \<longleftrightarrow> unique_ids qs \<and> (\<forall>q \<in> set qs. \<forall>i. req_id q = Some i \<longrightarrow> 1 \<le> i \<and> i \<le> int (unat lastId)) \<and>
     unat lastId + length (filter (\<lambda>q. req_id q = None) qs) = length qs"

definition sys_inv :: "nat \<Rightarrow> sys \<Rightarrow> bool" where
  "sys_inv n s \<longleftrightarrow> length (sys_reqs s) = n \<and> ids_ok (sys_reqs s) (rpc_lastId (sys_rpc s)) \<and>
     (\<forall>i j. map_of (rpc_queries (sys_rpc s)) i = Some j \<longrightarrow> answered (sys_received s) i j) \<and>
     (\<forall>q \<in> set (sys_reqs s). done_ok (sys_received s) q) \<and>
     (\<forall>q \<in> set (sys_reqs s). \<forall>i. cv_alive i q \<longrightarrow> map_of (rpc_queries (sys_rpc s)) i \<noteq> None)"

lemma sys_invD:
  assumes "sys_inv n s"
  shows "length (sys_reqs s) = n" "ids_ok (sys_reqs s) (rpc_lastId (sys_rpc s))"
    "map_of (rpc_queries (sys_rpc s)) i = Some j \<Longrightarrow> answered (sys_received s) i j"
    "q \<in> set (sys_reqs s) \<Longrightarrow> done_ok (sys_received s) q"
    "q \<in> set (sys_reqs s) \<Longrightarrow> cv_alive i q \<Longrightarrow> map_of (rpc_queries (sys_rpc s)) i \<noteq> None"
  using assms by (auto simp: sys_inv_def)

lemma cv_alive_id: "cv_alive i q \<Longrightarrow> req_id q = Some i"
  by (cases q) auto

lemma map_of_erase [simp]: "map_of (map_erase k kvs) k' = (if k' = k then None else map_of kvs k')"
  by (induction kvs) (auto simp: map_erase_def)

lemma answered_more: "answered received i j \<Longrightarrow> answered (received @ ps) i j"
  by (auto simp: answered_def)

lemma done_ok_more: "done_ok received q \<Longrightarrow> done_ok (received @ ps) q"
  by (cases q) (auto simp: answered_more)

lemma unique_ids_same:
  assumes "unique_ids qs" "req_id q = req_id (qs ! n)" "n < length qs"
  shows "unique_ids (qs[n := q])"
proof -
  have "req_id (qs[n := q] ! a) = req_id (qs ! a)" for a
    using assms(2,3) by (cases "a = n") simp_all
  then show ?thesis using assms(1) by (simp add: unique_ids_def)
qed

lemma filter_update_same:
  "req_id q = req_id (qs ! n) \<Longrightarrow> length (filter (\<lambda>q. req_id q = None) (qs[n := q])) = length (filter (\<lambda>q. req_id q = None) qs)"
proof (induction qs arbitrary: n)
  case (Cons p qs)
  then show ?case by (cases n) auto
qed simp

lemma ids_okD:
  assumes "ids_ok qs l"
  shows "unique_ids qs" "q \<in> set qs \<Longrightarrow> req_id q = Some i \<Longrightarrow> 1 \<le> i \<and> i \<le> int (unat l)"
    "unat l + length (filter (\<lambda>q. req_id q = None) qs) = length qs"
  using assms unfolding ids_ok_def by blast+

lemma ids_ok_same:
  assumes ids: "ids_ok qs l" and n: "n < length qs" and q: "req_id q = req_id (qs ! n)"
  shows "ids_ok (qs[n := q]) l"
  unfolding ids_ok_def
proof (intro conjI ballI allI impI)
  fix p i assume p: "p \<in> set (qs[n := q])" "req_id p = Some i"
  then have "p = q \<or> p \<in> set qs" using set_update_subset_insert by fastforce
  then show "1 \<le> i" "i \<le> int (unat l)"
    using ids_okD(2) [OF ids] p(2) q nth_mem [OF n] by metis+
qed (use unique_ids_same [OF ids_okD(1) [OF ids] q n] filter_update_same [OF q] ids_okD(3) [OF ids] in auto)

lemma filter_update_started:
  "n < length qs \<Longrightarrow> req_id (qs ! n) = None \<Longrightarrow> req_id q \<noteq> None \<Longrightarrow>
   Suc (length (filter (\<lambda>q. req_id q = None) (qs[n := q]))) = length (filter (\<lambda>q. req_id q = None) qs)"
proof (induction qs arbitrary: n)
  case (Cons p qs)
  then show ?case by (cases n) auto
qed simp

text \<open>A request that starts gets the next number, which no other request has.\<close>

lemma next_id:
  assumes "unat (l :: 32 word) + 1 < 2 ^ 31"
  shows "unat (l + 1) = unat l + 1" "sint (l + 1) = int (unat l) + 1"
proof -
  have "l + 1 = word_of_nat (unat l + 1)" by simp
  then show u: "unat (l + 1) = unat l + 1" using assms by (simp only: unsigned_of_nat take_bit_eq_mod) simp
  have "sint (l + 1) = to_int32 (int (unat l + 1))" unfolding to_int32_def by (simp add: add.commute)
  also have "\<dots> = int (unat l + 1)" using assms by (intro to_int32_of_nat) simp
  finally show "sint (l + 1) = int (unat l) + 1" by simp
qed

lemma ids_ok_start:
  assumes ids: "ids_ok qs l" and n: "n < length qs" "req_id (qs ! n) = None" and len: "length qs < 2 ^ 31"
    and q: "req_id q = Some (sint (l + 1))"
  shows "ids_ok (qs[n := q]) (l + 1)"
proof -
  have started: "Suc (length (filter (\<lambda>q. req_id q = None) (qs[n := q]))) = length (filter (\<lambda>q. req_id q = None) qs)"
    using filter_update_started [OF n] q by simp
  then have "unat l + 1 < 2 ^ 31" using ids_okD(3) [OF ids] len by linarith
  note next_id [OF this]
  moreover have old: "1 \<le> i \<and> i \<le> int (unat l)" if "p \<in> set qs" "req_id p = Some i" for p i
    using ids_okD(2) [OF ids that] .
  moreover have "unique_ids (qs[n := q])"
    unfolding unique_ids_def
  proof (intro allI impI)
    fix a b assume ab: "a < length (qs[n := q])" "b < length (qs[n := q])" "a \<noteq> b" "req_id (qs[n := q] ! a) \<noteq> None"
    have new: "req_id (qs ! c) \<noteq> Some (sint (l + 1))" if "c < length qs" for c
      using old [of "qs ! c" "sint (l + 1)"] that calculation(2) by fastforce
    show "req_id (qs[n := q] ! a) \<noteq> req_id (qs[n := q] ! b)"
    proof (cases "a = n \<or> b = n")
      case True
      then show ?thesis using ab n(1) q new [of a] new [of b] by (cases "a = n") auto
    next
      case False
      then show ?thesis using ab ids_okD(1) [OF ids] unfolding unique_ids_def by simp
    qed
  qed
  ultimately show ?thesis
    unfolding ids_ok_def using started ids_okD(3) [OF ids] q
    by (auto dest!: set_update_subset_insert [THEN subsetD]) force+
qed

section \<open>The steps keep the invariant\<close>

lemma set_update_cases: "p \<in> set (qs[n := q]) \<Longrightarrow> p = q \<or> p \<in> set qs"
  using set_update_subset_insert [of qs n q] by blast

lemma sys_invI:
  assumes "length (sys_reqs s) = N" "ids_ok (sys_reqs s) (rpc_lastId (sys_rpc s))"
    and "\<And>i j. map_of (rpc_queries (sys_rpc s)) i = Some j \<Longrightarrow> answered (sys_received s) i j"
    and "\<And>q. q \<in> set (sys_reqs s) \<Longrightarrow> done_ok (sys_received s) q"
    and "\<And>q i. q \<in> set (sys_reqs s) \<Longrightarrow> cv_alive i q \<Longrightarrow> map_of (rpc_queries (sys_rpc s)) i \<noteq> None"
  shows "sys_inv N s"
  using assms unfolding sys_inv_def by blast

text \<open>The invariant does not look at the log, the texts sent or the pending notification.\<close>

lemma sys_inv_cong:
  assumes "sys_inv N s" "sys_reqs s' = sys_reqs s" "sys_received s' = sys_received s"
    and "rpc_lastId (sys_rpc s') = rpc_lastId (sys_rpc s)" "rpc_queries (sys_rpc s') = rpc_queries (sys_rpc s)"
  shows "sys_inv N s'"
  using assms by (simp add: sys_inv_def)

lemma inv_move:
  assumes inv: "sys_inv N s" and n: "n < N" and q: "req_id q = req_id (sys_reqs s ! n)" "done_ok (sys_received s) q"
    and cv: "\<And>i. cv_alive i q \<Longrightarrow> cv_alive i (sys_reqs s ! n)"
  shows "sys_inv N (set_req n q s)"
proof (rule sys_invI)
  note D = sys_invD [OF inv]
  have n': "n < length (sys_reqs s)" using n D(1) by simp
  show "ids_ok (sys_reqs (set_req n q s)) (rpc_lastId (sys_rpc (set_req n q s)))"
    using ids_ok_same [OF D(2) n' q(1)] by (simp add: set_req_def)
  show "done_ok (sys_received (set_req n q s)) p" if "p \<in> set (sys_reqs (set_req n q s))" for p
    using that D(4) q(2) by (auto simp: set_req_def dest: set_update_cases)
  show "map_of (rpc_queries (sys_rpc (set_req n q s))) i \<noteq> None"
    if "p \<in> set (sys_reqs (set_req n q s))" "cv_alive i p" for p i
    using that D(5) cv nth_mem [OF n'] by (auto simp: set_req_def simp del: not_None_eq dest!: set_update_cases)
qed (use sys_invD [OF inv] in \<open>simp_all add: set_req_def\<close>)

lemma inv_start:
  assumes inv: "sys_inv N s" and n: "n < N" "sys_reqs s ! n = ReqStart jm" and N: "N < 2 ^ 31"
  shows "sys_inv N (set_req n (ReqSend (fst (start_query (sys_rpc s))) jm) (s\<lparr>sys_rpc := snd (start_query (sys_rpc s))\<rparr>))"
proof (rule sys_invI)
  note D = sys_invD [OF inv]
  define i where "i = fst (start_query (sys_rpc s))"
  define s' where "s' = set_req n (ReqSend i jm) (s\<lparr>sys_rpc := snd (start_query (sys_rpc s))\<rparr>)"
  have n': "n < length (sys_reqs s)" using n D(1) by simp
  have r: "i = sint (rpc_lastId (sys_rpc s) + 1)" "rpc_lastId (sys_rpc s') = rpc_lastId (sys_rpc s) + 1"
    "rpc_queries (sys_rpc s') = map_put i JNull (rpc_queries (sys_rpc s))" "sys_received s' = sys_received s"
    "sys_reqs s' = (sys_reqs s)[n := ReqSend i jm]"
    by (simp_all add: i_def s'_def start_query_def getNextId_def set_req_def Let_def)
  show "length (sys_reqs s') = N" using D(1) r(5) by simp
  show "ids_ok (sys_reqs s') (rpc_lastId (sys_rpc s'))"
    unfolding r(2,5) using ids_ok_start [OF D(2) n', of "ReqSend i jm"] n N D(1) r(1) by simp
  show "answered (sys_received s') k j" if "map_of (rpc_queries (sys_rpc s')) k = Some j" for k j
    using that D(3) [of k j] unfolding r(3,4) by (auto simp: answered_def split: if_splits)
  show "done_ok (sys_received s') p" if "p \<in> set (sys_reqs s')" for p
    using that D(4) unfolding r(4,5) by (auto dest: set_update_cases)
  show "map_of (rpc_queries (sys_rpc s')) k \<noteq> None" if "p \<in> set (sys_reqs s')" "cv_alive k p" for p k
    using that D(5) [of p k] unfolding r(3,5) by (auto dest!: set_update_cases)
qed

lemma inv_take:
  assumes inv: "sys_inv N s" and n: "n < N" "sys_reqs s ! n = ReqTake i"
  shows "sys_inv N (set_req n (ReqDone i (fst (take_response i (sys_rpc s)))) (s\<lparr>sys_rpc := snd (take_response i (sys_rpc s))\<rparr>))"
proof (rule sys_invI)
  note D = sys_invD [OF inv]
  define j where "j = fst (take_response i (sys_rpc s))"
  define s' where "s' = set_req n (ReqDone i j) (s\<lparr>sys_rpc := snd (take_response i (sys_rpc s))\<rparr>)"
  have n': "n < length (sys_reqs s)" using n D(1) by simp
  have r: "rpc_lastId (sys_rpc s') = rpc_lastId (sys_rpc s)" "rpc_queries (sys_rpc s') = map_erase i (rpc_queries (sys_rpc s))"
    "sys_received s' = sys_received s" "sys_reqs s' = (sys_reqs s)[n := ReqDone i j]"
    by (simp_all add: s'_def take_response_def set_req_def)
  have j: "answered (sys_received s) i j"
    using D(3) [of i] by (auto simp: j_def take_response_def answered_def split: option.split)
  show "length (sys_reqs s') = N" using D(1) r(4) by simp
  show "ids_ok (sys_reqs s') (rpc_lastId (sys_rpc s'))"
    unfolding r(1,4) using n by (intro ids_ok_same [OF D(2) n']) simp
  show "answered (sys_received s') k j'" if "map_of (rpc_queries (sys_rpc s')) k = Some j'" for k j'
    using that D(3) [of k j'] unfolding r(2,3) by (simp split: if_splits)
  show "done_ok (sys_received s') p" if "p \<in> set (sys_reqs s')" for p
    using that D(4) j unfolding r(3,4) by (auto dest!: set_update_cases)
  show "map_of (rpc_queries (sys_rpc s')) k \<noteq> None" if p: "p \<in> set (sys_reqs s')" "cv_alive k p" for p k
  proof -
    obtain m where m: "m < length (sys_reqs s)" "p = sys_reqs s' ! m"
      using p(1) unfolding r(4) by (auto simp: in_set_conv_nth)
    have "m \<noteq> n" using p(2) m n' r(4) by auto
    then have m': "p = sys_reqs s ! m" using m r(4) by simp
    then have "req_id (sys_reqs s ! n) \<noteq> Some k"
      using unique_idsD [OF ids_okD(1) [OF D(2)] m(1) n' \<open>m \<noteq> n\<close>] cv_alive_id [OF p(2)] by simp
    then have "k \<noteq> i" using n by simp
    then show ?thesis using D(5) [of p k] p(2) m(1) m' unfolding r(2) by simp
  qed
qed

lemma handleMessage_cases:
  assumes "handleMessage payload r = Inr (routed, r')"
  shows "rpc_lastId r' = rpc_lastId r \<and>
    (rpc_queries r' = rpc_queries r \<and> (\<forall>i. routed \<noteq> Notify i) \<or>
     (\<exists>i. routed = Notify i \<and> map_of (rpc_queries r) i \<noteq> None \<and> request_id (parse_payload payload) = Inr i \<and>
       rpc_queries r' = map_put i (at_key (parse_payload payload) ''result'') (rpc_queries r)))"
  using assms by (auto simp: handleMessage_def rpc_info_def Let_def split: if_splits)

lemma inv_message:
  assumes inv: "sys_inv N s" and h: "handleMessage payload (sys_rpc s) = Inr (routed, r)"
  shows "sys_inv N (s\<lparr>sys_rpc := r, sys_received := sys_received s @ [payload]\<rparr>)"
proof (rule sys_invI)
  note D = sys_invD [OF inv]
  note H = handleMessage_cases [OF h]
  let ?s = "s\<lparr>sys_rpc := r, sys_received := sys_received s @ [payload]\<rparr>"
  show "length (sys_reqs ?s) = N" "ids_ok (sys_reqs ?s) (rpc_lastId (sys_rpc ?s))" using D(1,2) H by simp_all
  show "answered (sys_received ?s) i j" if "map_of (rpc_queries (sys_rpc ?s)) i = Some j" for i j
    using that H D(3) [of i j] answered_more [of "sys_received s" i j "[payload]"]
    by (auto simp: answered_def split: if_splits)
  show "done_ok (sys_received ?s) p" if "p \<in> set (sys_reqs ?s)" for p
    using that D(4) done_ok_more by simp
  show "map_of (rpc_queries (sys_rpc ?s)) i \<noteq> None" if "p \<in> set (sys_reqs ?s)" "cv_alive i p" for p i
    using that D(5) [of p i] H by auto
qed

lemma wake_id: "req_id (wake i q) = req_id q" "cv_alive k (wake i q) = cv_alive k q" "done_ok received (wake i q) = done_ok received q"
  by (cases q; simp)+

lemma inv_notify:
  assumes inv: "sys_inv N s"
  shows "sys_inv N (s\<lparr>sys_reqs := map (wake i) (sys_reqs s), sys_notify := None\<rparr>)"
proof -
  have "ids_ok (map (wake i) qs) l = ids_ok qs l" for qs l
    by (simp add: ids_ok_def unique_ids_def wake_id filter_map comp_def)
  then show ?thesis using inv by (auto simp: sys_inv_def wake_id simp del: not_None_eq)
qed

lemma run_req_inv:
  assumes inv: "sys_inv N s" and n: "n < N" and N: "N < 2 ^ 31" and run: "run_req connected (sys_reqs s ! n) s = Some (q, s')"
  shows "sys_inv N (set_req n q s')"
proof (cases "sys_reqs s ! n")
  case (ReqStart jm)
  then show ?thesis using inv_start [OF inv n ReqStart N] run by (auto simp: split_def Let_def)
next
  case (ReqSend i jm)
  have moved: "sys_inv N (set_req n (ReqWait i) s)" "sys_inv N (set_req n (ReqThrew i (JsonRpcException ''Not connected'')) s)"
    using ReqSend by (auto intro!: inv_move [OF inv n])
  then show ?thesis
    using run ReqSend sys_inv_cong [OF moved(1)] sys_inv_cong [OF moved(2)]
    by (cases connected) (auto simp: send_request_def rpc_info_def set_req_def)
next
  case (ReqWait i)
  then show ?thesis using run inv_move [OF inv n, of "ReqWaiting i"] by auto
next
  case (ReqTake i)
  then show ?thesis using inv_take [OF inv n ReqTake] run by (auto simp: split_def Let_def)
qed (use run in simp_all)

lemma rpc_step_inv:
  assumes inv: "sys_inv N s" and N: "N < 2 ^ 31" and st: "rpc_step a s = Some (Inr s')"
  shows "sys_inv N s'"
proof (cases a)
  case (Run n connected)
  then obtain q s1 where "n < length (sys_reqs s)" "run_req connected (sys_reqs s ! n) s = Some (q, s1)" "s' = set_req n q s1"
    using st by (auto split: if_splits option.splits)
  then show ?thesis using run_req_inv [OF inv _ N] sys_invD(1) [OF inv] by simp
next
  case (Timeout n)
  then obtain i where "n < length (sys_reqs s)" "sys_reqs s ! n = ReqWaiting i" "s' = set_req n (ReqTake i) s"
    using st by (auto split: if_splits req.splits)
  then show ?thesis using sys_invD(1) [OF inv] inv_move [OF inv, of n "ReqTake i"] by simp
next
  case (Message payload)
  then obtain routed r where h: "handleMessage payload (sys_rpc s) = Inr (routed, r)"
    "(let s1 = s\<lparr>sys_rpc := r, sys_received := sys_received s @ [payload]\<rparr>
      in case routed of Notify i \<Rightarrow> Inr (s1\<lparr>sys_notify := Some i\<rparr>) | _ \<Rightarrow> Inr s1) = (Inr s' :: sys result)"
    using st by (auto split: if_splits)
  then show ?thesis
    using inv_message [OF inv h(1)] by (auto simp: Let_def split: routed.splits intro: sys_inv_cong)
next
  case NotifyAll
  then show ?thesis using st inv_notify [OF inv] by (auto split: option.splits if_splits)
qed

lemma sys_start_inv: "sys_inv (length requests) (sys_start version requests)"
  by (simp add: sys_inv_def sys_start_def ids_ok_def unique_ids_def CJsonRpc_def filter_map comp_def)

lemma rpc_run_inv: "rpc_run version requests s \<Longrightarrow> length requests < 2 ^ 31 \<Longrightarrow> sys_inv (length requests) s"
  by (induction rule: rpc_run.induct) (auto intro: sys_start_inv rpc_step_inv)

section \<open>Answers\<close>

text \<open>An answer as a node writes it.\<close>

definition response_json :: "int \<Rightarrow> json \<Rightarrow> json" where
  "response_json i result = json_object [(''jsonrpc'', JString ''2.0''), (''result'', result), (''id'', JInt i)]"

lemma response_entries:
  "response_json i result = JObject [(''id'', JInt i), (''jsonrpc'', JString ''2.0''), (''result'', result)]"
  by (simp add: response_json_def json_object_def less_char_def)

lemma parse_response:
  assumes "in_int32 i" "wf_json result" "no_doubles result" "int (json_depth result) < max_depth"
  shows "parse_payload (dump (response_json i result)) =
    JObject [(''id'', reread (JInt i)), (''jsonrpc'', JString ''2.0''), (''result'', reread result)]"
proof -
  have "sorted_wrt (<) [''id'', ''jsonrpc'', ''result'']" by (simp add: less_char_def)
  then have "Json_parse_opt STANDARD (dump (response_json i result)) = Some (Inr (reread (response_json i result)))"
    using parse_of_dump [of "response_json i result" STANDARD] assms by (simp add: response_entries max_def)
  then show ?thesis by (simp add: parse_payload_def Json_parse_def response_entries)
qed

lemma reread_int_value: "int_value (reread (JInt i)) = Inr i" "\<not> is_null (reread (JInt i))" if "in_int32 i"
  using that by (auto simp: reread_int_def double_to_int_of_int is_null_def)

lemma handleMessage_response:
  assumes "in_int32 i" "wf_json result" "no_doubles result" "int (json_depth result) < max_depth"
    and "i \<noteq> 0" "i \<noteq> INT_MAX" "map_of (rpc_queries r) i \<noteq> None"
  shows "handleMessage (dump (response_json i result)) r =
    Inr (Notify i, (rpc_info (''Message received: '' @ dump (response_json i result)) r)
      \<lparr>rpc_queries := map_put i (reread result) (rpc_queries r)\<rparr>)"
  using assms parse_response [OF assms(1-4)] reread_int_value [OF assms(1)]
  by (simp add: handleMessage_def request_id_def subscription_id_def Let_def rpc_info_def is_null_def)

section \<open>The interface of observers\<close>

text \<open>
  What an observer may rely on: an update it is given comes from a message for its subscription, whose
  id is not zero.
\<close>

definition gives_update :: "'o rpc \<Rightarrow> int \<Rightarrow> json \<Rightarrow> bool" where
  "gives_update r sid message \<longleftrightarrow>
     (\<exists>payload json r1 r2 observer. handleMessage payload r = Inr (Enqueue sid json, r1) \<and>
       consume_update sid json r2 = Inr (observer :: 'o, message))"

locale update_source =
  fixes gives :: "'r \<Rightarrow> int \<Rightarrow> json \<Rightarrow> bool"
  assumes gives_nonzero: "gives r sid message \<Longrightarrow> sid \<noteq> 0"

lemma handleMessage_Enqueue: "handleMessage payload r = Inr (Enqueue sid json, r1) \<Longrightarrow> sid \<noteq> 0"
  by (auto simp: handleMessage_def Let_def split: if_splits)

interpretation rpc_updates: update_source gives_update
  by unfold_locales (auto simp: gives_update_def dest: handleMessage_Enqueue)

section \<open>Properties\<close>

text \<open>
  C3: in every interleaving of any number of requests, messages, notifications and timeouts, answers
  are not mixed up: the ids of the requests are distinct, and what a request returns is null or the
  result of a message that was received with its id.
\<close>

theorem request_response:
  assumes "rpc_run version requests s" "length requests < 2 ^ 31" "n < length requests" "sys_reqs s ! n = ReqDone i j"
  shows "(\<forall>m < length requests. m \<noteq> n \<longrightarrow> req_id (sys_reqs s ! m) \<noteq> Some i) \<and>
    (j = JNull \<or> (\<exists>p \<in> set (sys_received s). request_id (parse_payload p) = Inr i \<and>
      j = at_key (parse_payload p) ''result''))"
proof -
  have inv: "sys_inv (length requests) s" using assms(1,2) by (rule rpc_run_inv)
  note D = sys_invD [OF inv]
  have "done_ok (sys_received s) (ReqDone i j)" using D(4) nth_mem assms(3,4) D(1) by metis
  moreover have "req_id (sys_reqs s ! m) \<noteq> Some i" if "m < length requests" "m \<noteq> n" for m
    using unique_idsD [OF ids_okD(1) [OF D(2)], of n m i] that assms(3,4) D(1) by simp
  ultimately show ?thesis by (simp add: answered_def)
qed

lemma rpc_schedule_run:
  "rpc_run version requests s \<Longrightarrow> rpc_schedule as s = Some (Inr s') \<Longrightarrow> rpc_run version requests s'"
  by (induction as arbitrary: s) (auto split: option.splits sum.splits intro: rpc_run.step)

text \<open>Two requests; the second is answered first.\<close>

definition sample_schedule :: "rpc_action list" where
  "sample_schedule =
     [Run 0 True, Run 1 True, Run 0 True, Run 1 True, Run 0 True, Run 1 True,
      Message (dump (response_json 2 (JInt 7))), NotifyAll, Run 1 True, Timeout 0, Run 0 True]"

lemma sample_run:
  "\<exists>s. rpc_run ''2.0'' [JNull, JNull] s \<and> sys_reqs s = [ReqDone 1 JNull, ReqDone 2 (JInt 7)]"
proof -
  have "(case rpc_schedule sample_schedule (sys_start ''2.0'' [JNull, JNull]) of
      Some (Inr s) \<Rightarrow> sys_reqs s = [ReqDone 1 JNull, ReqDone 2 (JInt 7)] | _ \<Rightarrow> False)" by code_simp
  then obtain s where s: "rpc_schedule sample_schedule (sys_start ''2.0'' [JNull, JNull]) = Some (Inr s)"
    "sys_reqs s = [ReqDone 1 JNull, ReqDone 2 (JInt 7)]" by (auto split: option.splits sum.splits)
  then show ?thesis using rpc_schedule_run [OF rpc_run.start s(1)] by blast
qed

theorem request_response_witness:
  "\<exists>s. rpc_run ''2.0'' [JNull, JNull] s \<and> sys_reqs s ! 1 = ReqDone 2 (JInt 7) \<and>
    (\<exists>p \<in> set (sys_received s). request_id (parse_payload p) = Inr 2 \<and> JInt 7 = at_key (parse_payload p) ''result'')"
proof -
  obtain s where s: "rpc_run ''2.0'' [JNull, JNull] s" "sys_reqs s = [ReqDone 1 JNull, ReqDone 2 (JInt 7)]"
    using sample_run by blast
  then show ?thesis using request_response [OF s(1), of 1 2 "JInt 7"] by auto
qed




end
