(* ===== verification/WsClient.thy ===== *)
theory WsClient
  imports JsonRpc
begin

text \<open>
  What \<^verbatim>\<open>src/wsclient.cpp\<close> decides itself: the URL and its protocol, the state of the connection, the
  observers, the health requests, and whether a certificate is the one of the host. The sockets, TLS
  and certificates are those of websocketpp, Asio and OpenSSL, whose results are arguments.
\<close>

abbreviation PAPI_CANT_CONNECT :: int where "PAPI_CANT_CONNECT \<equiv> 2"
abbreviation PAPI_NOT_CONNECTED :: int where "PAPI_NOT_CONNECTED \<equiv> 3"

section \<open>Configuration\<close>

definition parity_node_url :: string where
  "parity_node_url = ''wss://alex.unfrastructure.io/public/ws''"

text \<open>The text of the file; an unreadable file has an empty text.\<close>

definition getNodeUrl :: "string \<Rightarrow> string" where
  "getNodeUrl jsonConf =
     (let conf = parse_payload jsonConf in
      if 0 < length (string_value (at_key conf ''nodeUrl'')) then string_value (at_key conf ''nodeUrl'') else parity_node_url)"

section \<open>Host names\<close>

text \<open>\<^verbatim>\<open>strstr\<close>: the string from the first occurrence on.\<close>

fun strstr :: "string \<Rightarrow> string \<Rightarrow> string option" where
  "strstr [] pat = (if pat = [] then Some [] else None)"
| "strstr (c # cs) pat = (if take (length pat) (c # cs) = pat then Some (c # cs) else strstr cs pat)"

text \<open>The part of the URL between the slashes, all of it if there are none.\<close>

definition trim_host :: "string \<Rightarrow> string" where
  "trim_host url = (case strstr url ''//'' of None \<Rightarrow> url | Some s \<Rightarrow> takeWhile (\<lambda>c. c \<noteq> CHR ''/'') (drop 2 s))"

definition trim_wildcard :: "string \<Rightarrow> string" where
  "trim_wildcard cert = (case strstr cert ''*.'' of None \<Rightarrow> cert | Some s \<Rightarrow> drop 2 s)"

definition compare_host_name :: "string \<Rightarrow> string \<Rightarrow> bool result" where
  "compare_host_name node_url cert_hostname =
     rbind (strcpy_to 1024 node_url) (\<lambda>hostname.
     rbind (strcpy_to 1024 cert_hostname) (\<lambda>certHost.
     Inr (strstr (trim_host hostname) (trim_wildcard certHost) \<noteq> None)))"

section \<open>Certificates\<close>

text \<open>
  Of a certificate, the alternative names with whether each is a DNS name, if there is the extension,
  and the common name, if there is one.
\<close>

record certificate =
  san_names :: "(bool \<times> string) list option"
  common_name :: "string option"

fun san_loop :: "string \<Rightarrow> (bool \<times> string) list \<Rightarrow> bool result" where
  "san_loop node_url [] = Inr False"
| "san_loop node_url ((dns, name) # names) =
     (if \<not> dns then san_loop node_url names
      else if length name \<noteq> length (c_str name) then Inr False
      else rbind (compare_host_name node_url (c_str name)) (\<lambda>same. if same then Inr True else san_loop node_url names))"

definition verify_subject_alternative_name :: "string \<Rightarrow> certificate \<Rightarrow> bool result" where
  "verify_subject_alternative_name node_url cert =
     (case san_names cert of None \<Rightarrow> Inr False | Some names \<Rightarrow> san_loop node_url names)"

definition verify_common_name :: "string \<Rightarrow> certificate \<Rightarrow> bool result" where
  "verify_common_name node_url cert = (case common_name cert of
     None \<Rightarrow> Inr False
   | Some name \<Rightarrow> if length name \<noteq> length (c_str name) then Inr False else compare_host_name node_url (c_str name))"

text \<open>\<^term>\<open>None\<close> is the exception for a certificate that was not verified.\<close>

definition verify_certificate :: "string \<Rightarrow> bool \<Rightarrow> int \<Rightarrow> certificate \<Rightarrow> bool result option" where
  "verify_certificate node_url preverified depth cert =
     (if depth = 0 \<and> preverified then
        Some (rbind (verify_subject_alternative_name node_url cert) (\<lambda>same.
          if same then Inr True
          else rbind (verify_common_name node_url cert) (\<lambda>same. if same then Inr True else Inr False)))
      else if \<not> preverified then None
      else Some (Inr preverified))"

section \<open>The client\<close>

record 'o ws =
  ws_observers :: "'o list"
  ws_tls :: bool
  ws_node_url :: string
  ws_connected :: bool
  ws_sent :: "string list"
  ws_log :: "string list"

definition ws_info :: "string \<Rightarrow> 'o ws \<Rightarrow> 'o ws" where
  "ws_info line s = s\<lparr>ws_log := ws_log s @ [line]\<rparr>"

text \<open>What the library does: no connection object, an exception, or the handshake succeeds or not in time.\<close>

datatype handshake = NoConnection string | WsException string | Opened bool

definition finish_connect :: "handshake \<Rightarrow> 'o ws \<Rightarrow> int \<times> 'o ws" where
  "finish_connect h s = (case h of
     NoConnection msg \<Rightarrow> (PAPI_CANT_CONNECT, ws_info (''Could not create connection: '' @ msg) s)
   | WsException msg \<Rightarrow> (PAPI_CANT_CONNECT, ws_info (''Could not create connection: '' @ msg) s)
   | Opened ok \<Rightarrow>
       (let s = (if ok then s\<lparr>ws_connected := True\<rparr> else s) in
        if ws_connected s then (PAPI_OK, ws_info ''Connection established'' s)
        else (PAPI_CANT_CONNECT, ws_info ''Connection failed'' s)))"

definition quoted :: "string \<Rightarrow> string" where
  "quoted s = [CHR 0x27] @ s @ [CHR 0x27]"

definition ws_connect :: "string \<Rightarrow> (bool \<Rightarrow> string \<Rightarrow> handshake) \<Rightarrow> string \<Rightarrow> 'o ws \<Rightarrow> int \<times> 'o ws" where
  "ws_connect jsonConf library node_url s =
     (let uri = (if node_url = [] then getNodeUrl jsonConf else node_url);
          s = ws_info (''Connecting to '' @ uri) (s\<lparr>ws_node_url := uri\<rparr>)
      in if take 4 uri = ''wss:'' then finish_connect (library True uri) (ws_info ''Connecting secure endpoint'' (s\<lparr>ws_tls := True\<rparr>))
         else if take 3 uri = ''ws:''
         then finish_connect (library False uri) (ws_info ''Connecting to an insecure endpoint'' (s\<lparr>ws_tls := False\<rparr>))
         else (PAPI_CANT_CONNECT,
           ws_info (''Protocol is not specified in URL. Should begin with either '' @ quoted ''ws:'' @ '' or '' @ quoted ''wss:'') s))"

definition ws_send :: "string \<Rightarrow> 'o ws \<Rightarrow> int \<times> 'o ws" where
  "ws_send msg s =
     (if ws_connected s then (PAPI_OK, ws_info (''WS sent message: '' @ msg) (s\<lparr>ws_sent := ws_sent s @ [msg]\<rparr>))
      else (PAPI_NOT_CONNECTED, s))"

definition registerMessageObserver :: "'o \<Rightarrow> 'o ws \<Rightarrow> 'o ws" where
  "registerMessageObserver handler s = s\<lparr>ws_observers := ws_observers s @ [handler]\<rparr>"

text \<open>A text message goes to every observer in the order of their registration; others are dropped.\<close>

definition on_message :: "bool \<Rightarrow> string \<Rightarrow> 'o ws \<Rightarrow> ('o \<times> string) list \<times> 'o ws" where
  "on_message text_frame payload s =
     (if text_frame then (map (\<lambda>o'. (o', payload)) (ws_observers s), ws_info (''WS Received Message: '' @ payload) s)
      else ([], s))"

subsection \<open>Health requests\<close>

abbreviation HEALTH_WAKEUP_MKS :: int where "HEALTH_WAKEUP_MKS \<equiv> 100000"
abbreviation health_check_delay_time :: int where "health_check_delay_time \<equiv> 15000000"

definition health_request :: json where
  "health_request = json_object [(''id'', JInt INT_MAX), (''jsonrpc'', JString ''2.0''), (''method'', JString ''system_health''),
     (''params'', JArray [])]"

text \<open>
  The loop over its wake-ups, each with whether the client is connected and has its thread then; it
  ends when it is not.
\<close>

fun health :: "bool list \<Rightarrow> int \<Rightarrow> 'o ws \<Rightarrow> 'o ws" where
  "health [] period_counter s = s"
| "health (connected # wakeups) period_counter s =
     (let period_counter = period_counter + HEALTH_WAKEUP_MKS; s = s\<lparr>ws_connected := connected\<rparr> in
      if \<not> ws_connected s then s
      else if health_check_delay_time \<le> period_counter
      then health wakeups 0 (snd (ws_send (dump health_request) s))
      else health wakeups period_counter s)"

section \<open>Lemmas\<close>

lemma strstr_iff: "strstr s pat \<noteq> None \<longleftrightarrow> (\<exists>as bs. s = as @ pat @ bs)"
proof (induction s)
  case (Cons c cs)
  have "take (length pat) (c # cs) = pat \<longleftrightarrow> (\<exists>bs. c # cs = pat @ bs)"
    by (metis append_eq_conv_conj append_take_drop_id)
  moreover have "(\<exists>as bs. c # cs = as @ pat @ bs) \<longleftrightarrow> (\<exists>bs. c # cs = pat @ bs) \<or> (\<exists>as bs. cs = as @ pat @ bs)"
    by (metis append_Cons append_Nil list.inject neq_Nil_conv)
  ultimately show ?case using Cons.IH by auto
qed auto

lemma strstr_first: "CHR ''/'' \<notin> set scheme \<Longrightarrow> strstr (scheme @ ''//'' @ rest) ''//'' = Some (''//'' @ rest)"
  by (induction scheme) auto

lemma trim_host_url:
  assumes "CHR ''/'' \<notin> set scheme" "CHR ''/'' \<notin> set host"
  shows "trim_host (scheme @ ''//'' @ host @ (if slash then CHR ''/'' # path else [])) = host"
  using assms strstr_first [OF assms(1)] by (simp add: trim_host_def takeWhile_append)

lemma trim_wildcard_plain: "CHR ''*'' \<notin> set name \<Longrightarrow> trim_wildcard name = name"
proof -
  assume "CHR ''*'' \<notin> set name"
  then have "strstr name ''*.'' = None" using strstr_iff [of name "''*.''"] by auto
  then show ?thesis by (simp add: trim_wildcard_def)
qed

lemma trim_wildcard_star: "trim_wildcard (''*.'' @ name) = name"
  by (simp add: trim_wildcard_def)

section \<open>Properties\<close>



end
