(* ===== verification/Application.thy ===== *)
theory Application
  imports Extrinsic Lookup Responses JsonRpc
begin

text \<open>
  The application layer, the class \<^verbatim>\<open>CPolkaApi\<close> of \<^verbatim>\<open>src/application.cpp\<close>: its state, the connection
  and the queries. The JSON-RPC client is behind the interface \<^verbatim>\<open>IJsonRpc\<close>, a record of functions on
  the state of the world. An operation takes the world and the object to a result and their new
  state; an exception keeps the changes made before it. A member that the constructor leaves
  indeterminate is \<^term>\<open>None\<close> until it is written, and its use before that is undefined.
\<close>

section \<open>Operations that may throw\<close>

type_synonym ('s, 'a) act = "'s \<Rightarrow> 'a result \<times> 's"

definition aret :: "'a \<Rightarrow> ('s, 'a) act" where
  "aret x s = (Inr x, s)"

definition abind :: "('s, 'a) act \<Rightarrow> ('a \<Rightarrow> ('s, 'b) act) \<Rightarrow> ('s, 'b) act" where
  "abind p f s = (case p s of (Inl e, s') \<Rightarrow> (Inl e, s') | (Inr x, s') \<Rightarrow> f x s')"

definition alift :: "'a result \<Rightarrow> ('s, 'a) act" where
  "alift r s = (r, s)"

definition athrow :: "exn \<Rightarrow> ('s, 'a) act" where
  "athrow e s = (Inl (Throw e), s)"

text \<open>\<^verbatim>\<open>try { p } catch (ApplicationException) {}\<close>.\<close>

definition acatch_app :: "('s, unit) act \<Rightarrow> ('s, unit) act" where
  "acatch_app p s = (case p s of (Inl (Throw (ApplicationException msg)), s') \<Rightarrow> (Inr (), s') | r \<Rightarrow> r)"

lemma abind_Inr: "p s = (Inr x, s') \<Longrightarrow> abind p f s = f x s'"
  by (simp add: abind_def)

section \<open>State\<close>

text \<open>
  A callback is one the user gave, or one of the two that the class makes itself: the one that stores
  the best block number, and the one that ends the wait for a nonce. A \<^verbatim>\<open>std::function\<close> may be empty.
\<close>

datatype 'cb callback = User 'cb | StoreBestBlock | GotNonce

type_synonym 'cb func = "'cb callback option"

record Era =
  eraProgress :: int
  eraLength :: int

text \<open>The members that a branch does not write are indeterminate.\<close>

record SessionOrEpoch =
  isEpoch :: bool
  sessionLength :: "int option"
  sessionProgress :: "int option"
  epochProgress :: "int option"
  epochLength :: "int option"

text \<open>What a callback is called with.\<close>

datatype notice =
    BlockNumber int | AccountNonce "64 word" | Balance uint128 | Extrinsic_status string | Completion string
  | Era_and_session Era SessionOrEpoch | Finalized BlockHeader | Runtime RuntimeVersion | Storage_value string

text \<open>
  The members, with \<^verbatim>\<open>_protocolPrm\<close> in place; \<open>api_log\<close> is what went to the logger and \<open>notified\<close> the
  calls of the user's callbacks.
\<close>

record 'cb api =
  FreeBalanceHasher :: "Hasher option"
  FreeBalancePrefix :: string
  BalanceModuleIndex :: "int option"
  TransferMethodIndex :: "int option"
  GenesisBlockHash :: "byte list option"
  prm_metadata :: "Metadata option"
  bestBlockNum :: int
  blockNumberSubscriber :: "'cb func"
  balanceSubscribers :: "(string \<times> 'cb func) list"
  nonceSubscribers :: "(string \<times> 'cb func) list"
  eraAndSessionSubscriber :: "'cb func"
  transactionCompletionSubscriber :: "'cb func"
  finalizedBlockSubscriber :: "'cb func"
  runtimeVersionSubscriber :: "'cb func"
  storageSubscribers :: "(string \<times> 'cb func) list"
  subcribeExtrinsicSubscriber :: "'cb func"
  blockNumberSubscriptionId :: int
  balanceSubscriptionIds :: "(string \<times> int) list"
  nonceSubscriptionIds :: "(string \<times> int) list"
  eraAndSessionSubscriptionId :: int
  transactionCompletionSubscriptionId :: "int option"
  finalizedBlockSubscriptionId :: "int option"
  runtimeVersionSubscriptionId :: "int option"
  storageSubscriptionIds :: "(string \<times> int) list"
  subcribeExtrinsicSubscriberId :: "int option"
  storageKeyCurrentEra :: string
  storageKeySessionsPerEra :: string
  storageKeyCurrentSessionIndex :: string
  storageKeyBabeGenesisSlot :: string
  storageKeyBabeCurrentSlot :: string
  storageKeyBabeEpochIndex :: string
  babeEpochDuration :: "int option"
  sessionsPerEra :: "int option"
  useEpoch :: "bool option"
  api_log :: "string list"
  notified :: "('cb \<times> notice) list"

definition CPolkaApi :: "'cb api" where
  "CPolkaApi = \<lparr>FreeBalanceHasher = None, FreeBalancePrefix = [], BalanceModuleIndex = None, TransferMethodIndex = None, GenesisBlockHash = None,
     prm_metadata = None, bestBlockNum = -1, blockNumberSubscriber = None, balanceSubscribers = [], nonceSubscribers = [],
     eraAndSessionSubscriber = None, transactionCompletionSubscriber = None, finalizedBlockSubscriber = None,
     runtimeVersionSubscriber = None, storageSubscribers = [], subcribeExtrinsicSubscriber = None,
     blockNumberSubscriptionId = 0, balanceSubscriptionIds = [], nonceSubscriptionIds = [], eraAndSessionSubscriptionId = 0,
     transactionCompletionSubscriptionId = None, finalizedBlockSubscriptionId = None, runtimeVersionSubscriptionId = None,
     storageSubscriptionIds = [], subcribeExtrinsicSubscriberId = None, storageKeyCurrentEra = [],
     storageKeySessionsPerEra = [], storageKeyCurrentSessionIndex = [], storageKeyBabeGenesisSlot = [],
     storageKeyBabeCurrentSlot = [], storageKeyBabeEpochIndex = [], babeEpochDuration = None, sessionsPerEra = None,
     useEpoch = None, api_log = [], notified = []\<rparr>"

text \<open>
  The methods of \<^verbatim>\<open>IJsonRpc\<close>, the texts of the standard exceptions, the signature function, and which
  side of an assignment the compiler evaluates first, which C++11 leaves open.
\<close>

record 'w environment =
  rpc_connect :: "string \<Rightarrow> 'w \<Rightarrow> int \<times> 'w"
  rpc_disconnect :: "'w \<Rightarrow> 'w"
  rpc_request :: "json \<Rightarrow> int \<Rightarrow> ('w, json) act"
  rpc_subscribeWs :: "json \<Rightarrow> ('w, int) act"
  rpc_unsubscribeWs :: "int \<Rightarrow> string \<Rightarrow> ('w, int) act"
  std_what :: "exn \<Rightarrow> string"
  sr25519_sign :: signer
  lhs_first :: bool

abbreviation RESPONSE_TIMEOUT_S :: int where "RESPONSE_TIMEOUT_S \<equiv> 10"

type_synonym ('w, 'cb, 'a) api_act = "('w \<times> 'cb api, 'a) act"

definition on_world :: "('w, 'a) act \<Rightarrow> ('w, 'cb, 'a) api_act" where
  "on_world p ws = (case ws of (w, s) \<Rightarrow> (case p w of (r, w') \<Rightarrow> (r, (w', s))))"

definition get_api :: "('cb api \<Rightarrow> 'a) \<Rightarrow> ('w, 'cb, 'a) api_act" where
  "get_api f ws = (Inr (f (snd ws)), ws)"

definition upd_api :: "('cb api \<Rightarrow> 'cb api) \<Rightarrow> ('w, 'cb, unit) api_act" where
  "upd_api f ws = (Inr (), (fst ws, f (snd ws)))"

definition log_line :: "string \<Rightarrow> ('w, 'cb, unit) api_act" where
  "log_line line = upd_api (\<lambda>s. s\<lparr>api_log := api_log s @ [line]\<rparr>)"

text \<open>\<^verbatim>\<open>Json::object{{"method", m}, {"params", prm}}\<close>.\<close>

definition query_json :: "string \<Rightarrow> json list \<Rightarrow> json" where
  "query_json method prm = json_object [(''method'', JString method), (''params'', JArray prm)]"

definition ask :: "'w environment \<Rightarrow> string \<Rightarrow> json list \<Rightarrow> ('w, 'cb, json) api_act" where
  "ask env method prm = on_world (rpc_request env (query_json method prm) RESPONSE_TIMEOUT_S)"

text \<open>\<^verbatim>\<open>deserialize\<close> logs the text of an exception before it throws the new one.\<close>

definition api_deserialize :: "'w environment \<Rightarrow> (json \<Rightarrow> 'a result) \<Rightarrow> json \<Rightarrow> ('w, 'cb, 'a) api_act" where
  "api_deserialize env F jsonObject =
     (case F jsonObject of
        Inl (Throw e) \<Rightarrow>
          abind (log_line (''Cannot deserialize data '' @ exn_what (std_what env) e)) (\<lambda>_.
          alift (deserialize (std_what env) F jsonObject))
      | r \<Rightarrow> alift r)"

section \<open>Queries\<close>

definition getSystemInfo :: "'w environment \<Rightarrow> ('w, 'cb, SystemInfo) api_act" where
  "getSystemInfo env =
     abind (ask env ''system_name'' []) (\<lambda>systemNameJson.
     abind (ask env ''system_chain'' []) (\<lambda>systemChainJson.
     abind (ask env ''system_version'' []) (\<lambda>systemVersionJson.
     abind (ask env ''system_properties'' []) (\<lambda>systemPropertiesJson.
     api_deserialize env createSystemInfo
       (JArray [systemNameJson, systemChainJson, systemVersionJson, systemPropertiesJson])))))"

text \<open>The parameter is a null pointer or holds a block number or a hash.\<close>

definition getBlockHash :: "'w environment \<Rightarrow> int option \<Rightarrow> ('w, 'cb, BlockHash) api_act" where
  "getBlockHash env params =
     abind (ask env ''chain_getBlockHash'' (case params of None \<Rightarrow> [] | Some n \<Rightarrow> [JInt n])) (\<lambda>response.
     api_deserialize env createBlockHash response)"

definition hash_param :: "string option \<Rightarrow> json list" where
  "hash_param params = (case params of None \<Rightarrow> [] | Some h \<Rightarrow> [JString h])"

definition getRuntimeVersion :: "'w environment \<Rightarrow> string option \<Rightarrow> ('w, 'cb, RuntimeVersion) api_act" where
  "getRuntimeVersion env params =
     abind (ask env ''chain_getRuntimeVersion'' (hash_param params)) (api_deserialize env createRuntimeVersion)"

definition getBlock :: "'w environment \<Rightarrow> string option \<Rightarrow> ('w, 'cb, SignedBlock) api_act" where
  "getBlock env params =
     abind (ask env ''chain_getBlock'' (hash_param params)) (api_deserialize env createBlock)"

definition getBlockHeader :: "'w environment \<Rightarrow> string option \<Rightarrow> ('w, 'cb, BlockHeader) api_act" where
  "getBlockHeader env params =
     abind (ask env ''chain_getHeader'' (hash_param params)) (api_deserialize env createBlockHeader)"

text \<open>The reader of metadata logs through the same logger.\<close>

definition getMetadata :: "'w environment \<Rightarrow> string option \<Rightarrow> ('w, 'cb, Metadata) api_act" where
  "getMetadata env params =
     abind (ask env ''state_getMetadata'' (hash_param params)) (\<lambda>response.
     abind (get_api api_log) (\<lambda>log.
     abind (api_deserialize env (createMetadata log) response) (\<lambda>(md, log').
     abind (upd_api (\<lambda>s. s\<lparr>api_log := log'\<rparr>)) (\<lambda>_. aret md))))"

definition getSystemHealth :: "'w environment \<Rightarrow> ('w, 'cb, SystemHealth) api_act" where
  "getSystemHealth env = abind (ask env ''system_health'' []) (api_deserialize env createSystemHealth)"

definition getFinalizedHead :: "'w environment \<Rightarrow> ('w, 'cb, FinalHead) api_act" where
  "getFinalizedHead env = abind (ask env ''chain_getFinalizedHead'' []) (api_deserialize env createFinalHead)"

text \<open>Too many peers are logged before the reader throws.\<close>

definition getSystemPeers :: "'w environment \<Rightarrow> ('w, 'cb, PeersInfo) api_act" where
  "getSystemPeers env =
     abind (ask env ''system_peers'' []) (\<lambda>response.
     (case createPeerInfo response of
        Inl (Throw (ApplicationException message)) \<Rightarrow>
          abind (log_line message) (\<lambda>_. api_deserialize env createPeerInfo response)
      | _ \<Rightarrow> api_deserialize env createPeerInfo response))"

definition getNetworkState :: "'w environment \<Rightarrow> ('w, 'cb, NetworkState) api_act" where
  "getNetworkState env = abind (ask env ''system_networkState'' []) (api_deserialize env createNetworkState)"

section \<open>Storage queries\<close>

definition api_getKeys :: "string \<Rightarrow> string \<Rightarrow> string \<Rightarrow> ('w, 'cb, string) api_act" where
  "api_getKeys jsonPrm module variable =
     abind (get_api prm_metadata) (\<lambda>metadata.
     abind (get_api FreeBalanceHasher) (\<lambda>hasher.
     alift (rbind (follow metadata) (\<lambda>meta. getKeys meta (written hasher) jsonPrm module variable))))"

text \<open>The queries of a storage entry at the last block share all but the method and what they return.\<close>

definition ask_storage :: "'w environment \<Rightarrow> string \<Rightarrow> string \<Rightarrow> string \<Rightarrow> string \<Rightarrow> ('w, 'cb, json) api_act" where
  "ask_storage env method jsonPrm module variable =
     abind (getBlockHash env None) (\<lambda>headHash.
     abind (api_getKeys jsonPrm module variable) (\<lambda>key.
     ask env method [JString key, JString (bh_hash headHash)]))"

definition getStorage :: "'w environment \<Rightarrow> string \<Rightarrow> string \<Rightarrow> string \<Rightarrow> ('w, 'cb, string) api_act" where
  "getStorage env jsonPrm module variable =
     abind (ask_storage env ''state_getStorage'' jsonPrm module variable) (\<lambda>response. aret (string_value response))"

definition getStorageHash :: "'w environment \<Rightarrow> string \<Rightarrow> string \<Rightarrow> string \<Rightarrow> ('w, 'cb, string) api_act" where
  "getStorageHash env jsonPrm module variable =
     abind (ask_storage env ''state_getStorageHash'' jsonPrm module variable) (\<lambda>response. aret (string_value response))"

definition getStorageSize :: "'w environment \<Rightarrow> string \<Rightarrow> string \<Rightarrow> string \<Rightarrow> ('w, 'cb, int) api_act" where
  "getStorageSize env jsonPrm module variable =
     abind (ask_storage env ''state_getStorageSize'' jsonPrm module variable) (\<lambda>response. alift (int_value response))"

definition ask_child :: "'w environment \<Rightarrow> string \<Rightarrow> string \<Rightarrow> string \<Rightarrow> ('w, 'cb, json) api_act" where
  "ask_child env method childStorageKey storageKey =
     abind (getBlockHash env None) (\<lambda>headHash.
     ask env method [JString childStorageKey, JString storageKey, JString (bh_hash headHash)])"

definition getChildKeys :: "'w environment \<Rightarrow> string \<Rightarrow> string \<Rightarrow> ('w, 'cb, string) api_act" where
  "getChildKeys env childStorageKey storageKey =
     abind (ask_child env ''state_getChildKeys'' childStorageKey storageKey) (\<lambda>response. aret (string_value response))"

definition getChildStorage :: "'w environment \<Rightarrow> string \<Rightarrow> string \<Rightarrow> ('w, 'cb, string) api_act" where
  "getChildStorage env childStorageKey storageKey =
     abind (ask_child env ''state_getChildStorage'' childStorageKey storageKey) (\<lambda>response. aret (string_value response))"

definition getChildStorageHash :: "'w environment \<Rightarrow> string \<Rightarrow> string \<Rightarrow> ('w, 'cb, string) api_act" where
  "getChildStorageHash env childStorageKey storageKey =
     abind (ask_child env ''state_getChildStorageHash'' childStorageKey storageKey) (\<lambda>response. aret (string_value response))"

definition getChildStorageSize :: "'w environment \<Rightarrow> string \<Rightarrow> string \<Rightarrow> ('w, 'cb, int) api_act" where
  "getChildStorageSize env childStorageKey storageKey =
     abind (ask_child env ''state_getChildStorageSize'' childStorageKey storageKey) (\<lambda>response. alift (int_value response))"

definition stateCall :: "'w environment \<Rightarrow> string \<Rightarrow> string \<Rightarrow> string \<Rightarrow> ('w, 'cb, string) api_act" where
  "stateCall env name data hash =
     abind (ask env ''state_call'' [JString name, JString data, JString hash]) (\<lambda>response. aret (dump response))"

text \<open>The caller's buffer is the list of its items; the number of items is returned. The timeout is 30 seconds.\<close>

definition queryStorage ::
  "'w environment \<Rightarrow> string \<Rightarrow> string \<Rightarrow> string \<Rightarrow> int \<Rightarrow> ('w, 'cb, int \<times> StorageItem list) api_act" where
  "queryStorage env key startHash stopHash itemBufSize =
     abind (on_world (rpc_request env
       (query_json ''state_queryStorage'' [JArray [JString key], JString startHash, JString stopHash]) 30)) (\<lambda>response.
     abind (alift (query_loop response 0 (nat itemBufSize))) (\<lambda>items. aret (int (length items), items)))"

definition pendingExtrinsics :: "'w environment \<Rightarrow> int \<Rightarrow> ('w, 'cb, int \<times> GenericExtrinsic list) api_act" where
  "pendingExtrinsics env bufferSize =
     abind (ask env ''author_pendingExtrinsics'' []) (\<lambda>response.
     alift (pending_loop (map string_value (array_items response)) bufferSize 0 []))"

definition removeExtrinsic :: "'w environment \<Rightarrow> string \<Rightarrow> ('w, 'cb, bool) api_act" where
  "removeExtrinsic env extrinsicHash =
     abind (ask env ''author_removeExtrinsic'' [JString extrinsicHash]) (\<lambda>response.
     if is_null response then athrow (ApplicationException ''Not supported'') else aret False)"

section \<open>Connection\<close>

text \<open>
  The loop over the digits of the genesis hash after \<^verbatim>\<open>0x\<close>, in an array that is zero past the string.
\<close>

definition hash_bytes_of :: "string \<Rightarrow> byte list" where
  "hash_bytes_of h =
     (let digits = h @ replicate (STRING_SIZE - length h) NUL in
      map (\<lambda>i. fromHexByte (digits ! (2 + i * 2)) (digits ! (3 + i * 2))) [0..<BLOCK_HASH_SIZE])"

text \<open>The assignments under \<^verbatim>\<open>try\<close>: those before an exception stay.\<close>

definition read_babe :: "('w, 'cb, unit) api_act" where
  "read_babe =
     abind (get_api prm_metadata) (\<lambda>metadata.
     abind (api_getKeys [] ''Babe'' ''GenesisSlot'') (\<lambda>k. abind (upd_api (storageKeyBabeGenesisSlot_update (\<lambda>_. k))) (\<lambda>_.
     abind (api_getKeys [] ''Babe'' ''CurrentSlot'') (\<lambda>k. abind (upd_api (storageKeyBabeCurrentSlot_update (\<lambda>_. k))) (\<lambda>_.
     abind (api_getKeys [] ''Babe'' ''EpochIndex'') (\<lambda>k. abind (upd_api (storageKeyBabeEpochIndex_update (\<lambda>_. k))) (\<lambda>_.
     abind (alift (rbind (follow metadata) (\<lambda>md. getMetadataConst md ''Staking'' ''SessionsPerEra''))) (\<lambda>n.
     abind (upd_api (sessionsPerEra_update (\<lambda>_. Some n))) (\<lambda>_.
     abind (alift (rbind (follow metadata) (\<lambda>md. getMetadataConst md ''Babe'' ''EpochDuration''))) (\<lambda>n.
     upd_api (babeEpochDuration_update (\<lambda>_. Some n))))))))))))"

text \<open>The protocol parameters that come from the metadata.\<close>

definition read_parameters :: "Metadata \<Rightarrow> ('w, 'cb, Hasher) api_act" where
  "read_parameters md =
     abind (upd_api (prm_metadata_update (\<lambda>_. Some md))) (\<lambda>_.
     abind (alift (getFuncHasher md ''Balances'' ''FreeBalance'')) (\<lambda>hasher.
     abind (upd_api (\<lambda>s. s\<lparr>FreeBalanceHasher := Some hasher, FreeBalancePrefix := ''Balances FreeBalance''\<rparr>)) (\<lambda>_.
     abind (alift (getModuleIndex md ''Balances'' True)) (\<lambda>module_index.
     abind (upd_api (BalanceModuleIndex_update (\<lambda>_. Some module_index))) (\<lambda>_.
     abind (alift (rbind (getModuleIndex md ''Balances'' False) (\<lambda>i. getCallMethodIndex md i ''transfer''))) (\<lambda>method_index.
     abind (upd_api (TransferMethodIndex_update (\<lambda>_. Some method_index))) (\<lambda>_.
     abind (log_line (if hasher = XXHASH then ''FreeBalance hash function is xxHash''
                      else ''FreeBalance hash function is Blake2-256'')) (\<lambda>_.
     abind (log_line (''Balances module index: '' @ print_int module_index)) (\<lambda>_.
     abind (log_line (''Transfer call index: '' @ print_int method_index)) (\<lambda>_.
     aret hasher))))))))))"

definition connect :: "'w environment \<Rightarrow> string \<Rightarrow> ('w, 'cb, int) api_act" where
  "connect env node_url =
     abind (on_world (\<lambda>w. case rpc_connect env node_url w of (r, w') \<Rightarrow> (Inr r, w'))) (\<lambda>result.
     abind (getBlockHash env (Some 0)) (\<lambda>genesisHashStr.
     abind (upd_api (GenesisBlockHash_update (\<lambda>_. Some (hash_bytes_of (bh_hash genesisHashStr))))) (\<lambda>_.
     abind (getMetadata env None) (\<lambda>md.
     abind (read_parameters md) (\<lambda>hasher.
     abind (alift (getPlainStorageKey hasher ''Staking CurrentEra'')) (\<lambda>k.
     abind (upd_api (storageKeyCurrentEra_update (\<lambda>_. k))) (\<lambda>_.
     abind (alift (getPlainStorageKey hasher ''Staking SessionsPerEra'')) (\<lambda>k.
     abind (upd_api (storageKeySessionsPerEra_update (\<lambda>_. k))) (\<lambda>_.
     abind (alift (getPlainStorageKey hasher ''Session CurrentIndex'')) (\<lambda>k.
     abind (upd_api (storageKeyCurrentSessionIndex_update (\<lambda>_. k))) (\<lambda>_.
     abind (acatch_app read_babe) (\<lambda>_.
     abind (get_api storageKeyBabeGenesisSlot) (\<lambda>genesisSlot.
     abind (upd_api (useEpoch_update (\<lambda>_. Some (genesisSlot \<noteq> [])))) (\<lambda>_.
     abind (log_line (if genesisSlot \<noteq> [] then ''Using epochs'' else ''Using sessions'')) (\<lambda>_.
     aret result)))))))))))))))"

definition disconnect :: "'w environment \<Rightarrow> ('w, 'cb, unit) api_act" where
  "disconnect env = on_world (\<lambda>w. (Inr (), rpc_disconnect env w))"

end
