(* ===== verification/Subscriptions.thy ===== *)
theory Subscriptions
  imports Application
begin

text \<open>
  The subscriptions of \<^verbatim>\<open>CPolkaApi\<close> in \<^verbatim>\<open>src/application.cpp\<close>: the operations that subscribe and unsubscribe,
  \<^verbatim>\<open>handleWsMessage\<close>, which the consumer threads of the JSON-RPC client call with every update, and the
  operations that wait for a nonce and send extrinsics. Operations are atomic with respect to updates,
  but for the wait for a nonce, which takes the updates that arrive meanwhile.
\<close>

abbreviation LAST_LENGTH_CHANGE_SUBSCRIPTION :: string where
  "LAST_LENGTH_CHANGE_SUBSCRIPTION \<equiv> ''0xe781aa1e06ea53e01a4e129e0496764e''"
abbreviation SESSION_LENGTH_SUBSCRIPTION :: string where
  "SESSION_LENGTH_SUBSCRIPTION \<equiv> ''0xd9c94b41dc87728ebf0a966d2e9ad9c0''"

section \<open>Callbacks\<close>

text \<open>
  The call of a \<^verbatim>\<open>std::function\<close>, which throws if it is empty. The callback of \<^verbatim>\<open>getAccountNonce\<close> hands
  the nonce to the operation that waits; the result is the nonce then.
\<close>

definition call_func :: "'cb func \<Rightarrow> notice \<Rightarrow> ('w, 'cb, 64 word option) api_act" where
  "call_func f v = (case f of
     None \<Rightarrow> athrow BadFunctionCall
   | Some (User cb) \<Rightarrow> abind (upd_api (\<lambda>s. s\<lparr>notified := notified s @ [(cb, v)]\<rparr>)) (\<lambda>_. aret None)
   | Some StoreBestBlock \<Rightarrow>
       (case v of BlockNumber n \<Rightarrow> abind (upd_api (bestBlockNum_update (\<lambda>_. n))) (\<lambda>_. aret None) | _ \<Rightarrow> aret None)
   | Some GotNonce \<Rightarrow> (case v of AccountNonce n \<Rightarrow> aret (Some n) | _ \<Rightarrow> aret None))"

text \<open>
  \<^verbatim>\<open>subscribers[key](v)\<close>: \<^verbatim>\<open>operator[]\<close> adds an empty function for a key that is not there.
\<close>

definition call_keyed ::
  "('cb api \<Rightarrow> (string \<times> 'cb func) list) \<Rightarrow>
   (((string \<times> 'cb func) list \<Rightarrow> (string \<times> 'cb func) list) \<Rightarrow> 'cb api \<Rightarrow> 'cb api) \<Rightarrow>
   string \<Rightarrow> notice result \<Rightarrow> ('w, 'cb, 64 word option) api_act" where
  "call_keyed subscribers subscribers_upd key v =
     abind (get_api subscribers) (\<lambda>m. case map_of m key of
       None \<Rightarrow> abind (upd_api (subscribers_upd (map_put key None))) (\<lambda>_. abind (alift v) (call_func None))
     | Some f \<Rightarrow> abind (alift v) (call_func f))"

text \<open>The key whose subscription has the id, the first in key order.\<close>

definition key_of_id :: "(string \<times> int) list \<Rightarrow> int \<Rightarrow> string option" where
  "key_of_id ids sid = map_option fst (find (\<lambda>(k, i). i = sid) ids)"

section \<open>Updates\<close>

text \<open>\<^verbatim>\<open>message["changes"][i][1]\<close>, and its value as \<^verbatim>\<open>long long\<close>, zero if it is null.\<close>

definition change :: "json \<Rightarrow> nat \<Rightarrow> json" where
  "change message i = at_index (at_index (at_key message ''changes'') i) 1"

definition change_ll :: "json \<Rightarrow> nat \<Rightarrow> int result" where
  "change_ll message i =
     (if is_null (change message i) then Inr 0 else fromHex_ll (string_value (change message i)) False)"

text \<open>The operators of \<^verbatim>\<open>long long\<close>; the remainder has the sign of the dividend.\<close>

definition rem64 :: "int \<Rightarrow> int \<Rightarrow> int result" where
  "rem64 a b =
     (if b = 0 then Inl (Undefined DivisionByZero)
      else if a = - (2 ^ 63) \<and> b = -1 then Inl (Undefined SignedOverflow)
      else Inr (sgn a * (\<bar>a\<bar> mod \<bar>b\<bar>)))"

text \<open>\<^verbatim>\<open>index % n * length + progress\<close>.\<close>

definition era_progress :: "int \<Rightarrow> int \<Rightarrow> int \<Rightarrow> int \<Rightarrow> int result" where
  "era_progress index n len progress =
     rbind (rem64 index n) (\<lambda>r. rbind (checked64 (r * len)) (\<lambda>p. checked64 (p + progress)))"

definition epoch_update :: "int option \<Rightarrow> int option \<Rightarrow> json \<Rightarrow> notice result" where
  "epoch_update epochDuration perEra message =
     rbind (change_ll message 0) (\<lambda>epochIndex.
     rbind (change_ll message 1) (\<lambda>epochOrGenesisStartSlot.
     rbind (change_ll message 2) (\<lambda>currentSlot.
     rbind (written epochDuration) (\<lambda>duration.
     rbind (checked64 (duration * epochIndex)) (\<lambda>x.
     rbind (checked64 (x + epochOrGenesisStartSlot)) (\<lambda>epochStartSlot.
     rbind (checked64 (currentSlot - epochStartSlot)) (\<lambda>progress.
     rbind (written perEra) (\<lambda>sessions.
     rbind (era_progress epochIndex sessions duration progress) (\<lambda>eraProgr.
     rbind (checked64 (sessions * duration)) (\<lambda>eraDuration.
     Inr (Era_and_session \<lparr>eraProgress = eraProgr, eraLength = eraDuration\<rparr>
       \<lparr>isEpoch = True, sessionLength = None, sessionProgress = None, epochProgress = Some progress,
        epochLength = Some duration\<rparr>)))))))))))"

definition session_update :: "int \<Rightarrow> json \<Rightarrow> notice option result" where
  "session_update bestBlock message =
     rbind (change_ll message 0) (\<lambda>lastLengthChange.
     rbind (change_ll message 1) (\<lambda>sessionLen.
     rbind (change_ll message 2) (\<lambda>currentEra.
     rbind (change_ll message 3) (\<lambda>sessions.
     rbind (change_ll message 4) (\<lambda>currentIndex.
     if 0 < lastLengthChange \<and> 0 < sessionLen \<and> 0 < currentEra \<and> 0 < sessions \<and> 0 < currentIndex then
       rbind (checked64 (bestBlock - lastLengthChange)) (\<lambda>x.
       rbind (checked64 (x + sessionLen)) (\<lambda>y.
       rbind (rem64 y sessionLen) (\<lambda>progress.
       rbind (era_progress currentIndex sessions sessionLen progress) (\<lambda>eraProgr.
       rbind (checked64 (sessions * sessionLen)) (\<lambda>eraLen.
       Inr (Some (Era_and_session \<lparr>eraProgress = eraProgr, eraLength = eraLen\<rparr>
         \<lparr>isEpoch = False, sessionLength = Some sessionLen, sessionProgress = Some progress, epochProgress = None,
          epochLength = None\<rparr>)))))))
     else Inr None)))))"

fun contains :: "string \<Rightarrow> string \<Rightarrow> bool" where
  "contains pat [] = (pat = [])"
| "contains pat (c # cs) = (take (length pat) (c # cs) = pat \<or> contains pat cs)"

definition handle_completion :: "json \<Rightarrow> ('w, 'cb, 64 word option) api_act" where
  "handle_completion message =
     abind (get_api transactionCompletionSubscriber) (\<lambda>f.
     if contains ''ready'' (dump message) then call_func f (Completion ''ready'')
     else if contains ''finalized'' (dump message) then
       abind (call_func f (Completion ''finalized'')) (\<lambda>r.
       abind (upd_api (\<lambda>s. s\<lparr>transactionCompletionSubscriber := None, transactionCompletionSubscriptionId := Some 0\<rparr>)) (\<lambda>_.
       aret r))
     else aret None)"

definition handle_era :: "json \<Rightarrow> ('w, 'cb, 64 word option) api_act" where
  "handle_era message =
     abind (get_api id) (\<lambda>s.
     abind (alift (written (useEpoch s))) (\<lambda>epoch.
     if epoch then
       abind (alift (epoch_update (babeEpochDuration s) (sessionsPerEra s) message)) (call_func (eraAndSessionSubscriber s))
     else
       abind (alift (session_update (bestBlockNum s) message)) (\<lambda>v. case v of
         None \<Rightarrow> aret None
       | Some v \<Rightarrow> call_func (eraAndSessionSubscriber s) v)))"

text \<open>The chain of \<^verbatim>\<open>if\<close>s on subscription ids; an id that was never assigned is indeterminate.\<close>

definition handleWsMessage :: "int \<Rightarrow> json \<Rightarrow> ('w, 'cb, 64 word option) api_act" where
  "handleWsMessage sid message =
     abind (get_api id) (\<lambda>s.
     if blockNumberSubscriptionId s = sid then
       abind (alift (fromHex_ll (string_value (at_key message ''number'')) True)) (\<lambda>n.
       call_func (blockNumberSubscriber s) (BlockNumber n))
     else case key_of_id (nonceSubscriptionIds s) sid of
       Some address \<Rightarrow>
         call_keyed nonceSubscribers nonceSubscribers_update address
           (rbind (fromHex (string_value (change message 0)) False) (\<lambda>n. Inr (AccountNonce n)))
     | None \<Rightarrow>
     case key_of_id (balanceSubscriptionIds s) sid of
       Some address \<Rightarrow>
         call_keyed balanceSubscribers balanceSubscribers_update address
           (rbind (fromHex (string_value (change message 0)) False) (\<lambda>b. Inr (Balance b)))
     | None \<Rightarrow>
     abind (alift (written (subcribeExtrinsicSubscriberId s))) (\<lambda>i.
     if i = sid then call_func (subcribeExtrinsicSubscriber s) (Extrinsic_status (dump message))
     else abind (alift (written (transactionCompletionSubscriptionId s))) (\<lambda>i.
     if i = sid then handle_completion message
     else if eraAndSessionSubscriptionId s = sid \<and> bestBlockNum s \<noteq> -1 then handle_era message
     else abind (alift (written (finalizedBlockSubscriptionId s))) (\<lambda>i.
     if i = sid then
       abind (alift (decodeBlockHeader message)) (\<lambda>h. call_func (finalizedBlockSubscriber s) (Finalized h))
     else abind (alift (written (runtimeVersionSubscriptionId s))) (\<lambda>i.
     if i = sid then
       abind (alift (createRuntimeVersion message)) (\<lambda>rv. call_func (runtimeVersionSubscriber s) (Runtime rv))
     else case key_of_id (storageSubscriptionIds s) sid of
       Some key \<Rightarrow>
         call_keyed storageSubscribers storageSubscribers_update key
           (Inr (Storage_value (string_value (change message 0))))
     | None \<Rightarrow> aret None)))))"

text \<open>
  An update outside of a wait for a nonce. A callback of \<^verbatim>\<open>getAccountNonce\<close> that is still registered
  writes to variables of a call that has ended.
\<close>

definition deliver :: "int \<Rightarrow> json \<Rightarrow> ('w, 'cb, unit) api_act" where
  "deliver sid message =
     abind (handleWsMessage sid message) (\<lambda>r. case r of
       None \<Rightarrow> aret () | Some n \<Rightarrow> alift (Inl (Undefined UseAfterFree)))"

section \<open>Subscribe and unsubscribe\<close>

definition storage_query :: "json list \<Rightarrow> json" where
  "storage_query keys = query_json ''state_subscribeStorage'' [JArray keys]"

text \<open>
  \<^verbatim>\<open>ids[key] = _jsonRpc->subscribeWs(query, this)\<close>. If the left side is evaluated first, an entry with id
  zero is there already when \<^verbatim>\<open>subscribeWs\<close> throws.
\<close>

definition assign_id ::
  "'w environment \<Rightarrow> (((string \<times> int) list \<Rightarrow> (string \<times> int) list) \<Rightarrow> 'cb api \<Rightarrow> 'cb api) \<Rightarrow> string \<Rightarrow> json \<Rightarrow>
   ('w, 'cb, unit) api_act" where
  "assign_id env ids_upd key query =
     abind (if lhs_first env then upd_api (ids_upd (\<lambda>m. if map_of m key = None then map_put key 0 m else m)) else aret ()) (\<lambda>_.
     abind (on_world (rpc_subscribeWs env query)) (\<lambda>sid. upd_api (ids_upd (map_put key sid))))"

definition subscribeBlockNumber :: "'w environment \<Rightarrow> 'cb func \<Rightarrow> ('w, 'cb, int) api_act" where
  "subscribeBlockNumber env callback =
     abind (upd_api (blockNumberSubscriber_update (\<lambda>_. callback))) (\<lambda>_.
     abind (get_api blockNumberSubscriptionId) (\<lambda>i.
     if i = 0 then
       abind (on_world (rpc_subscribeWs env (query_json ''chain_subscribeNewHead'' []))) (\<lambda>sid.
       abind (upd_api (blockNumberSubscriptionId_update (\<lambda>_. sid))) (\<lambda>_. aret PAPI_OK))
     else aret PAPI_OK))"

definition era_keys :: "bool \<Rightarrow> 'cb api \<Rightarrow> json list" where
  "era_keys epoch s =
     map JString
       (if epoch then [storageKeyBabeEpochIndex s, storageKeyBabeGenesisSlot s, storageKeyBabeCurrentSlot s]
        else [LAST_LENGTH_CHANGE_SUBSCRIPTION, SESSION_LENGTH_SUBSCRIPTION, storageKeyCurrentEra s,
          storageKeySessionsPerEra s, storageKeyCurrentSessionIndex s])"

definition subscribeEraAndSession :: "'w environment \<Rightarrow> 'cb func \<Rightarrow> ('w, 'cb, int) api_act" where
  "subscribeEraAndSession env callback =
     abind (upd_api (eraAndSessionSubscriber_update (\<lambda>_. callback))) (\<lambda>_.
     abind (subscribeBlockNumber env (Some StoreBestBlock)) (\<lambda>_.
     abind (get_api id) (\<lambda>s.
     abind (alift (written (useEpoch s))) (\<lambda>epoch.
     if eraAndSessionSubscriptionId s = 0 then
       abind (on_world (rpc_subscribeWs env (storage_query (era_keys epoch s)))) (\<lambda>sid.
       abind (upd_api (eraAndSessionSubscriptionId_update (\<lambda>_. sid))) (\<lambda>_. aret PAPI_OK))
     else aret PAPI_OK))))"

definition unsubscribeBlockNumber :: "'w environment \<Rightarrow> ('w, 'cb, int) api_act" where
  "unsubscribeBlockNumber env =
     abind (get_api blockNumberSubscriptionId) (\<lambda>i.
     if i \<noteq> 0 then
       abind (on_world (rpc_unsubscribeWs env i ''chain_unsubscribeNewHead'')) (\<lambda>_.
       abind (upd_api (\<lambda>s. s\<lparr>blockNumberSubscriber := None, blockNumberSubscriptionId := 0\<rparr>)) (\<lambda>_. aret PAPI_OK))
     else aret PAPI_OK)"

definition unsubscribeEraAndSession :: "'w environment \<Rightarrow> ('w, 'cb, int) api_act" where
  "unsubscribeEraAndSession env =
     abind (get_api eraAndSessionSubscriptionId) (\<lambda>i.
     abind (if i \<noteq> 0 then
       abind (on_world (rpc_unsubscribeWs env i ''state_unsubscribeStorage'')) (\<lambda>_.
       upd_api (\<lambda>s. s\<lparr>eraAndSessionSubscriber := None, eraAndSessionSubscriptionId := 0\<rparr>))
     else aret ()) (\<lambda>_.
     abind (unsubscribeBlockNumber env) (\<lambda>_. aret PAPI_OK)))"

text \<open>\<^verbatim>\<open>memcpy(addr.symbols, address.c_str(), ADDRESS_LENGTH)\<close>, and the key of the account under a prefix.\<close>

definition account_key :: "string \<Rightarrow> string \<Rightarrow> ('w, 'cb, string) api_act" where
  "account_key address pfx =
     abind (get_api FreeBalanceHasher) (\<lambda>hasher.
     alift (if ADDRESS_LENGTH \<le> length address + 1
       then rbind (written hasher) (\<lambda>h. getAddressStorageKey h (char_bytes (take ADDRESS_LENGTH (address @ [NUL]))) pfx)
       else Inl (Undefined OutOfBounds)))"

definition subscribeBalance :: "'w environment \<Rightarrow> string \<Rightarrow> 'cb func \<Rightarrow> ('w, 'cb, int) api_act" where
  "subscribeBalance env address callback =
     abind (upd_api (balanceSubscribers_update (map_put address callback))) (\<lambda>_.
     abind (get_api balanceSubscriptionIds) (\<lambda>ids.
     if map_of ids address = None then
       abind (account_key address ''Balances FreeBalance'') (\<lambda>storageKey.
       abind (assign_id env balanceSubscriptionIds_update address (storage_query [JString storageKey])) (\<lambda>_.
       aret PAPI_OK))
     else aret PAPI_OK))"

text \<open>
  \<^verbatim>\<open>if (ids.count(key) != 0) { unsubscribeWs(ids[key], ...); subscribers.erase(key); ids.erase(key); }\<close>.
\<close>

definition unsubscribe_keyed ::
  "'w environment \<Rightarrow> ('cb api \<Rightarrow> (string \<times> int) list) \<Rightarrow>
   (((string \<times> int) list \<Rightarrow> (string \<times> int) list) \<Rightarrow> 'cb api \<Rightarrow> 'cb api) \<Rightarrow>
   (((string \<times> 'cb func) list \<Rightarrow> (string \<times> 'cb func) list) \<Rightarrow> 'cb api \<Rightarrow> 'cb api) \<Rightarrow> string \<Rightarrow>
   ('w, 'cb, int) api_act" where
  "unsubscribe_keyed env ids ids_upd subscribers_upd key =
     abind (get_api ids) (\<lambda>m. case map_of m key of
       None \<Rightarrow> aret PAPI_OK
     | Some i \<Rightarrow>
         abind (on_world (rpc_unsubscribeWs env i ''state_unsubscribeStorage'')) (\<lambda>_.
         abind (upd_api (subscribers_upd (map_erase key))) (\<lambda>_.
         abind (upd_api (ids_upd (map_erase key))) (\<lambda>_. aret PAPI_OK))))"

definition unsubscribeBalance :: "'w environment \<Rightarrow> string \<Rightarrow> ('w, 'cb, int) api_act" where
  "unsubscribeBalance env address =
     unsubscribe_keyed env balanceSubscriptionIds balanceSubscriptionIds_update balanceSubscribers_update address"

definition subscribeAccountNonce :: "'w environment \<Rightarrow> string \<Rightarrow> 'cb func \<Rightarrow> ('w, 'cb, int) api_act" where
  "subscribeAccountNonce env address callback =
     abind (upd_api (nonceSubscribers_update (map_put address callback))) (\<lambda>_.
     abind (get_api nonceSubscriptionIds) (\<lambda>ids.
     if map_of ids address = None then
       abind (account_key address ''System AccountNonce'') (\<lambda>storageKey.
       abind (log_line (''Nonce subscription storageKey: '' @ storageKey)) (\<lambda>_.
       abind (assign_id env nonceSubscriptionIds_update address (storage_query [JString storageKey])) (\<lambda>_.
       aret PAPI_OK)))
     else aret PAPI_OK))"

definition unsubscribeAccountNonce :: "'w environment \<Rightarrow> string \<Rightarrow> ('w, 'cb, int) api_act" where
  "unsubscribeAccountNonce env address =
     unsubscribe_keyed env nonceSubscriptionIds nonceSubscriptionIds_update nonceSubscribers_update address"

definition subscribeStorage :: "'w environment \<Rightarrow> string \<Rightarrow> 'cb func \<Rightarrow> ('w, 'cb, int) api_act" where
  "subscribeStorage env key callback =
     abind (upd_api (storageSubscribers_update (map_put key callback))) (\<lambda>_.
     abind (get_api storageSubscriptionIds) (\<lambda>ids.
     if map_of ids key = None then
       abind (assign_id env storageSubscriptionIds_update key (storage_query [JString key])) (\<lambda>_. aret PAPI_OK)
     else aret PAPI_OK))"

definition unsubscribeStorage :: "'w environment \<Rightarrow> string \<Rightarrow> ('w, 'cb, int) api_act" where
  "unsubscribeStorage env key =
     unsubscribe_keyed env storageSubscriptionIds storageSubscriptionIds_update storageSubscribers_update key"

text \<open>The ids of these two subscriptions are tested before anything was assigned to them.\<close>

definition subscribeFinalizedBlock :: "'w environment \<Rightarrow> 'cb func \<Rightarrow> ('w, 'cb, int) api_act" where
  "subscribeFinalizedBlock env callback =
     abind (upd_api (finalizedBlockSubscriber_update (\<lambda>_. callback))) (\<lambda>_.
     abind (get_api finalizedBlockSubscriptionId) (\<lambda>sid.
     abind (alift (written sid)) (\<lambda>i.
     if i = 0 then
       abind (on_world (rpc_subscribeWs env (query_json ''chain_subscribeFinalizedHeads'' []))) (\<lambda>sid.
       abind (upd_api (finalizedBlockSubscriptionId_update (\<lambda>_. Some sid))) (\<lambda>_. aret PAPI_OK))
     else aret PAPI_OK)))"

definition unsubscribeFinalizedBlock :: "'w environment \<Rightarrow> ('w, 'cb, int) api_act" where
  "unsubscribeFinalizedBlock env =
     abind (get_api finalizedBlockSubscriptionId) (\<lambda>sid.
     abind (alift (written sid)) (\<lambda>i.
     if i \<noteq> 0 then
       abind (on_world (rpc_unsubscribeWs env i ''chain_unsubscribeFinalizedHeads'')) (\<lambda>_.
       abind (upd_api (\<lambda>s. s\<lparr>finalizedBlockSubscriber := None, finalizedBlockSubscriptionId := Some 0\<rparr>)) (\<lambda>_. aret PAPI_OK))
     else aret PAPI_OK))"

definition subscribeRuntimeVersion :: "'w environment \<Rightarrow> 'cb func \<Rightarrow> ('w, 'cb, int) api_act" where
  "subscribeRuntimeVersion env callback =
     abind (upd_api (runtimeVersionSubscriber_update (\<lambda>_. callback))) (\<lambda>_.
     abind (get_api runtimeVersionSubscriptionId) (\<lambda>sid.
     abind (alift (written sid)) (\<lambda>i.
     if i = 0 then
       abind (on_world (rpc_subscribeWs env (query_json ''state_subscribeRuntimeVersion'' []))) (\<lambda>sid.
       abind (upd_api (runtimeVersionSubscriptionId_update (\<lambda>_. Some sid))) (\<lambda>_. aret PAPI_OK))
     else aret PAPI_OK)))"

definition unsubscribeRuntimeVersion :: "'w environment \<Rightarrow> ('w, 'cb, int) api_act" where
  "unsubscribeRuntimeVersion env =
     abind (get_api runtimeVersionSubscriptionId) (\<lambda>sid.
     abind (alift (written sid)) (\<lambda>i.
     if i \<noteq> 0 then
       abind (on_world (rpc_unsubscribeWs env i ''state_unsubscribeRuntimeVersion'')) (\<lambda>_.
       abind (upd_api (\<lambda>s. s\<lparr>runtimeVersionSubscriber := None, runtimeVersionSubscriptionId := Some 0\<rparr>)) (\<lambda>_. aret PAPI_OK))
     else aret PAPI_OK))"

section \<open>Nonces and extrinsics\<close>

text \<open>
  The loop that sleeps until the callback has run, over the updates that arrive meanwhile: \<^term>\<open>None\<close> if
  it still sleeps after all of them. An exception in the handler of an update ends the program.
\<close>

fun wait_nonce :: "(int \<times> json) list \<Rightarrow> ('w, 'cb, 64 word option) api_act" where
  "wait_nonce [] = aret None"
| "wait_nonce ((sid, message) # updates) =
     abind (handleWsMessage sid message) (\<lambda>r. case r of
       Some nonce \<Rightarrow> aret (Some nonce) | None \<Rightarrow> wait_nonce updates)"

text \<open>\<^term>\<open>None\<close> is a call that has not returned.\<close>

definition getAccountNonce :: "'w environment \<Rightarrow> (int \<times> json) list \<Rightarrow> string \<Rightarrow> ('w, 'cb, 64 word option) api_act" where
  "getAccountNonce env updates address =
     abind (subscribeAccountNonce env address (Some GotNonce)) (\<lambda>_.
     abind (wait_nonce updates) (\<lambda>r. case r of
       None \<Rightarrow> aret None
     | Some nonce \<Rightarrow> abind (unsubscribeAccountNonce env address) (\<lambda>_. aret (Some nonce))))"

text \<open>The steps \<open>rest\<close> of an operation after the nonce is there, which is logged.\<close>

definition with_nonce ::
  "'w environment \<Rightarrow> (int \<times> json) list \<Rightarrow> string \<Rightarrow> string \<Rightarrow> (64 word \<Rightarrow> ('w, 'cb, 'a) api_act) \<Rightarrow>
   ('w, 'cb, 'a option) api_act" where
  "with_nonce env updates title sender rest =
     abind (log_line title) (\<lambda>_.
     abind (getAccountNonce env updates sender) (\<lambda>r. case r of
       None \<Rightarrow> aret None
     | Some nonce \<Rightarrow>
         abind (log_line (''sender nonce: '' @ print_int (uint nonce))) (\<lambda>_.
         abind (rest nonce) (\<lambda>x. aret (Some x)))))"

text \<open>
  The text of an extrinsic, with the indices from the metadata. The genesis hash is written before the
  metadata, so that it is there when the metadata is.
\<close>

definition build_extrinsic ::
  "'w environment \<Rightarrow> (32 word \<Rightarrow> CompactIntegerLEBytes \<Rightarrow> uint128) \<Rightarrow> byte list \<Rightarrow> 32 word \<Rightarrow> string \<Rightarrow> string \<Rightarrow>
   string \<Rightarrow> string \<Rightarrow> 64 word \<Rightarrow> ('w, 'cb, string) api_act" where
  "build_extrinsic env total_length encodedMethodBytes encodedMethodBytesSize module method sender privateKey nonce =
     abind (get_api id) (\<lambda>s. alift (
       rbind (follow (prm_metadata s)) (\<lambda>md.
       rbind (getModuleIndex md module False) (\<lambda>absoluteIndex.
       rbind (getModuleIndex md module True) (\<lambda>module_index.
       rbind (getCallMethodIndex md absoluteIndex method) (\<lambda>method_index.
       rbind (written (GenesisBlockHash s)) (\<lambda>genesis.
       extrinsic_string total_length (sr25519_sign env) genesis nonce module_index method_index
         encodedMethodBytes encodedMethodBytesSize sender privateKey)))))))"

definition submitAndSubcribeExtrinsic ::
  "'w environment \<Rightarrow> (int \<times> json) list \<Rightarrow> byte list \<Rightarrow> 32 word \<Rightarrow> string \<Rightarrow> string \<Rightarrow> string \<Rightarrow> string \<Rightarrow> 'cb func \<Rightarrow>
   ('w, 'cb, unit option) api_act" where
  "submitAndSubcribeExtrinsic env updates encodedMethodBytes encodedMethodBytesSize module method sender privateKey callback =
     with_nonce env updates ''=== Started Invoking Extrinsic ==='' sender (\<lambda>nonce.
     abind (build_extrinsic env watch_length encodedMethodBytes encodedMethodBytesSize module method sender privateKey nonce) (\<lambda>teStr.
     abind (upd_api (subcribeExtrinsicSubscriber_update (\<lambda>_. callback))) (\<lambda>_.
     abind (on_world (rpc_subscribeWs env (query_json ''author_submitAndWatchExtrinsic'' [JString teStr]))) (\<lambda>sid.
     upd_api (subcribeExtrinsicSubscriberId_update (\<lambda>_. Some sid))))))"

definition submitExtrinsic ::
  "'w environment \<Rightarrow> (int \<times> json) list \<Rightarrow> byte list \<Rightarrow> 32 word \<Rightarrow> string \<Rightarrow> string \<Rightarrow> string \<Rightarrow> string \<Rightarrow>
   ('w, 'cb, string option) api_act" where
  "submitExtrinsic env updates encodedMethodBytes encodedMethodBytesSize module method sender privateKey =
     with_nonce env updates ''=== Started Invoking Extrinsic ==='' sender (\<lambda>nonce.
     abind (build_extrinsic env submit_length encodedMethodBytes encodedMethodBytesSize module method sender privateKey nonce) (\<lambda>teStr.
     abind (ask env ''author_submitExtrinsic'' [JString teStr]) (\<lambda>response. aret (string_value response))))"

definition build_transfer ::
  "'w environment \<Rightarrow> string \<Rightarrow> string \<Rightarrow> string \<Rightarrow> uint128 \<Rightarrow> 64 word \<Rightarrow> ('w, 'cb, string) api_act" where
  "build_transfer env sender privateKey recipient amount nonce =
     abind (get_api id) (\<lambda>s. alift (
       rbind (written (BalanceModuleIndex s)) (\<lambda>module_index.
       rbind (written (TransferMethodIndex s)) (\<lambda>method_index.
       rbind (written (GenesisBlockHash s)) (\<lambda>genesis.
       transfer_string (sr25519_sign env) genesis nonce module_index method_index sender privateKey recipient amount)))))"

definition signAndSendTransfer ::
  "'w environment \<Rightarrow> (int \<times> json) list \<Rightarrow> string \<Rightarrow> string \<Rightarrow> string \<Rightarrow> uint128 \<Rightarrow> 'cb func \<Rightarrow> ('w, 'cb, unit option) api_act" where
  "signAndSendTransfer env updates sender privateKey recipient amount callback =
     with_nonce env updates ''=== Starting a Transfer Extrinsic ==='' sender (\<lambda>nonce.
     abind (build_transfer env sender privateKey recipient amount nonce) (\<lambda>teStr.
     abind (upd_api (transactionCompletionSubscriber_update (\<lambda>_. callback))) (\<lambda>_.
     abind (on_world (rpc_subscribeWs env (query_json ''author_submitAndWatchExtrinsic'' [JString teStr]))) (\<lambda>sid.
     upd_api (transactionCompletionSubscriptionId_update (\<lambda>_. Some sid))))))"

section \<open>Runs\<close>

datatype 'cb api_op =
    Connect string | Disconnect
  | SubscribeBlockNumber 'cb | UnsubscribeBlockNumber | SubscribeEraAndSession 'cb | UnsubscribeEraAndSession
  | SubscribeBalance string 'cb | UnsubscribeBalance string | SubscribeAccountNonce string 'cb | UnsubscribeAccountNonce string
  | SubscribeStorage string 'cb | UnsubscribeStorage string
  | SubscribeFinalizedBlock 'cb | UnsubscribeFinalizedBlock | SubscribeRuntimeVersion 'cb | UnsubscribeRuntimeVersion
  | GetAccountNonce "(int \<times> json) list" string
  | SubmitAndSubcribeExtrinsic "(int \<times> json) list" "byte list" "32 word" string string string string 'cb
  | SubmitExtrinsic "(int \<times> json) list" "byte list" "32 word" string string string string
  | SignAndSendTransfer "(int \<times> json) list" string string string uint128 'cb
  | Update int json

definition ignore :: "('s, 'a) act \<Rightarrow> ('s, unit) act" where
  "ignore p = abind p (\<lambda>_. aret ())"

fun run_op :: "'w environment \<Rightarrow> 'cb api_op \<Rightarrow> ('w, 'cb, unit) api_act" where
  "run_op env (Connect url) = ignore (connect env url)"
| "run_op env Disconnect = disconnect env"
| "run_op env (SubscribeBlockNumber cb) = ignore (subscribeBlockNumber env (Some (User cb)))"
| "run_op env UnsubscribeBlockNumber = ignore (unsubscribeBlockNumber env)"
| "run_op env (SubscribeEraAndSession cb) = ignore (subscribeEraAndSession env (Some (User cb)))"
| "run_op env UnsubscribeEraAndSession = ignore (unsubscribeEraAndSession env)"
| "run_op env (SubscribeBalance a cb) = ignore (subscribeBalance env a (Some (User cb)))"
| "run_op env (UnsubscribeBalance a) = ignore (unsubscribeBalance env a)"
| "run_op env (SubscribeAccountNonce a cb) = ignore (subscribeAccountNonce env a (Some (User cb)))"
| "run_op env (UnsubscribeAccountNonce a) = ignore (unsubscribeAccountNonce env a)"
| "run_op env (SubscribeStorage k cb) = ignore (subscribeStorage env k (Some (User cb)))"
| "run_op env (UnsubscribeStorage k) = ignore (unsubscribeStorage env k)"
| "run_op env (SubscribeFinalizedBlock cb) = ignore (subscribeFinalizedBlock env (Some (User cb)))"
| "run_op env UnsubscribeFinalizedBlock = ignore (unsubscribeFinalizedBlock env)"
| "run_op env (SubscribeRuntimeVersion cb) = ignore (subscribeRuntimeVersion env (Some (User cb)))"
| "run_op env UnsubscribeRuntimeVersion = ignore (unsubscribeRuntimeVersion env)"
| "run_op env (GetAccountNonce updates a) = ignore (getAccountNonce env updates a)"
| "run_op env (SubmitAndSubcribeExtrinsic updates bytes n module method sender key cb) =
     ignore (submitAndSubcribeExtrinsic env updates bytes n module method sender key (Some (User cb)))"
| "run_op env (SubmitExtrinsic updates bytes n module method sender key) =
     ignore (submitExtrinsic env updates bytes n module method sender key)"
| "run_op env (SignAndSendTransfer updates sender key recipient amount cb) =
     ignore (signAndSendTransfer env updates sender key recipient amount (Some (User cb)))"
| "run_op env (Update sid message) = deliver sid message"

text \<open>
  The states after any sequence of operations and updates, whatever the node and the other threads do
  to the rest of the world and whichever operations throw. The queries change nothing but the log.
\<close>

inductive api_run :: "'w environment \<Rightarrow> 'w \<times> 'cb api \<Rightarrow> bool" for env :: "'w environment" where
  start: "api_run env (w, CPolkaApi)"
| world: "api_run env (w, s) \<Longrightarrow> api_run env (w', s)"
| step: "api_run env ws \<Longrightarrow> run_op env op ws = (r, ws') \<Longrightarrow> api_run env ws'"

section \<open>The invariant\<close>

text \<open>Every key with a subscription has a callback.\<close>

definition keyed_ok :: "(string \<times> 'cb func) list \<Rightarrow> (string \<times> int) list \<Rightarrow> bool" where
  "keyed_ok subs ids \<longleftrightarrow> (\<forall>k. map_of ids k \<noteq> None \<longrightarrow> (\<exists>cb. map_of subs k = Some (Some cb)))"

text \<open>
  A subscription with an id has a callback, and the two ids that are tested before they are assigned
  are never assigned.
\<close>

definition plain_ok :: "'cb api \<Rightarrow> bool" where
  "plain_ok s \<longleftrightarrow>
     (blockNumberSubscriptionId s \<noteq> 0 \<longrightarrow> blockNumberSubscriber s \<noteq> None) \<and>
     (eraAndSessionSubscriptionId s \<noteq> 0 \<longrightarrow> eraAndSessionSubscriber s \<noteq> None) \<and>
     (subcribeExtrinsicSubscriberId s \<notin> {None, Some 0} \<longrightarrow> subcribeExtrinsicSubscriber s \<noteq> None) \<and>
     (transactionCompletionSubscriptionId s \<notin> {None, Some 0} \<longrightarrow> transactionCompletionSubscriber s \<noteq> None) \<and>
     finalizedBlockSubscriptionId s = None \<and> runtimeVersionSubscriptionId s = None"

definition api_inv :: "'cb api \<Rightarrow> bool" where
  "api_inv s \<longleftrightarrow> plain_ok s \<and> keyed_ok (balanceSubscribers s) (balanceSubscriptionIds s) \<and>
     keyed_ok (nonceSubscribers s) (nonceSubscriptionIds s) \<and> keyed_ok (storageSubscribers s) (storageSubscriptionIds s)"

definition keeps :: "('cb api \<Rightarrow> bool) \<Rightarrow> ('w, 'cb, 'a) api_act \<Rightarrow> bool" where
  "keeps I p \<longleftrightarrow> (\<forall>w s r w' s'. I s \<longrightarrow> p (w, s) = (r, (w', s')) \<longrightarrow> I s')"

named_theorems keeps_intro \<open>statements that keep an invariant\<close>

lemma keepsD: "keeps I p \<Longrightarrow> I s \<Longrightarrow> p (w, s) = (r, (w', s')) \<Longrightarrow> I s'"
  unfolding keeps_def by blast

lemma keeps_abind [keeps_intro]: "keeps I p \<Longrightarrow> (\<And>x. keeps I (f x)) \<Longrightarrow> keeps I (abind p f)"
  unfolding keeps_def
proof (intro allI impI)
  fix w s r w' s'
  assume p: "\<forall>w s r w' s'. I s \<longrightarrow> p (w, s) = (r, (w', s')) \<longrightarrow> I s'"
    and f: "\<And>x. \<forall>w s r w' s'. I s \<longrightarrow> f x (w, s) = (r, (w', s')) \<longrightarrow> I s'"
    and s: "I s" and r: "abind p f (w, s) = (r, (w', s'))"
  obtain r1 w1 s1 where p1: "p (w, s) = (r1, (w1, s1))" by (metis prod.exhaust)
  then have "I s1" using p s by blast
  then show "I s'" using r p1 f by (cases r1) (auto simp: abind_def)
qed

lemma keeps_if [keeps_intro]: "keeps I p \<Longrightarrow> keeps I q \<Longrightarrow> keeps I (if b then p else q)"
  by simp

lemma keeps_aret [keeps_intro]: "keeps I (aret x)"
  by (simp add: keeps_def aret_def)

lemma keeps_alift [keeps_intro]: "keeps I (alift r)"
  by (simp add: keeps_def alift_def)

lemma keeps_athrow [keeps_intro]: "keeps I (athrow e)"
  by (simp add: keeps_def athrow_def)

lemma keeps_on_world [keeps_intro]: "keeps I (on_world p)"
  by (auto simp: keeps_def on_world_def split: prod.splits)

lemma keeps_get_api [keeps_intro]: "keeps I (get_api f)"
  by (simp add: keeps_def get_api_def)

lemma keeps_upd_api: "(\<And>s. I s \<Longrightarrow> I (f s)) \<Longrightarrow> keeps I (upd_api f)"
  by (auto simp: keeps_def upd_api_def)

text \<open>After an assignment the rest may rely on more than the invariant.\<close>

lemma keeps_then:
  assumes "\<And>s. I s \<Longrightarrow> J (f s)" "keeps J p" "\<And>s. J s \<Longrightarrow> I s"
  shows "keeps I (abind (upd_api f) (\<lambda>_. p))"
  using assms unfolding keeps_def abind_def upd_api_def by simp blast

text \<open>\<open>I\<close> does not look at the log, the calls made and the best block.\<close>

definition ignores_trace :: "('cb api \<Rightarrow> bool) \<Rightarrow> bool" where
  "ignores_trace I \<longleftrightarrow> (\<forall>s f g h. I (notified_update f s) = I s \<and> I (bestBlockNum_update g s) = I s \<and> I (api_log_update h s) = I s)"

lemma keeps_call_func: "ignores_trace I \<Longrightarrow> keeps I (call_func f v)"
  unfolding call_func_def
  by (auto intro!: keeps_intro keeps_upd_api simp: ignores_trace_def split: option.splits callback.splits notice.splits)

lemma keeps_log_line: "ignores_trace I \<Longrightarrow> keeps I (log_line line)"
  unfolding log_line_def by (rule keeps_upd_api) (simp add: ignores_trace_def)

lemma fst_call_func: "fst (call_func f v ws) = Inl (Throw e) \<Longrightarrow> f = None"
  by (auto simp: call_func_def abind_def upd_api_def aret_def athrow_def split: option.splits callback.splits notice.splits)

definition no_throw :: "'a result \<Rightarrow> bool" where
  "no_throw r \<longleftrightarrow> (\<forall>e. r \<noteq> Inl (Throw e))"

definition not_raises :: "exn \<Rightarrow> ('s, 'a) act \<Rightarrow> 's \<Rightarrow> bool" where
  "not_raises e p s \<longleftrightarrow> fst (p s) \<noteq> Inl (Throw e)"

text \<open>
  What the three families of subscriptions with keys share: a map of callbacks and a map of ids that are
  separate members, of which the invariant \<open>I\<close> says that every id has a callback.
\<close>

locale keyed_subscriptions =
  fixes subs :: "'cb api \<Rightarrow> (string \<times> 'cb func) list"
    and subs_upd :: "((string \<times> 'cb func) list \<Rightarrow> (string \<times> 'cb func) list) \<Rightarrow> 'cb api \<Rightarrow> 'cb api"
    and ids :: "'cb api \<Rightarrow> (string \<times> int) list"
    and ids_upd :: "((string \<times> int) list \<Rightarrow> (string \<times> int) list) \<Rightarrow> 'cb api \<Rightarrow> 'cb api"
    and I :: "'cb api \<Rightarrow> bool" and rest :: "'cb api \<Rightarrow> bool"
  assumes inv_iff: "I s \<longleftrightarrow> keyed_ok (subs s) (ids s) \<and> rest s"
    and subs_subs: "subs (subs_upd f s) = f (subs s)" and ids_ids: "ids (ids_upd g s) = g (ids s)"
    and subs_ids: "subs (ids_upd g s) = subs s" and ids_subs: "ids (subs_upd f s) = ids s"
    and rest_subs: "rest (subs_upd f s) = rest s" and rest_ids: "rest (ids_upd g s) = rest s"
    and trace: "ignores_trace I" and trace_subs: "ignores_trace (\<lambda>s. P (subs s))"
begin

lemmas frame = subs_subs ids_ids subs_ids ids_subs rest_subs rest_ids

lemma keeps_call: "keeps I (call_keyed subs subs_upd key v)"
  unfolding keeps_def
proof (intro allI impI)
  fix w s r w' s' assume s: "I s" and c: "call_keyed subs subs_upd key v (w, s) = (r, (w', s'))"
  have call: "keeps I (abind (alift v) (call_func f))" for f by (rule keeps_abind [OF keeps_alift keeps_call_func [OF trace]])
  show "I s'"
  proof (cases "map_of (subs s) key")
    case None
    then have "map_of (ids s) key = None" using s by (auto simp: inv_iff keyed_ok_def)
    then have "I (subs_upd (map_put key None) s)" using s by (auto simp: inv_iff frame keyed_ok_def)
    moreover have "abind (alift v) (call_func None) (w, subs_upd (map_put key None) s) = (r, (w', s'))"
      using c None by (simp add: call_keyed_def abind_def get_api_def upd_api_def)
    ultimately show ?thesis by (rule keepsD [OF call])
  next
    case (Some f)
    then have "abind (alift v) (call_func f) (w, s) = (r, (w', s'))"
      using c by (simp add: call_keyed_def abind_def get_api_def)
    with s show ?thesis by (rule keepsD [OF call])
  qed
qed

lemma call_not_empty:
  assumes "I s" "map_of (ids s) key \<noteq> None" "no_throw v"
  shows "not_raises e (call_keyed subs subs_upd key v) (w, s)"
proof -
  obtain cb where "map_of (subs s) key = Some (Some cb)" using assms(1,2) by (auto simp: inv_iff keyed_ok_def)
  then show ?thesis using assms(3) fst_call_func [of "Some cb"]
    by (cases v) (auto simp: call_keyed_def abind_def get_api_def alift_def no_throw_def not_raises_def)
qed

lemma keeps_unsubscribe: "keeps I (unsubscribe_keyed env ids ids_upd subs_upd key)"
  unfolding keeps_def
proof (intro allI impI)
  fix w s r w' s' assume s: "I s" and c: "unsubscribe_keyed env ids ids_upd subs_upd key (w, s) = (r, (w', s'))"
  show "I s'"
  proof (cases "map_of (ids s) key")
    case None
    then show ?thesis using c s by (simp add: unsubscribe_keyed_def abind_def get_api_def aret_def)
  next
    case (Some i)
    obtain r1 w1 where "rpc_unsubscribeWs env i ''state_unsubscribeStorage'' w = (r1, w1)" by (cases "rpc_unsubscribeWs env i ''state_unsubscribeStorage'' w")
    then have "s' = s \<or> s' = ids_upd (map_erase key) (subs_upd (map_erase key) s)"
      using c Some by (cases r1) (auto simp: unsubscribe_keyed_def abind_def get_api_def on_world_def upd_api_def aret_def)
    then show ?thesis using s by (auto simp: inv_iff frame keyed_ok_def)
  qed
qed

abbreviation with_callback :: "string \<Rightarrow> 'cb api \<Rightarrow> bool" where
  "with_callback key s \<equiv> I s \<and> (\<exists>cb. map_of (subs s) key = Some (Some cb))"

lemma trace_callback: "ignores_trace (with_callback key)"
  using trace trace_subs [of "\<lambda>m. \<exists>cb. map_of m key = Some (Some cb)"] by (auto simp: ignores_trace_def)

lemma keeps_assign: "keeps (with_callback key) (assign_id env ids_upd key query)"
  unfolding assign_id_def
  by (auto intro!: keeps_intro keeps_upd_api simp: inv_iff frame keyed_ok_def split: if_splits)

lemma keeps_subscribe:
  assumes "keeps (with_callback key) p"
  shows "keeps I (abind (upd_api (subs_upd (map_put key (Some cb)))) (\<lambda>_. p))"
  by (rule keeps_then [OF _ assms]) (auto simp: inv_iff frame keyed_ok_def)

end

interpretation balance: keyed_subscriptions balanceSubscribers balanceSubscribers_update balanceSubscriptionIds
  balanceSubscriptionIds_update api_inv
  "\<lambda>s. plain_ok s \<and> keyed_ok (nonceSubscribers s) (nonceSubscriptionIds s) \<and> keyed_ok (storageSubscribers s) (storageSubscriptionIds s)"
  by unfold_locales (auto simp: api_inv_def plain_ok_def ignores_trace_def)

interpretation account: keyed_subscriptions nonceSubscribers nonceSubscribers_update nonceSubscriptionIds
  nonceSubscriptionIds_update api_inv
  "\<lambda>s. plain_ok s \<and> keyed_ok (balanceSubscribers s) (balanceSubscriptionIds s) \<and> keyed_ok (storageSubscribers s) (storageSubscriptionIds s)"
  by unfold_locales (auto simp: api_inv_def plain_ok_def ignores_trace_def)

interpretation storage: keyed_subscriptions storageSubscribers storageSubscribers_update storageSubscriptionIds
  storageSubscriptionIds_update api_inv
  "\<lambda>s. plain_ok s \<and> keyed_ok (balanceSubscribers s) (balanceSubscriptionIds s) \<and> keyed_ok (nonceSubscribers s) (nonceSubscriptionIds s)"
  by unfold_locales (auto simp: api_inv_def plain_ok_def ignores_trace_def)

subsection \<open>Every operation keeps the invariant\<close>

lemmas inv_defs = api_inv_def plain_ok_def keyed_ok_def
lemmas api_inv_trace = balance.trace

lemma keeps_acatch_app [keeps_intro]: "keeps I p \<Longrightarrow> keeps I (acatch_app p)"
  unfolding keeps_def acatch_app_def by (force split: prod.splits sum.splits cxx_error.splits exn.splits)

lemma keeps_ignore [keeps_intro]: "keeps I p \<Longrightarrow> keeps I (ignore p)"
  unfolding ignore_def by (intro keeps_intro)

lemma keeps_ask [keeps_intro]: "keeps I (ask env method prm)"
  unfolding ask_def by (rule keeps_on_world)

lemma keeps_deserialize: "ignores_trace I \<Longrightarrow> keeps I (api_deserialize env F j)"
  unfolding api_deserialize_def by (auto intro!: keeps_intro keeps_log_line split: sum.splits cxx_error.splits)

lemma keeps_getBlockHash: "ignores_trace I \<Longrightarrow> keeps I (getBlockHash env prm)"
  unfolding getBlockHash_def by (intro keeps_intro keeps_deserialize)

lemma keeps_getMetadata: "ignores_trace I \<Longrightarrow> keeps I (getMetadata env prm)"
  unfolding getMetadata_def
  by (auto intro!: keeps_intro keeps_deserialize keeps_upd_api simp: ignores_trace_def)

lemma keeps_api_getKeys [keeps_intro]: "keeps I (api_getKeys prm module variable)"
  unfolding api_getKeys_def by (intro keeps_intro)

lemma keeps_connect: "keeps api_inv (connect env url)"
proof -
  have babe: "keeps api_inv read_babe"
    unfolding read_babe_def by (intro keeps_intro keeps_upd_api) (simp_all add: inv_defs)
  have prm: "keeps api_inv (read_parameters md)" for md
    unfolding read_parameters_def
    by (intro keeps_intro keeps_upd_api keeps_log_line api_inv_trace) (simp_all add: inv_defs)
  show ?thesis unfolding connect_def
    by (intro keeps_intro keeps_upd_api keeps_log_line keeps_getBlockHash keeps_getMetadata babe prm api_inv_trace)
      (simp_all add: inv_defs)
qed

lemma keeps_account_key [keeps_intro]: "keeps I (account_key address pfx)"
  unfolding account_key_def by (intro keeps_intro)

lemma keeps_subscribeBalance: "keeps api_inv (subscribeBalance env address (Some cb))"
  unfolding subscribeBalance_def
  by (rule balance.keeps_subscribe) (auto intro!: keeps_intro balance.keeps_assign)

lemma keeps_subscribeAccountNonce: "keeps api_inv (subscribeAccountNonce env address (Some cb))"
  unfolding subscribeAccountNonce_def
  by (rule account.keeps_subscribe)
    (auto intro!: keeps_intro account.keeps_assign keeps_log_line account.trace_callback)

lemma keeps_subscribeStorage: "keeps api_inv (subscribeStorage env key (Some cb))"
  unfolding subscribeStorage_def
  by (rule storage.keeps_subscribe) (auto intro!: keeps_intro storage.keeps_assign)

lemma keeps_subscribeBlockNumber:
  assumes "\<And>s f g. E (blockNumberSubscriber_update f s) = E s \<and> E (blockNumberSubscriptionId_update g s) = E s"
  shows "keeps (\<lambda>s. api_inv s \<and> E s) (subscribeBlockNumber env (Some cb))"
  unfolding subscribeBlockNumber_def
  by (rule keeps_then [where J = "\<lambda>s. (api_inv s \<and> E s) \<and> blockNumberSubscriber s \<noteq> None"])
    (use assms in \<open>auto intro!: keeps_intro keeps_upd_api simp: inv_defs\<close>)

lemma keeps_subscribeEraAndSession: "keeps api_inv (subscribeEraAndSession env (Some cb))"
  unfolding subscribeEraAndSession_def
proof (rule keeps_then [where J = "\<lambda>s. api_inv s \<and> eraAndSessionSubscriber s \<noteq> None"], goal_cases)
  case 2
  show ?case by (intro keeps_intro keeps_upd_api keeps_subscribeBlockNumber) (simp_all add: inv_defs)
qed (simp_all add: inv_defs)

lemma keeps_unsubscribeBlockNumber: "keeps api_inv (unsubscribeBlockNumber env)"
  unfolding unsubscribeBlockNumber_def by (auto intro!: keeps_intro keeps_upd_api simp: inv_defs)

lemma keeps_unsubscribeEraAndSession: "keeps api_inv (unsubscribeEraAndSession env)"
  unfolding unsubscribeEraAndSession_def
  by (auto intro!: keeps_intro keeps_upd_api keeps_unsubscribeBlockNumber simp: inv_defs)

text \<open>The operations on the two ids that are never assigned.\<close>

lemma subscribe_uninitialised:
  assumes "api_inv s"
  shows "subscribeFinalizedBlock env f (w, s) = (Inl (Undefined Uninitialised), (w, s\<lparr>finalizedBlockSubscriber := f\<rparr>))"
    "subscribeRuntimeVersion env f (w, s) = (Inl (Undefined Uninitialised), (w, s\<lparr>runtimeVersionSubscriber := f\<rparr>))"
    "unsubscribeFinalizedBlock env (w, s) = (Inl (Undefined Uninitialised), (w, s))"
    "unsubscribeRuntimeVersion env (w, s) = (Inl (Undefined Uninitialised), (w, s))"
  using assms
  by (simp_all add: subscribeFinalizedBlock_def subscribeRuntimeVersion_def unsubscribeFinalizedBlock_def
      unsubscribeRuntimeVersion_def abind_def upd_api_def get_api_def alift_def written_def api_inv_def plain_ok_def)

lemma keeps_uninitialised:
  "keeps api_inv (subscribeFinalizedBlock env f)" "keeps api_inv (subscribeRuntimeVersion env f)"
  "keeps api_inv (unsubscribeFinalizedBlock env)" "keeps api_inv (unsubscribeRuntimeVersion env)"
  by (auto simp: keeps_def subscribe_uninitialised) (auto simp: inv_defs)

lemma keeps_case_option [keeps_intro]:
  "keeps I p \<Longrightarrow> (\<And>x. keeps I (q x)) \<Longrightarrow> keeps I (case_option p q r)"
  by (cases r) simp_all

lemma keeps_handleWsMessage: "keeps api_inv (handleWsMessage sid message)"
proof -
  have completion: "keeps api_inv (handle_completion message)"
    unfolding handle_completion_def
    by (intro keeps_intro keeps_upd_api keeps_call_func api_inv_trace) (simp add: inv_defs)
  have era: "keeps api_inv (handle_era message)"
    unfolding handle_era_def by (intro keeps_intro keeps_call_func api_inv_trace)
  show ?thesis unfolding handleWsMessage_def
    by (intro keeps_intro keeps_call_func completion era account.keeps_call balance.keeps_call storage.keeps_call api_inv_trace)
qed

lemma keeps_wait_nonce: "keeps api_inv (wait_nonce updates)"
proof (induction updates)
  case (Cons u updates)
  then show ?case by (cases u) (auto intro!: keeps_intro keeps_handleWsMessage)
qed (simp add: keeps_aret)

lemma keeps_getAccountNonce: "keeps api_inv (getAccountNonce env updates address)"
  unfolding getAccountNonce_def unsubscribeAccountNonce_def
  by (intro keeps_intro keeps_subscribeAccountNonce keeps_wait_nonce account.keeps_unsubscribe)

lemma keeps_with_nonce:
  "(\<And>nonce. keeps api_inv (rest nonce)) \<Longrightarrow> keeps api_inv (with_nonce env updates title sender rest)"
  unfolding with_nonce_def by (intro keeps_intro keeps_log_line keeps_getAccountNonce api_inv_trace)

lemma keeps_builders [keeps_intro]:
  "keeps I (build_extrinsic env l bytes n module method sender key nonce)"
  "keeps I (build_transfer env sender key recipient amount nonce)"
  unfolding build_extrinsic_def build_transfer_def by (intro keeps_intro)+

lemma keeps_submitAndSubcribeExtrinsic:
  "keeps api_inv (submitAndSubcribeExtrinsic env updates bytes n module method sender key (Some cb))"
  unfolding submitAndSubcribeExtrinsic_def
  by (intro keeps_with_nonce keeps_abind keeps_builders
      keeps_then [where J = "\<lambda>s. api_inv s \<and> subcribeExtrinsicSubscriber s \<noteq> None"] keeps_on_world keeps_upd_api)
    (auto simp: inv_defs)

lemma keeps_signAndSendTransfer:
  "keeps api_inv (signAndSendTransfer env updates sender key recipient amount (Some cb))"
  unfolding signAndSendTransfer_def
  by (intro keeps_with_nonce keeps_abind keeps_builders
      keeps_then [where J = "\<lambda>s. api_inv s \<and> transactionCompletionSubscriber s \<noteq> None"] keeps_on_world keeps_upd_api)
    (auto simp: inv_defs)

lemma keeps_run_op: "keeps api_inv (run_op env op)"
  by (cases op)
    (auto intro!: keeps_intro keeps_connect keeps_subscribeBlockNumber [where E = "\<lambda>_. True", simplified]
      keeps_unsubscribeBlockNumber keeps_subscribeEraAndSession keeps_unsubscribeEraAndSession keeps_subscribeBalance
      keeps_subscribeAccountNonce keeps_subscribeStorage balance.keeps_unsubscribe account.keeps_unsubscribe
      storage.keeps_unsubscribe keeps_uninitialised keeps_getAccountNonce keeps_submitAndSubcribeExtrinsic
      keeps_signAndSendTransfer keeps_with_nonce keeps_handleWsMessage
      simp: disconnect_def unsubscribeBalance_def unsubscribeAccountNonce_def unsubscribeStorage_def
      submitExtrinsic_def deliver_def)

lemma api_run_inv: "api_run env ws \<Longrightarrow> api_inv (snd ws)"
proof (induction rule: api_run.induct)
  case (start w)
  show ?case by (simp add: CPolkaApi_def inv_defs)
next
  case (step ws op r ws')
  obtain w s w' s' where "ws = (w, s)" "ws' = (w', s')" by (metis prod.exhaust)
  then show ?case using step keepsD [OF keeps_run_op] by (metis snd_conv)
qed simp_all

subsection \<open>Updates find a callback\<close>

named_theorems no_throw_intro \<open>computations that throw no exception\<close>

lemma no_throw_rbind [no_throw_intro]: "no_throw r \<Longrightarrow> (\<And>x. no_throw (f x)) \<Longrightarrow> no_throw (rbind r f)"
  by (auto simp: no_throw_def rbind_Inl_iff)

lemma no_throw_if [no_throw_intro]: "no_throw p \<Longrightarrow> no_throw q \<Longrightarrow> no_throw (if b then p else q)"
  by simp

lemma no_throw_basic [no_throw_intro]:
  "no_throw (Inr x)" "no_throw (written y)" "no_throw (checked64 i)" "no_throw (rem64 i j)" "no_throw (shl64 i n)"
  by (auto simp: no_throw_def written_def checked64_def rem64_def shl64_def split: option.splits)

lemma no_throw_fromHex [no_throw_intro]: "no_throw (fromHex s b)"
proof -
  have "no_throw (fromHex_loop b cs n v)" for cs n and v :: "'a :: len word"
    by (induction b cs n v rule: fromHex_loop.induct) (auto simp: no_throw_def Let_def)
  then show ?thesis by (simp add: fromHex_def)
qed

lemma no_throw_fromHex_ll [no_throw_intro]: "no_throw (fromHex_ll s b)"
proof -
  have "no_throw (fromHex_ll_loop b cs n v)" for cs n v
    by (induction b cs n v rule: fromHex_ll_loop.induct) (auto simp: Let_def intro!: no_throw_intro)
  then show ?thesis by (simp add: fromHex_ll_def)
qed

lemma no_throw_change_ll [no_throw_intro]: "no_throw (change_ll message i)"
  unfolding change_ll_def by (intro no_throw_intro)

lemma no_throw_era [no_throw_intro]:
  "no_throw (epoch_update d n message)" "no_throw (session_update b message)"
  unfolding epoch_update_def session_update_def era_progress_def by (intro no_throw_intro)+

lemma key_of_id_Some: "key_of_id ids sid = Some key \<Longrightarrow> map_of ids key \<noteq> None"
  by (induction ids) (auto simp: key_of_id_def split: if_splits)

named_theorems not_raises_intro \<open>statements that do not raise an exception\<close>

lemma not_raises_alift [not_raises_intro]:
  "no_throw r \<Longrightarrow> (\<And>x. r = Inr x \<Longrightarrow> not_raises e (f x) s) \<Longrightarrow> not_raises e (abind (alift r) f) s"
  by (cases r) (auto simp: abind_def alift_def no_throw_def not_raises_def)

lemma not_raises_if [not_raises_intro]:
  "(b \<Longrightarrow> not_raises e p s) \<Longrightarrow> (\<not> b \<Longrightarrow> not_raises e q s) \<Longrightarrow> not_raises e (if b then p else q) s"
  by simp

lemma not_raises_aret [not_raises_intro]: "not_raises e (aret x) s"
  by (simp add: not_raises_def aret_def)

lemma not_raises_option [not_raises_intro]:
  "(r = None \<Longrightarrow> not_raises e p s) \<Longrightarrow> (\<And>x. r = Some x \<Longrightarrow> not_raises e (q x) s) \<Longrightarrow> not_raises e (case_option p q r) s"
  by (cases r) simp_all

lemma not_raises_call [not_raises_intro]: "f \<noteq> None \<Longrightarrow> not_raises e (call_func f v) ws"
  unfolding not_raises_def using fst_call_func by blast

lemma get_api_then: "abind (get_api f) g ws = g (f (snd ws)) ws"
  by (simp add: abind_def get_api_def)

lemma not_raises_get [not_raises_intro]: "not_raises e (g (f (snd ws))) ws \<Longrightarrow> not_raises e (abind (get_api f) g) ws"
  by (simp add: not_raises_def get_api_then)

lemma not_raises_upd [not_raises_intro]: "not_raises e (g ()) (fst ws, f (snd ws)) \<Longrightarrow> not_raises e (abind (upd_api f) g) ws"
  by (simp add: not_raises_def abind_def upd_api_def)

lemma not_raises_abind:
  "not_raises e p s \<Longrightarrow> (\<And>x s'. not_raises e (f x) s') \<Longrightarrow> not_raises e (abind p f) s"
  by (auto simp: not_raises_def abind_def split: prod.splits sum.splits)

lemma written_Inr: "written x = Inr i \<longleftrightarrow> x = Some i"
  by (auto simp: written_def split: option.splits)

lemma handle_era_callback: "eraAndSessionSubscriber s \<noteq> None \<Longrightarrow> not_raises e (handle_era message) (w, s)"
  unfolding handle_era_def by (intro not_raises_intro no_throw_intro) simp_all

lemma handle_completion_callback:
  "transactionCompletionSubscriber s \<noteq> None \<Longrightarrow> not_raises e (handle_completion message) (w, s)"
  unfolding handle_completion_def by (intro not_raises_get not_raises_if not_raises_abind not_raises_call not_raises_upd not_raises_aret) simp_all

lemma handle_callback:
  assumes inv: "api_inv s" and sid: "sid \<noteq> 0"
  shows "not_raises BadFunctionCall (handleWsMessage sid message) (w, s)"
proof -
  have un: "finalizedBlockSubscriptionId s = None" using inv by (simp add: api_inv_def plain_ok_def)
  have cbs: "blockNumberSubscriptionId s = sid \<Longrightarrow> blockNumberSubscriber s \<noteq> None"
    "eraAndSessionSubscriptionId s = sid \<Longrightarrow> eraAndSessionSubscriber s \<noteq> None"
    "subcribeExtrinsicSubscriberId s = Some sid \<Longrightarrow> subcribeExtrinsicSubscriber s \<noteq> None"
    "transactionCompletionSubscriptionId s = Some sid \<Longrightarrow> transactionCompletionSubscriber s \<noteq> None"
    using inv sid by (auto simp: api_inv_def plain_ok_def)
  have none: "not_raises BadFunctionCall (abind (alift (written None)) f) ws" for f ws
    by (simp add: not_raises_def abind_def alift_def written_def)
  show ?thesis unfolding handleWsMessage_def
  proof (rule not_raises_get, simp only: snd_conv id_apply un, intro not_raises_if not_raises_option
      account.call_not_empty [OF inv key_of_id_Some] balance.call_not_empty [OF inv key_of_id_Some] none
      not_raises_alift no_throw_intro not_raises_call handle_era_callback handle_completion_callback)
  qed (auto simp: written_Inr cbs)
qed

text \<open>Whatever source of updates keeps the contract of observers.\<close>

context update_source
begin

lemma update_callback:
  "api_run env (w, s) \<Longrightarrow> gives r sid message \<Longrightarrow> not_raises BadFunctionCall (handleWsMessage sid message) (w, s)"
  using handle_callback [OF api_run_inv [of env "(w, s)", simplified] gives_nonzero] .

end

subsection \<open>Delivery\<close>

lemma act_then:
  "abind (alift (Inr x)) f ws = f x ws" "abind (alift (Inl e)) g ws = (Inl e, ws)" "abind (aret x) f ws = f x ws"
  "abind (upd_api u) h ws = h () (fst ws, u (snd ws))"
  by (simp_all add: abind_def alift_def aret_def upd_api_def)

lemmas act_simps = act_then get_api_then

lemma map_put_put: "map_put k v (map_put k v' kvs) = map_put k v kvs"
  by (induction k v' kvs rule: map_put.induct) auto

lemma key_of_id_put:
  "key_of_id ids sid = None \<Longrightarrow> key_of_id (map_put key sid ids) sid = Some key"
  by (induction key sid ids rule: map_put.induct) (auto simp: key_of_id_def split: if_splits)

lemma call_keyed_user:
  assumes "map_of (subs s) key = Some (Some (User cb))"
  shows "call_keyed subs subs_upd key (Inr v) (w, s) = (Inr None, (w, s\<lparr>notified := notified s @ [(cb, v)]\<rparr>))"
  using assms by (simp add: call_keyed_def act_simps call_func_def) (simp add: aret_def)

lemma handle_nonce:
  assumes "blockNumberSubscriptionId s \<noteq> sid" "key_of_id (nonceSubscriptionIds s) sid = Some address"
    "map_of (nonceSubscribers s) address = Some (Some GotNonce)"
    "fromHex (string_value (change message 0)) False = Inr nonce"
  shows "handleWsMessage sid message (w, s) = (Inr (Some nonce), (w, s))"
  using assms unfolding handleWsMessage_def get_api_then
  by (simp add: call_keyed_def act_simps call_func_def) (simp add: aret_def)

lemma assign_id_returns:
  assumes "\<And>f g. ids_upd f (ids_upd g s) = ids_upd (\<lambda>m. f (g m)) s" "map_of (ids s) key = None"
    "\<And>f g. f (ids s) = g (ids s) \<Longrightarrow> ids_upd f s = ids_upd g s"
    "rpc_subscribeWs env query w = (Inr sid, w')"
  shows "assign_id env ids_upd key query (w, s) = (Inr (), (w', ids_upd (map_put key sid) s))"
proof -
  have "ids_upd (\<lambda>m. map_put key sid (if map_of m key = None then map_put key 0 m else m)) s = ids_upd (map_put key sid) s"
    by (rule assms(3)) (simp add: assms(2) map_put_put)
  then show ?thesis using assms(1,4)
    by (cases "lhs_first env") (simp_all add: assign_id_def abind_def upd_api_def on_world_def aret_def)
qed

lemma account_key_value:
  assumes "FreeBalanceHasher s = Some h" "getPublicKeyFromAddr_str address = Inr pk" "length pfx \<le> STRING_SIZE"
  shows "account_key address pfx (w, s) = (Inr (storage_key_spec h (char_bytes pfx @ pk)), (w, s))"
proof -
  have "ADDRESS_LENGTH \<le> length address + 1" "getPublicKeyFromAddr (char_bytes (take ADDRESS_LENGTH (address @ [NUL]))) = Inr pk"
    using assms(2) by (auto simp: getPublicKeyFromAddr_str_def split: if_splits)
  then show ?thesis using assms(1,3)
    by (simp add: account_key_def act_simps) (simp add: alift_def written_def getAddressStorageKey_def getStorageKey_value)
qed

abbreviation balance_key :: "Hasher \<Rightarrow> byte list \<Rightarrow> string" where
  "balance_key h pk \<equiv> storage_key_spec h (char_bytes ''Balances FreeBalance'' @ pk)"

abbreviation nonce_key :: "Hasher \<Rightarrow> byte list \<Rightarrow> string" where
  "nonce_key h pk \<equiv> storage_key_spec h (char_bytes ''System AccountNonce'' @ pk)"

lemma subscribeBalance_returns:
  assumes "FreeBalanceHasher s = Some h" "getPublicKeyFromAddr_str address = Inr pk"
    "map_of (balanceSubscriptionIds s) address = None"
    "rpc_subscribeWs env (storage_query [JString (balance_key h pk)]) w = (Inr sid, w')"
  shows "subscribeBalance env address f (w, s) = (Inr PAPI_OK, (w',
    s\<lparr>balanceSubscribers := map_put address f (balanceSubscribers s),
      balanceSubscriptionIds := map_put address sid (balanceSubscriptionIds s)\<rparr>))"
proof -
  define s1 where "s1 = balanceSubscribers_update (map_put address f) s"
  have k: "account_key address ''Balances FreeBalance'' (w, s1) = (Inr (balance_key h pk), (w, s1))"
    by (rule account_key_value) (simp_all add: s1_def assms(1,2) STRING_SIZE_def)
  have a: "assign_id env balanceSubscriptionIds_update address (storage_query [JString (balance_key h pk)]) (w, s1) =
      (Inr (), (w', balanceSubscriptionIds_update (map_put address sid) s1))"
    by (rule assign_id_returns [where ids = balanceSubscriptionIds]) (simp_all add: s1_def assms(3,4))
  have "subscribeBalance env address f (w, s) = abind (account_key address ''Balances FreeBalance'') (\<lambda>storageKey.
      abind (assign_id env balanceSubscriptionIds_update address (storage_query [JString storageKey])) (\<lambda>_. aret PAPI_OK)) (w, s1)"
    by (simp add: subscribeBalance_def act_simps assms(3) s1_def)
  also have "\<dots> = (Inr PAPI_OK, (w', balanceSubscriptionIds_update (map_put address sid) s1))"
    by (simp only: abind_def k a prod.case sum.case aret_def)
  finally show ?thesis by (cases s) (simp add: s1_def)
qed

lemma subscribeAccountNonce_returns:
  assumes "FreeBalanceHasher s = Some h" "getPublicKeyFromAddr_str address = Inr pk"
    "map_of (nonceSubscriptionIds s) address = None"
    "rpc_subscribeWs env (storage_query [JString (nonce_key h pk)]) w = (Inr sid, w')"
  shows "subscribeAccountNonce env address f (w, s) = (Inr PAPI_OK, (w',
    s\<lparr>nonceSubscribers := map_put address f (nonceSubscribers s),
      nonceSubscriptionIds := map_put address sid (nonceSubscriptionIds s),
      api_log := api_log s @ [''Nonce subscription storageKey: '' @ nonce_key h pk]\<rparr>))"
proof -
  define s1 where "s1 = nonceSubscribers_update (map_put address f) s"
  define s2 where "s2 = s1\<lparr>api_log := api_log s @ [''Nonce subscription storageKey: '' @ nonce_key h pk]\<rparr>"
  have k: "account_key address ''System AccountNonce'' (w, s1) = (Inr (nonce_key h pk), (w, s1))"
    by (rule account_key_value) (simp_all add: s1_def assms(1,2) STRING_SIZE_def)
  have a: "assign_id env nonceSubscriptionIds_update address (storage_query [JString (nonce_key h pk)]) (w, s2) =
      (Inr (), (w', nonceSubscriptionIds_update (map_put address sid) s2))"
    by (rule assign_id_returns [where ids = nonceSubscriptionIds]) (simp_all add: s1_def s2_def assms(3,4))
  have "subscribeAccountNonce env address f (w, s) = abind (account_key address ''System AccountNonce'') (\<lambda>storageKey.
      abind (log_line (''Nonce subscription storageKey: '' @ storageKey)) (\<lambda>_.
      abind (assign_id env nonceSubscriptionIds_update address (storage_query [JString storageKey])) (\<lambda>_. aret PAPI_OK))) (w, s1)"
    by (simp add: subscribeAccountNonce_def act_simps assms(3) s1_def)
  also have "\<dots> = abind (assign_id env nonceSubscriptionIds_update address (storage_query [JString (nonce_key h pk)])) (\<lambda>_. aret PAPI_OK) (w, s2)"
    by (simp only: abind_Inr [where p = "account_key address ''System AccountNonce''", OF k])
      (simp add: log_line_def act_simps s1_def s2_def)
  also have "\<dots> = (Inr PAPI_OK, (w', nonceSubscriptionIds_update (map_put address sid) s2))"
    by (simp only: abind_def a prod.case sum.case aret_def)
  finally show ?thesis by (cases s) (simp add: s1_def s2_def)
qed

text \<open>
  The subscription to the nonce of an account has the id \<open>sid\<close>: the node gives it that new id, or the
  user has made it before.
\<close>

definition nonce_subscription ::
  "'w environment \<Rightarrow> 'cb api \<Rightarrow> Hasher \<Rightarrow> string \<Rightarrow> byte list \<Rightarrow> int \<Rightarrow> 'w \<Rightarrow> 'w \<Rightarrow> bool" where
  "nonce_subscription env s h address pk sid w w1 \<longleftrightarrow>
     map_of (nonceSubscriptionIds s) address = None \<and> key_of_id (nonceSubscriptionIds s) sid = None \<and>
       rpc_subscribeWs env (storage_query [JString (nonce_key h pk)]) w = (Inr sid, w1) \<or>
     map_of (nonceSubscriptionIds s) address = Some sid \<and> key_of_id (nonceSubscriptionIds s) sid = Some address \<and> w1 = w"

lemma nonce_subscribed:
  assumes "FreeBalanceHasher s = Some h" "getPublicKeyFromAddr_str address = Inr pk"
    "nonce_subscription env s h address pk sid w w1" "blockNumberSubscriptionId s \<noteq> sid"
  obtains s1 where "subscribeAccountNonce env address (Some GotNonce) (w, s) = (Inr PAPI_OK, (w1, s1))"
    "blockNumberSubscriptionId s1 \<noteq> sid" "map_of (nonceSubscriptionIds s1) address = Some sid"
    "key_of_id (nonceSubscriptionIds s1) sid = Some address" "map_of (nonceSubscribers s1) address = Some (Some GotNonce)"
    "BalanceModuleIndex s1 = BalanceModuleIndex s" "TransferMethodIndex s1 = TransferMethodIndex s"
    "GenesisBlockHash s1 = GenesisBlockHash s"
proof (cases "map_of (nonceSubscriptionIds s) address")
  case None
  then have "key_of_id (nonceSubscriptionIds s) sid = None"
    "rpc_subscribeWs env (storage_query [JString (nonce_key h pk)]) w = (Inr sid, w1)"
    using assms(3) by (simp_all add: nonce_subscription_def)
  then show ?thesis
    using that [OF subscribeAccountNonce_returns [OF assms(1,2) None]] assms(4) by (simp add: key_of_id_put)
next
  case (Some i)
  have "subscribeAccountNonce env address (Some GotNonce) (w, s) =
      (Inr PAPI_OK, (w, nonceSubscribers_update (map_put address (Some GotNonce)) s))"
    by (simp add: subscribeAccountNonce_def act_simps Some) (simp add: aret_def)
  then show ?thesis using that assms(3,4) Some by (auto simp: nonce_subscription_def)
qed

lemma getAccountNonce_first:
  assumes "subscribeAccountNonce env address (Some GotNonce) (w, s) = (Inr PAPI_OK, (w1, s1))"
    "handleWsMessage sid message (w1, s1) = (Inr (Some nonce), (w1, s1))"
  shows "getAccountNonce env ((sid, message) # updates) address (w, s) =
    abind (unsubscribeAccountNonce env address) (\<lambda>_. aret (Some nonce)) (w1, s1)"
proof -
  have "wait_nonce ((sid, message) # updates) (w1, s1) = (Inr (Some nonce), (w1, s1))"
    using assms(2) by (simp add: abind_def aret_def)
  then show ?thesis
    using assms(1) by (simp add: getAccountNonce_def abind_def [of "subscribeAccountNonce _ _ _"]
        abind_def [of "wait_nonce _"] del: wait_nonce.simps)
qed

text \<open>What the call leaves behind when it returns.\<close>

definition nonce_done :: "string \<Rightarrow> 'cb api \<Rightarrow> 'cb api" where
  "nonce_done address s = nonceSubscriptionIds_update (map_erase address) (nonceSubscribers_update (map_erase address) s)"

lemma getAccountNonce_done:
  assumes "subscribeAccountNonce env address (Some GotNonce) (w, s) = (Inr PAPI_OK, (w1, s1))"
    "handleWsMessage sid message (w1, s1) = (Inr (Some nonce), (w1, s1))"
    "map_of (nonceSubscriptionIds s1) address = Some sid"
    "rpc_unsubscribeWs env sid ''state_unsubscribeStorage'' w1 = (Inr n, w2)"
  shows "getAccountNonce env ((sid, message) # updates) address (w, s) = (Inr (Some nonce), (w2, nonce_done address s1))"
  unfolding getAccountNonce_first [OF assms(1,2)] nonce_done_def
  by (simp add: unsubscribeAccountNonce_def unsubscribe_keyed_def abind_def on_world_def get_api_def upd_api_def
      assms(3,4) aret_def)

lemma with_nonce_then:
  assumes "getAccountNonce env updates sender (w, s\<lparr>api_log := api_log s @ [title]\<rparr>) = (Inr (Some nonce), (w1, s1))"
  shows "with_nonce env updates title sender rest (w, s) = abind (rest nonce) (\<lambda>x. aret (Some x))
    (w1, s1\<lparr>api_log := api_log s1 @ [''sender nonce: '' @ print_int (uint nonce)]\<rparr>)"
  unfolding with_nonce_def log_line_def act_simps fst_conv snd_conv abind_Inr [of "getAccountNonce env updates sender", OF assms]
    option.case by (rule refl)

lemma fromHex_nonce:
  assumes "string_value (change message 0) = ''0x'' @ hex_bytes u bytes" "length bytes \<le> 8"
  shows "fromHex (string_value (change message 0)) False = Inr (word_of_int (le_int bytes) :: 64 word)"
  using fromHex_hex [where ?'a = 64, of "''0x''" u bytes] assms by simp

section \<open>Properties\<close>

text \<open>A node that answers every subscription with the id 7, and an update with a value.\<close>

definition sample_env :: "unit environment" where
  "sample_env = \<lparr>rpc_connect = \<lambda>url w. (0, w), rpc_disconnect = \<lambda>w. w, rpc_request = \<lambda>q t w. (Inr JNull, w),
     rpc_subscribeWs = \<lambda>q w. (Inr 7, w), rpc_unsubscribeWs = \<lambda>i m w. (Inr 0, w), std_what = \<lambda>e. [],
     sr25519_sign = sample_sign, lhs_first = True\<rparr>"

definition sample_api :: "nat api" where
  "sample_api = CPolkaApi\<lparr>FreeBalanceHasher := Some XXHASH\<rparr>"

definition sample_update :: "string \<Rightarrow> json" where
  "sample_update val = JObject [(''changes'', JArray [JArray [JString ''0x'', JString val]])]"

lemma sample_change: "string_value (change (sample_update val) 0) = val"
  by (simp add: sample_update_def change_def)

text \<open>
  C17: a subscription to a balance asks the node for the hash of the prefix and the account's key, and
  an update with its id calls the callback with the little-endian number in it, whatever other
  subscriptions there are, as long as the id is new among them.
\<close>

theorem balance_subscription:
  assumes "FreeBalanceHasher s = Some h" "getPublicKeyFromAddr_str address = Inr pk"
    "map_of (balanceSubscriptionIds s) address = None"
    "rpc_subscribeWs env (storage_query [JString (storage_key_spec h (char_bytes ''Balances FreeBalance'' @ pk))]) w = (Inr sid, w1)"
    "blockNumberSubscriptionId s \<noteq> sid" "key_of_id (nonceSubscriptionIds s) sid = None"
    "key_of_id (balanceSubscriptionIds s) sid = None"
    "string_value (change message 0) = ''0x'' @ hex_bytes u bytes" "length bytes \<le> 16"
  shows "\<exists>s1. subscribeBalance env address (Some (User cb)) (w, s) = (Inr PAPI_OK, (w1, s1)) \<and>
    deliver sid message (w2, s1) =
      (Inr (), (w2, s1\<lparr>notified := notified s1 @ [(cb, Balance (word_of_int (le_int bytes)))]\<rparr>))"
proof -
  define s1 where "s1 = s\<lparr>balanceSubscribers := map_put address (Some (User cb)) (balanceSubscribers s),
      balanceSubscriptionIds := map_put address sid (balanceSubscriptionIds s)\<rparr>"
  have v: "fromHex (string_value (change message 0)) False = Inr (word_of_int (le_int bytes) :: uint128)"
    using fromHex_hex [where ?'a = 128, of "''0x''" u bytes] assms(8,9) by simp
  have "handleWsMessage sid message (w2, s1) = call_keyed balanceSubscribers balanceSubscribers_update address
      (Inr (Balance (word_of_int (le_int bytes)))) (w2, s1)"
    using assms(5,6) key_of_id_put [OF assms(7)] by (simp add: handleWsMessage_def act_simps s1_def v)
  also have "\<dots> = (Inr None, (w2, s1\<lparr>notified := notified s1 @ [(cb, Balance (word_of_int (le_int bytes)))]\<rparr>))"
    by (rule call_keyed_user) (simp add: s1_def)
  finally have "deliver sid message (w2, s1) =
      (Inr (), (w2, s1\<lparr>notified := notified s1 @ [(cb, Balance (word_of_int (le_int bytes)))]\<rparr>))"
    by (simp add: deliver_def abind_def aret_def)
  then show ?thesis using subscribeBalance_returns [OF assms(1-4)] unfolding s1_def by blast
qed

theorem balance_subscription_witness:
  "\<exists>s1. subscribeBalance sample_env sample_sender (Some (User (3 :: nat))) ((), sample_api) = (Inr PAPI_OK, ((), s1)) \<and>
    deliver 7 (sample_update ''0x0A01'') ((), s1) = (Inr (), ((), s1\<lparr>notified := notified s1 @ [(3, Balance 266)]\<rparr>))"
proof -
  have "hex_bytes True [10, 1] = ''0A01''" by code_simp
  then show ?thesis
    using balance_subscription [of sample_api XXHASH sample_sender "replicate 32 0" sample_env "()" 7 "()"
        "sample_update ''0x0A01''" True "[10, 1]" 3 "()"] sample_hyps(1)
    by (simp add: sample_api_def sample_env_def CPolkaApi_def key_of_id_def sample_change)
qed



text \<open>
  C38: if the request to unsubscribe throws, the exception leaves \<^verbatim>\<open>getAccountNonce\<close> with its callback
  still registered, and the next update of the nonce writes through references to its variables, which
  are gone.
\<close>

theorem getAccountNonce_dangling:
  assumes "FreeBalanceHasher s = Some h" "getPublicKeyFromAddr_str address = Inr pk"
    "nonce_subscription env s h address pk sid w w1" "blockNumberSubscriptionId s \<noteq> sid"
    "string_value (change message 0) = ''0x'' @ hex_bytes u bytes" "length bytes \<le> 8"
    "rpc_unsubscribeWs env sid ''state_unsubscribeStorage'' w1 = (Inl (Throw e), w2)"
  shows "\<exists>s2. getAccountNonce env ((sid, message) # updates) address (w, s) = (Inl (Throw e), (w2, s2)) \<and>
    fst (deliver sid message (w3, s2)) = Inl (Undefined UseAfterFree)"
proof -
  obtain s1 where s1: "subscribeAccountNonce env address (Some GotNonce) (w, s) = (Inr PAPI_OK, (w1, s1))"
    "blockNumberSubscriptionId s1 \<noteq> sid" "map_of (nonceSubscriptionIds s1) address = Some sid"
    "key_of_id (nonceSubscriptionIds s1) sid = Some address" "map_of (nonceSubscribers s1) address = Some (Some GotNonce)"
    using nonce_subscribed [OF assms(1-4)] .
  note handle = handle_nonce [OF s1(2,4,5) fromHex_nonce [OF assms(5,6)]]
  have "getAccountNonce env ((sid, message) # updates) address (w, s) = (Inl (Throw e), (w2, s1))"
    unfolding getAccountNonce_first [OF s1(1) handle]
    by (simp add: unsubscribeAccountNonce_def unsubscribe_keyed_def abind_def on_world_def get_api_def s1(3) assms(7))
  moreover have "fst (deliver sid message (w3, s1)) = Inl (Undefined UseAfterFree)"
    by (simp add: deliver_def abind_def handle alift_def)
  ultimately show ?thesis by blast
qed

theorem getAccountNonce_dangling_witness:
  "\<exists>s2. getAccountNonce (sample_env\<lparr>rpc_unsubscribeWs := \<lambda>i m w. (Inl (Throw (JsonRpcException ''Not connected'')), w)\<rparr>)
      [(7, sample_update ''0x0A01'')] sample_sender ((), sample_api) = (Inl (Throw (JsonRpcException ''Not connected'')), ((), s2)) \<and>
    fst (deliver 7 (sample_update ''0x0A01'') ((), s2)) = Inl (Undefined UseAfterFree)"
proof -
  have "hex_bytes True [10, 1] = ''0A01''" by code_simp
  then show ?thesis
    using getAccountNonce_dangling [of sample_api XXHASH sample_sender "replicate 32 0"
        "sample_env\<lparr>rpc_unsubscribeWs := \<lambda>i m w. (Inl (Throw (JsonRpcException ''Not connected'')), w)\<rparr>" 7 "()" "()"
        "sample_update ''0x0A01''" True "[10, 1]" "JsonRpcException ''Not connected''" "()" "[]" "()"] sample_hyps(1)
    by (simp add: sample_api_def sample_env_def CPolkaApi_def key_of_id_def sample_change nonce_subscription_def)
qed

text \<open>
  C39: two subscription ids are tested before they are ever assigned, in every reachable state of the
  object: to subscribe to finalized blocks or the runtime version, or to unsubscribe, reads
  indeterminate memory, and so does every update whose id is not one of the subscriptions that are
  tested before, those to storage entries among them. As long as no extrinsic was submitted with a
  subscription, the same holds for all updates but those of block numbers, nonces and balances, also
  for the completion of a transfer.
\<close>

theorem subscription_ids_uninitialised:
  assumes "api_run env (w, s)"
  shows "fst (subscribeFinalizedBlock env f (w, s)) = Inl (Undefined Uninitialised) \<and>
    (sid \<noteq> blockNumberSubscriptionId s \<and> key_of_id (nonceSubscriptionIds s) sid = None \<and>
     key_of_id (balanceSubscriptionIds s) sid = None \<and> subcribeExtrinsicSubscriberId s = None \<longrightarrow>
       fst (handleWsMessage sid message (w, s)) = Inl (Undefined Uninitialised)) \<and>
    fst (subscribeRuntimeVersion env f (w, s)) = Inl (Undefined Uninitialised) \<and>
    fst (unsubscribeFinalizedBlock env (w, s)) = Inl (Undefined Uninitialised) \<and>
    fst (unsubscribeRuntimeVersion env (w, s)) = Inl (Undefined Uninitialised) \<and>
    (sid \<noteq> blockNumberSubscriptionId s \<and> sid \<noteq> eraAndSessionSubscriptionId s \<and> key_of_id (nonceSubscriptionIds s) sid = None \<and>
     key_of_id (balanceSubscriptionIds s) sid = None \<and> subcribeExtrinsicSubscriberId s \<noteq> Some sid \<and>
     transactionCompletionSubscriptionId s \<noteq> Some sid \<longrightarrow>
       fst (handleWsMessage sid message (w, s)) = Inl (Undefined Uninitialised))"
proof -
  have inv: "api_inv s" using api_run_inv [OF assms] by simp
  then have "finalizedBlockSubscriptionId s = None" by (simp add: api_inv_def plain_ok_def)
  then have "fst (handleWsMessage sid message (w, s)) = Inl (Undefined Uninitialised)"
    if "sid \<noteq> blockNumberSubscriptionId s" "sid \<noteq> eraAndSessionSubscriptionId s" "key_of_id (nonceSubscriptionIds s) sid = None"
      "key_of_id (balanceSubscriptionIds s) sid = None" "subcribeExtrinsicSubscriberId s \<noteq> Some sid"
      "transactionCompletionSubscriptionId s \<noteq> Some sid"
    using that by (cases "subcribeExtrinsicSubscriberId s"; cases "transactionCompletionSubscriptionId s")
      (simp_all add: handleWsMessage_def act_simps written_def)
  moreover have "fst (handleWsMessage sid message (w, s)) = Inl (Undefined Uninitialised)"
    if "sid \<noteq> blockNumberSubscriptionId s" "key_of_id (nonceSubscriptionIds s) sid = None"
      "key_of_id (balanceSubscriptionIds s) sid = None" "subcribeExtrinsicSubscriberId s = None"
    using that by (simp add: handleWsMessage_def act_simps written_def)
  ultimately show ?thesis by (simp add: subscribe_uninitialised [OF inv])
qed

theorem subscription_ids_uninitialised_witness:
  "\<exists>s :: nat api. api_run sample_env ((), s) \<and> storageSubscriptionIds s = [(''0x01'', 7)] \<and>
    fst (subscribeFinalizedBlock sample_env (Some (User 3)) ((), s)) = Inl (Undefined Uninitialised) \<and>
    fst (handleWsMessage 7 (sample_update ''0x02'') ((), s)) = Inl (Undefined Uninitialised)"
proof -
  define s :: "nat api" where
    "s = CPolkaApi\<lparr>storageSubscribers := [(''0x01'', Some (User 3))], storageSubscriptionIds := [(''0x01'', 7)]\<rparr>"
  have "run_op sample_env (SubscribeStorage ''0x01'' 3) ((), CPolkaApi) = (Inr (), ((), s))"
    by (simp add: s_def CPolkaApi_def sample_env_def subscribeStorage_def assign_id_def ignore_def abind_def upd_api_def
        get_api_def on_world_def aret_def)
  then have run: "api_run sample_env ((), s)" by (rule api_run.step [OF api_run.start])
  moreover have "fst (handleWsMessage 7 (sample_update ''0x02'') ((), s)) = Inl (Undefined Uninitialised)"
    "fst (subscribeFinalizedBlock sample_env (Some (User 3)) ((), s)) = Inl (Undefined Uninitialised)"
    using subscription_ids_uninitialised [OF run, of "Some (User 3)" 7 "sample_update ''0x02''"]
    by (simp_all add: s_def CPolkaApi_def key_of_id_def)
  ultimately show ?thesis by (auto simp: s_def)
qed



end
